(* ===== verification/Prelude.thy ===== *)
theory Prelude
  imports
    Main
    "HOL-Library.Word"
    "HOL-Library.Char_ord"
    "HOL-Library.List_Lexorder"
    "HOL-Library.Product_Lexorder"
begin

text \<open>
  Types and generic facts shared by every theory of the development: the Rust
  scalars the crate uses, its error values, the result of polling a future, and
  the collections of rewrite rules that the component proofs share.

  Instants (\<open>time::OffsetDateTime\<close>) are the signed number of nanoseconds since
  the Unix epoch: the crate compares, subtracts and truncates instants only, and
  two offset date-times are equal exactly when their instants are. A
  \<open>std::time::Duration\<close> is a number of nanoseconds.
\<close>

named_theorems heap_simps "reading the shared heap after an update"
named_theorems session_defs "definitions of the operations of a session"
named_theorems lifecycle_defs "definitions of the lifecycle lock and its guards"

type_synonym byte = "8 word"
type_synonym u64 = "64 word"
type_synonym i64 = "64 word"
type_synonym datetime = int
type_synonym duration = nat

abbreviation nanos_per_sec :: int where
  "nanos_per_sec \<equiv> 1000000000"

subsection \<open>Errors\<close>

text \<open>\<open>base64::DecodeError\<close> and \<open>base64::DecodeSliceError\<close>, as the crate matches on them.\<close>

datatype decode_error =
    InvalidByte nat byte
  | InvalidLength nat
  | InvalidLastSymbol nat byte
  | InvalidPadding

datatype decode_slice_error =
    DecodeError decode_error
  | OutputSliceTooSmall

text \<open>
  The crate's \<open>anyhow::Error\<close> values. \<open>UncertainWrite\<close> is the conflict with the
  context text that \<open>uncertain_write\<close> attaches; it still downcasts to
  \<open>SessionConflict\<close>.
\<close>

datatype error =
    SessionConflict
  | UncertainWrite
  | CookieFormat decode_error
  | IdMismatch
  | BatchLimit
  | WeakKey
  | CodecFailure
  | OutOfRange
  | BackendFailure

definition is_conflict :: "error \<Rightarrow> bool" where
  "is_conflict e \<longleftrightarrow> e = SessionConflict \<or> e = UncertainWrite"

lemma is_conflict_simps [simp]:
  "is_conflict SessionConflict" "is_conflict UncertainWrite"
  "\<not> is_conflict (CookieFormat d)" "\<not> is_conflict IdMismatch" "\<not> is_conflict BatchLimit"
  "\<not> is_conflict WeakKey" "\<not> is_conflict CodecFailure" "\<not> is_conflict OutOfRange" "\<not> is_conflict BackendFailure"
  by (simp_all add: is_conflict_def)

subsection \<open>Futures\<close>

text \<open>An awaited lock is either still held by another task or has been obtained.\<close>

datatype 'a poll = Pending | Ready 'a

text \<open>
  What other tasks do while this one is suspended at its n-th suspension point is
  an arbitrary function on the shared world. A theorem that quantifies over it
  holds for every schedule.
\<close>

type_synonym 'w interleaving = "nat \<Rightarrow> 'w \<Rightarrow> 'w"

definition undisturbed :: "'w interleaving" where
  "undisturbed n w = w"

lemma undisturbed_apply [simp]: "undisturbed n w = w"
  by (simp add: undisturbed_def)

subsection \<open>Generic facts\<close>

lemma sum_case_Inr_iff: "(case r of Inl e \<Rightarrow> Inl e | Inr x \<Rightarrow> f x) = Inr y \<longleftrightarrow>
    (\<exists>x. r = Inr x \<and> f x = Inr y)"
  by (cases r) auto

lemma card_dom_upd_new: "finite (dom m) \<Longrightarrow> k \<notin> dom m \<Longrightarrow> card (dom (m(k \<mapsto> v))) = Suc (card (dom m))"
  by simp

lemma of_nat_word64_inj:
  assumes "m < 2 ^ 64" "n < 2 ^ 64"
  shows "(of_nat m :: u64) = of_nat n \<longleftrightarrow> m = n"
  using assms by (simp add: word_of_nat_eq_iff take_bit_nat_eq_self)

lemma sint_i64: "- (2 ^ 63) \<le> x \<Longrightarrow> x < 2 ^ 63 \<Longrightarrow> sint (word_of_int x :: i64) = x"
  by (simp add: sint_sbintrunc' signed_take_bit_int_eq_self)

end
