(* ===== verification/Shared_Heap.thy ===== *)
theory Shared_Heap
  imports Prelude
begin

text \<open>
  The memory that request-local clones of a session share. A \<open>Session\<close> of
  \<open>src/session.rs\<close> holds five \<open>Arc\<close>s: its data, the persisted identity, the creation
  claim, the lifecycle mutex and the destruction flag. An \<open>Arc\<close> is an address; each kind
  of shared object has a table of its own, and a counter hands out fresh addresses.
  Cloning an \<open>Arc\<close> copies the address, so a write through one clone is seen by all.
\<close>

subsection \<open>The shared objects\<close>

text \<open>\<open>SessionData\<close>: the map of values and the request-local bookkeeping under its lock.\<close>

record session_data =
  sd_values :: "string \<rightharpoonup> string"
  sd_revision :: u64
  sd_persisted_revision :: u64
  sd_active_saves :: nat
  sd_overlapping_saves :: bool
  sd_uncertain_save :: bool

text \<open>\<open>SessionData { values, ..SessionData::default() }\<close>\<close>

definition session_data_of :: "(string \<rightharpoonup> string) \<Rightarrow> session_data" where
  "session_data_of vs =
     \<lparr>sd_values = vs, sd_revision = 0, sd_persisted_revision = 0, sd_active_saves = 0,
      sd_overlapping_saves = False, sd_uncertain_save = False\<rparr>"

text \<open>
  \<open>Mutex<WriteState>\<close> of \<open>src/session_lifecycle.rs\<close>: whether a guard holds the mutex,
  and the state the mutex protects.
\<close>

record write_state =
  ws_locked :: bool
  ws_uncertain :: bool

definition write_state_default :: write_state where
  "write_state_default = \<lparr>ws_locked = False, ws_uncertain = False\<rparr>"

subsection \<open>The heap\<close>

record heap =
  h_data :: "nat \<Rightarrow> session_data"
  h_pid :: "nat \<Rightarrow> string option"
  h_claimed :: "nat \<Rightarrow> bool"
  h_destroy :: "nat \<Rightarrow> bool"
  h_life :: "nat \<Rightarrow> write_state"
  h_next :: nat

definition heap_empty :: heap where
  "heap_empty =
     \<lparr>h_data = (\<lambda>_. session_data_of Map.empty), h_pid = (\<lambda>_. None), h_claimed = (\<lambda>_. False),
      h_destroy = (\<lambda>_. False), h_life = (\<lambda>_. write_state_default), h_next = 0\<rparr>"

definition upd_data :: "nat \<Rightarrow> (session_data \<Rightarrow> session_data) \<Rightarrow> heap \<Rightarrow> heap" where
  "upd_data r f h = h\<lparr>h_data := (h_data h)(r := f (h_data h r))\<rparr>"

definition set_pid :: "nat \<Rightarrow> string option \<Rightarrow> heap \<Rightarrow> heap" where
  "set_pid r v h = h\<lparr>h_pid := (h_pid h)(r := v)\<rparr>"

definition set_claimed :: "nat \<Rightarrow> bool \<Rightarrow> heap \<Rightarrow> heap" where
  "set_claimed r v h = h\<lparr>h_claimed := (h_claimed h)(r := v)\<rparr>"

definition set_destroy :: "nat \<Rightarrow> bool \<Rightarrow> heap \<Rightarrow> heap" where
  "set_destroy r v h = h\<lparr>h_destroy := (h_destroy h)(r := v)\<rparr>"

definition upd_life :: "nat \<Rightarrow> (write_state \<Rightarrow> write_state) \<Rightarrow> heap \<Rightarrow> heap" where
  "upd_life r f h = h\<lparr>h_life := (h_life h)(r := f (h_life h r))\<rparr>"

text \<open>
  Allocate one object of each kind at the next free address, which is free in every table.
\<close>

definition alloc_family :: "session_data \<Rightarrow> string option \<Rightarrow> bool \<Rightarrow> heap \<Rightarrow> nat \<times> heap" where
  "alloc_family d p dead h =
     (let n = h_next h in
      (n, h\<lparr>h_data := (h_data h)(n := d), h_pid := (h_pid h)(n := p),
            h_claimed := (h_claimed h)(n := False), h_destroy := (h_destroy h)(n := dead),
            h_life := (h_life h)(n := write_state_default), h_next := Suc n\<rparr>))"

subsection \<open>Reading after an update\<close>

lemma upd_data_sel [simp, heap_simps]:
  "h_data (upd_data r f h) r' = (if r' = r then f (h_data h r) else h_data h r')"
  "h_pid (upd_data r f h) = h_pid h"
  "h_claimed (upd_data r f h) = h_claimed h"
  "h_destroy (upd_data r f h) = h_destroy h"
  "h_life (upd_data r f h) = h_life h"
  "h_next (upd_data r f h) = h_next h"
  by (simp_all add: upd_data_def)

lemma set_pid_sel [simp, heap_simps]:
  "h_data (set_pid r v h) = h_data h"
  "h_pid (set_pid r v h) r' = (if r' = r then v else h_pid h r')"
  "h_claimed (set_pid r v h) = h_claimed h"
  "h_destroy (set_pid r v h) = h_destroy h"
  "h_life (set_pid r v h) = h_life h"
  "h_next (set_pid r v h) = h_next h"
  by (simp_all add: set_pid_def)

lemma set_claimed_sel [simp, heap_simps]:
  "h_data (set_claimed r v h) = h_data h"
  "h_pid (set_claimed r v h) = h_pid h"
  "h_claimed (set_claimed r v h) r' = (if r' = r then v else h_claimed h r')"
  "h_destroy (set_claimed r v h) = h_destroy h"
  "h_life (set_claimed r v h) = h_life h"
  "h_next (set_claimed r v h) = h_next h"
  by (simp_all add: set_claimed_def)

lemma set_destroy_sel [simp, heap_simps]:
  "h_data (set_destroy r v h) = h_data h"
  "h_pid (set_destroy r v h) = h_pid h"
  "h_claimed (set_destroy r v h) = h_claimed h"
  "h_destroy (set_destroy r v h) r' = (if r' = r then v else h_destroy h r')"
  "h_life (set_destroy r v h) = h_life h"
  "h_next (set_destroy r v h) = h_next h"
  by (simp_all add: set_destroy_def)

lemma upd_life_sel [simp, heap_simps]:
  "h_data (upd_life r f h) = h_data h"
  "h_pid (upd_life r f h) = h_pid h"
  "h_claimed (upd_life r f h) = h_claimed h"
  "h_destroy (upd_life r f h) = h_destroy h"
  "h_life (upd_life r f h) r' = (if r' = r then f (h_life h r) else h_life h r')"
  "h_next (upd_life r f h) = h_next h"
  by (simp_all add: upd_life_def)

lemma alloc_family_sel [simp, heap_simps]:
  "fst (alloc_family d p dead h) = h_next h"
  "h_data (snd (alloc_family d p dead h)) r = (if r = h_next h then d else h_data h r)"
  "h_pid (snd (alloc_family d p dead h)) r = (if r = h_next h then p else h_pid h r)"
  "h_claimed (snd (alloc_family d p dead h)) r = (if r = h_next h then False else h_claimed h r)"
  "h_destroy (snd (alloc_family d p dead h)) r = (if r = h_next h then dead else h_destroy h r)"
  "h_life (snd (alloc_family d p dead h)) r =
     (if r = h_next h then write_state_default else h_life h r)"
  "h_next (snd (alloc_family d p dead h)) = Suc (h_next h)"
  by (simp_all add: alloc_family_def Let_def)

lemma session_data_of_sel [simp]:
  "sd_values (session_data_of vs) = vs"
  "sd_revision (session_data_of vs) = 0"
  "sd_persisted_revision (session_data_of vs) = 0"
  "sd_active_saves (session_data_of vs) = 0"
  "\<not> sd_overlapping_saves (session_data_of vs)"
  "\<not> sd_uncertain_save (session_data_of vs)"
  by (simp_all add: session_data_of_def)

lemma write_state_default_sel [simp]:
  "\<not> ws_locked write_state_default" "\<not> ws_uncertain write_state_default"
  by (simp_all add: write_state_default_def)

text \<open>An object is left alone by everything that only allocates.\<close>

definition heap_extends :: "heap \<Rightarrow> heap \<Rightarrow> bool" where
  "heap_extends h h' \<longleftrightarrow> h_next h \<le> h_next h' \<and>
     (\<forall>r < h_next h. h_data h' r = h_data h r \<and> h_pid h' r = h_pid h r \<and>
        h_claimed h' r = h_claimed h r \<and> h_destroy h' r = h_destroy h r \<and> h_life h' r = h_life h r)"

lemma heap_extends_refl [simp, intro]: "heap_extends h h"
  by (simp add: heap_extends_def)

lemma heap_extends_trans: "heap_extends h h' \<Longrightarrow> heap_extends h' h'' \<Longrightarrow> heap_extends h h''"
  by (auto simp: heap_extends_def)

lemma heap_extends_alloc [simp, intro]: "heap_extends h (snd (alloc_family d p dead h))"
  by (auto simp: heap_extends_def)

end
