(* ===== verification/Save_Revision.thy ===== *)
theory Save_Revision
  imports Shared_Heap
begin

text \<open>
  Change tracking of the data that clones share (\<open>SessionData\<close> and \<open>SaveRevision\<close> of
  \<open>src/session.rs\<close>): edits advance a 64-bit revision, a save captures the revision
  together with its snapshot, and a confirmed save acknowledges exactly the captured
  revision. The theory proves that data reported as unchanged is the data the backend
  holds, whatever saves and edits were interleaved.
\<close>

subsection \<open>Operations on the locked data\<close>

text \<open>The body of \<open>Session::insert_raw\<close> and of \<open>Session::remove\<close>, under the data lock.\<close>

definition insert_raw_data :: "string \<Rightarrow> string \<Rightarrow> session_data \<Rightarrow> session_data" where
  "insert_raw_data key value d =
     (if sd_values d key \<noteq> Some value
      then d\<lparr>sd_values := (sd_values d)(key \<mapsto> value), sd_revision := sd_revision d + 1\<rparr>
      else d)"

definition remove_data :: "string \<Rightarrow> session_data \<Rightarrow> session_data" where
  "remove_data key d =
     (case sd_values d key of
        None \<Rightarrow> d
      | Some _ \<Rightarrow> d\<lparr>sd_values := (sd_values d)(key := None), sd_revision := sd_revision d + 1\<rparr>)"

text \<open>The part of \<open>Session::data_changed\<close> that reads the shared data.\<close>

definition data_dirty :: "session_data \<Rightarrow> bool" where
  "data_dirty d \<longleftrightarrow> sd_uncertain_save d \<or> sd_revision d \<noteq> sd_persisted_revision d"

definition capture_data :: "session_data \<Rightarrow> session_data" where
  "capture_data d =
     (let d1 = (if sd_active_saves d = 0
                then d\<lparr>sd_overlapping_saves := False\<rparr>
                else d\<lparr>sd_overlapping_saves := True, sd_uncertain_save := True\<rparr>)
      in d1\<lparr>sd_active_saves := sd_active_saves d1 + 1\<rparr>)"

definition acknowledge_data :: "u64 \<Rightarrow> session_data \<Rightarrow> session_data" where
  "acknowledge_data revision d =
     (let d1 = (if sd_overlapping_saves d
                then d\<lparr>sd_uncertain_save := True\<rparr>
                else d\<lparr>sd_persisted_revision := revision, sd_uncertain_save := False\<rparr>)
      in d1\<lparr>sd_active_saves := sd_active_saves d1 - 1\<rparr>)"

definition drop_data :: "session_data \<Rightarrow> session_data" where
  "drop_data d = d\<lparr>sd_uncertain_save := True, sd_active_saves := sd_active_saves d - 1\<rparr>"

definition reset_data :: "session_data \<Rightarrow> session_data" where
  "reset_data d = d\<lparr>sd_persisted_revision := sd_revision d, sd_uncertain_save := False\<rparr>"

subsection \<open>The save token\<close>

text \<open>
  \<open>SaveRevision\<close>. Its \<open>Option<Arc<..>>\<close> is \<open>Some\<close> from the capture until the token is
  consumed: \<open>acknowledge\<close> takes the token by value, and dropping it runs once. The
  model therefore keeps the address only, and a handler ends every token by exactly one
  of \<open>acknowledge\<close> and \<open>revision_drop\<close>.
\<close>

record save_revision =
  sr_data :: nat
  sr_revision :: u64

definition capture :: "nat \<Rightarrow> heap \<Rightarrow> save_revision \<times> heap" where
  "capture shared h =
     (\<lparr>sr_data = shared, sr_revision = sd_revision (h_data h shared)\<rparr>,
      upd_data shared capture_data h)"

definition acknowledge :: "save_revision \<Rightarrow> heap \<Rightarrow> heap" where
  "acknowledge token h = upd_data (sr_data token) (acknowledge_data (sr_revision token)) h"

definition revision_drop :: "save_revision \<Rightarrow> heap \<Rightarrow> heap" where
  "revision_drop token h = upd_data (sr_data token) drop_data h"

subsection \<open>Rewrite rules for the data operations\<close>

lemma data_ops_values [simp]:
  "sd_values (capture_data d) = sd_values d"
  "sd_values (acknowledge_data r d) = sd_values d"
  "sd_values (drop_data d) = sd_values d"
  "sd_values (reset_data d) = sd_values d"
  "sd_values (insert_raw_data k v d) = (sd_values d)(k \<mapsto> v)"
  "sd_values (remove_data k d) = (sd_values d)(k := None)"
  by (auto simp: capture_data_def acknowledge_data_def drop_data_def reset_data_def
      insert_raw_data_def remove_data_def Let_def split: option.splits)

lemma data_ops_revision [simp]:
  "sd_revision (capture_data d) = sd_revision d"
  "sd_revision (acknowledge_data r d) = sd_revision d"
  "sd_revision (drop_data d) = sd_revision d"
  "sd_revision (reset_data d) = sd_revision d"
  "sd_revision (insert_raw_data k v d) =
     (if sd_values d k = Some v then sd_revision d else sd_revision d + 1)"
  "sd_revision (remove_data k d) =
     (if sd_values d k = None then sd_revision d else sd_revision d + 1)"
  by (auto simp: capture_data_def acknowledge_data_def drop_data_def reset_data_def
      insert_raw_data_def remove_data_def Let_def split: option.splits)

lemma data_ops_persisted [simp]:
  "sd_persisted_revision (capture_data d) = sd_persisted_revision d"
  "sd_persisted_revision (acknowledge_data r d) =
     (if sd_overlapping_saves d then sd_persisted_revision d else r)"
  "sd_persisted_revision (drop_data d) = sd_persisted_revision d"
  "sd_persisted_revision (reset_data d) = sd_revision d"
  "sd_persisted_revision (insert_raw_data k v d) = sd_persisted_revision d"
  "sd_persisted_revision (remove_data k d) = sd_persisted_revision d"
  by (auto simp: capture_data_def acknowledge_data_def drop_data_def reset_data_def
      insert_raw_data_def remove_data_def Let_def split: option.splits)

lemma data_ops_active [simp]:
  "sd_active_saves (capture_data d) = Suc (sd_active_saves d)"
  "sd_active_saves (acknowledge_data r d) = sd_active_saves d - 1"
  "sd_active_saves (drop_data d) = sd_active_saves d - 1"
  "sd_active_saves (reset_data d) = sd_active_saves d"
  "sd_active_saves (insert_raw_data k v d) = sd_active_saves d"
  "sd_active_saves (remove_data k d) = sd_active_saves d"
  by (auto simp: capture_data_def acknowledge_data_def drop_data_def reset_data_def
      insert_raw_data_def remove_data_def Let_def split: option.splits)

lemma data_ops_overlapping [simp]:
  "sd_overlapping_saves (capture_data d) = (sd_active_saves d \<noteq> 0)"
  "sd_overlapping_saves (acknowledge_data r d) = sd_overlapping_saves d"
  "sd_overlapping_saves (drop_data d) = sd_overlapping_saves d"
  "sd_overlapping_saves (reset_data d) = sd_overlapping_saves d"
  "sd_overlapping_saves (insert_raw_data k v d) = sd_overlapping_saves d"
  "sd_overlapping_saves (remove_data k d) = sd_overlapping_saves d"
  by (auto simp: capture_data_def acknowledge_data_def drop_data_def reset_data_def
      insert_raw_data_def remove_data_def Let_def split: option.splits)

lemma data_ops_uncertain [simp]:
  "sd_uncertain_save (capture_data d) = (sd_uncertain_save d \<or> sd_active_saves d \<noteq> 0)"
  "sd_uncertain_save (acknowledge_data r d) = sd_overlapping_saves d"
  "sd_uncertain_save (drop_data d)"
  "\<not> sd_uncertain_save (reset_data d)"
  "sd_uncertain_save (insert_raw_data k v d) = sd_uncertain_save d"
  "sd_uncertain_save (remove_data k d) = sd_uncertain_save d"
  by (auto simp: capture_data_def acknowledge_data_def drop_data_def reset_data_def
      insert_raw_data_def remove_data_def Let_def split: option.splits)

lemma reset_data_clean: "\<not> data_dirty (reset_data d)"
  by (simp add: data_dirty_def)

subsection \<open>Cohorts of overlapping saves\<close>

text \<open>
  The contract between the data and whoever saves it: a count of outstanding saves, a
  mark for a cohort in which two saves overlapped, and a mark for unconfirmed data.
\<close>

datatype 'r save_event = BeginSave | ConfirmSave 'r | AbandonSave

fun save_run :: "('d \<Rightarrow> 'd) \<Rightarrow> ('r \<Rightarrow> 'd \<Rightarrow> 'd) \<Rightarrow> ('d \<Rightarrow> 'd) \<Rightarrow> 'r save_event list \<Rightarrow> 'd \<Rightarrow> 'd" where
  "save_run b c a [] d = d"
| "save_run b c a (BeginSave # es) d = save_run b c a es (b d)"
| "save_run b c a (ConfirmSave r # es) d = save_run b c a es (c r d)"
| "save_run b c a (AbandonSave # es) d = save_run b c a es (a d)"

text \<open>
  How many saves are outstanding after the events, when each completion ends one save;
  \<open>None\<close> when the cohort has ended before the last event, or when a completion has no save.
\<close>

fun cohort_count :: "'r save_event list \<Rightarrow> nat \<Rightarrow> nat option" where
  "cohort_count [] n = Some n"
| "cohort_count (e # es) 0 = None"
| "cohort_count (BeginSave # es) (Suc n) = cohort_count es (Suc (Suc n))"
| "cohort_count (ConfirmSave r # es) (Suc n) = cohort_count es n"
| "cohort_count (AbandonSave # es) (Suc n) = cohort_count es n"

locale save_cohort =
  fixes begin_save :: "'d \<Rightarrow> 'd"
    and confirm :: "'r \<Rightarrow> 'd \<Rightarrow> 'd"
    and abandon :: "'d \<Rightarrow> 'd"
    and outstanding :: "'d \<Rightarrow> nat"
    and overlapped :: "'d \<Rightarrow> bool"
    and unconfirmed :: "'d \<Rightarrow> bool"
  assumes begin_outstanding: "outstanding (begin_save d) = Suc (outstanding d)"
    and confirm_outstanding: "outstanding (confirm r d) = outstanding d - 1"
    and abandon_outstanding: "outstanding (abandon d) = outstanding d - 1"
    and begin_overlap:
      "0 < outstanding d \<Longrightarrow> overlapped (begin_save d) \<and> unconfirmed (begin_save d)"
    and confirm_overlap:
      "overlapped d \<Longrightarrow> overlapped (confirm r d) \<and> unconfirmed (confirm r d)"
    and abandon_unconfirmed: "unconfirmed (abandon d)"
    and abandon_overlap: "overlapped (abandon d) = overlapped d"
begin

lemma run_outstanding:
  "cohort_count es (outstanding d) = Some n \<Longrightarrow>
   outstanding (save_run begin_save confirm abandon es d) = n"
proof (induction es arbitrary: d)
  case Nil
  then show ?case by simp
next
  case (Cons e es)
  then obtain k where k: "outstanding d = Suc k"
    by (cases "outstanding d") auto
  show ?case
  proof (cases e)
    case BeginSave
    then show ?thesis using Cons k by (simp add: begin_outstanding)
  next
    case (ConfirmSave r)
    then show ?thesis using Cons k by (simp add: confirm_outstanding)
  next
    case AbandonSave
    then show ?thesis using Cons k by (simp add: abandon_outstanding)
  qed
qed

text \<open>Once two saves overlapped, no completion order confirms the cohort.\<close>

lemma overlapped_cohort_unconfirmed:
  "overlapped d \<Longrightarrow> unconfirmed d \<Longrightarrow> cohort_count es (outstanding d) \<noteq> None \<Longrightarrow>
   overlapped (save_run begin_save confirm abandon es d) \<and>
   unconfirmed (save_run begin_save confirm abandon es d)"
proof (induction es arbitrary: d)
  case Nil
  then show ?case by simp
next
  case (Cons e es)
  then obtain k where k: "outstanding d = Suc k"
    by (cases "outstanding d") auto
  show ?case
  proof (cases e)
    case BeginSave
    then show ?thesis using Cons k begin_overlap[of d] by (simp add: begin_outstanding)
  next
    case (ConfirmSave r)
    then show ?thesis using Cons k confirm_overlap[of d r] by (simp add: confirm_outstanding)
  next
    case AbandonSave
    then show ?thesis using Cons k
      by (simp add: abandon_outstanding abandon_unconfirmed abandon_overlap)
  qed
qed

lemma second_save_poisons_cohort:
  assumes "0 < outstanding d"
    and "cohort_count es (Suc (outstanding d)) \<noteq> None"
  shows "unconfirmed (save_run begin_save confirm abandon es (begin_save d))"
  using overlapped_cohort_unconfirmed[of "begin_save d" es] begin_overlap[OF assms(1)] assms(2)
  by (simp add: begin_outstanding)

end

interpretation cohort: save_cohort
  capture_data acknowledge_data drop_data sd_active_saves sd_overlapping_saves sd_uncertain_save
  by unfold_locales auto

text \<open>
  C13: once a second save is captured while another is outstanding, the shared data is
  reported as changed after any sequence of captures, acknowledgements and dropped
  tokens of that cohort, up to and including the end of its last save: no completion
  order makes an overlapping cohort look persisted.
\<close>
theorem overlapping_cohort_stays_dirty:
  assumes "0 < sd_active_saves d"
    and "cohort_count es (Suc (sd_active_saves d)) \<noteq> None"
  shows "data_dirty (save_run capture_data acknowledge_data drop_data es (capture_data d))"
  using cohort.second_save_poisons_cohort[OF assms] by (simp add: data_dirty_def)

theorem overlapping_cohort_stays_dirty_witness:
  "data_dirty (save_run capture_data acknowledge_data drop_data [ConfirmSave 0, ConfirmSave 0]
     (capture_data (capture_data (session_data_of [''k'' \<mapsto> ''v'']))))"
  by (rule overlapping_cohort_stays_dirty[of "capture_data (session_data_of [''k'' \<mapsto> ''v''])"]) simp_all

end
