(* ===== verification/Save_Tracking.thy ===== *)
theory Save_Tracking
  imports Save_Revision
begin

text \<open>
  The contract of change tracking over whole executions. A \<open>tracked\<close> system is the
  shared data of one clone family together with the saves in flight and the record the
  backend holds. Edits, captures, backend writes, acknowledgements and dropped tokens
  interleave in any order. A write lands while its save is held, or later, when its token
  has already been dropped (a cancelled operation that the backend still executes); only a
  save whose write has landed is acknowledged. The invariant relates revisions to
  contents, and its consequence is the point of the bookkeeping: unchanged data is
  persisted data, unless the last write that landed was such a late one, which
  docs/custom-stores.md (lines 47-48) leaves unfenced.
\<close>

record pending_save =
  ps_revision :: u64
  ps_snapshot :: "string \<rightharpoonup> string"
  ps_written :: bool

text \<open>
  \<open>t_adrift\<close> holds the snapshots of the saves that were dropped before their write landed:
  the backend may still execute those writes. \<open>t_stray\<close> says that the last write that
  landed was one of them; no operation of the code reads either field.
\<close>

record tracked =
  t_data :: session_data
  t_saves :: "pending_save list"
  t_backend :: "string \<rightharpoonup> string"
  t_adrift :: "(string \<rightharpoonup> string) list"
  t_stray :: bool

definition tracked_loaded :: "(string \<rightharpoonup> string) \<Rightarrow> tracked" where
  "tracked_loaded vs =
     \<lparr>t_data = session_data_of vs, t_saves = [], t_backend = vs, t_adrift = [], t_stray = False\<rparr>"

text \<open>
  An edit that would wrap the 64-bit revision is excluded: the bound is at most
  \<open>2 ^ 64 - 1\<close> edits of one loaded session.
\<close>

definition may_edit :: "session_data \<Rightarrow> bool" where
  "may_edit d \<longleftrightarrow> unat (sd_revision d) < 2 ^ 64 - 1"

inductive track_step :: "tracked \<Rightarrow> tracked \<Rightarrow> bool" where
  edit_insert: "may_edit (t_data t) \<Longrightarrow>
     track_step t (t\<lparr>t_data := insert_raw_data k v (t_data t)\<rparr>)"
| edit_remove: "may_edit (t_data t) \<Longrightarrow>
     track_step t (t\<lparr>t_data := remove_data k (t_data t)\<rparr>)"
| save_capture: "track_step t
     (t\<lparr>t_data := capture_data (t_data t),
        t_saves := \<lparr>ps_revision = sd_revision (t_data t), ps_snapshot = sd_values (t_data t),
                    ps_written = False\<rparr> # t_saves t\<rparr>)"
| backend_write: "t_saves t = xs @ p # ys \<Longrightarrow>
     track_step t (t\<lparr>t_saves := xs @ p\<lparr>ps_written := True\<rparr> # ys, t_backend := ps_snapshot p,
                     t_stray := False\<rparr>)"
| save_confirm: "t_saves t = xs @ p # ys \<Longrightarrow> ps_written p \<Longrightarrow>
     track_step t (t\<lparr>t_data := acknowledge_data (ps_revision p) (t_data t), t_saves := xs @ ys\<rparr>)"
| save_abandon: "t_saves t = xs @ p # ys \<Longrightarrow>
     track_step t (t\<lparr>t_data := drop_data (t_data t), t_saves := xs @ ys,
                     t_adrift := (if ps_written p then t_adrift t
                                  else ps_snapshot p # t_adrift t)\<rparr>)"
| late_write: "t_adrift t = xs @ m # ys \<Longrightarrow>
     track_step t (t\<lparr>t_backend := m, t_adrift := xs @ ys, t_stray := True\<rparr>)"

inductive track_reachable :: "(string \<rightharpoonup> string) \<Rightarrow> tracked \<Rightarrow> bool" for vs where
  track_start: "track_reachable vs (tracked_loaded vs)"
| track_next: "track_reachable vs t \<Longrightarrow> track_step t u \<Longrightarrow> track_reachable vs u"

subsection \<open>The invariant\<close>

text \<open>
  A save in flight was captured no later than now and no earlier than the last
  acknowledged revision; equal revisions mean equal contents.
\<close>

definition pending_ok :: "session_data \<Rightarrow> pending_save \<Rightarrow> bool" where
  "pending_ok d p \<longleftrightarrow>
     unat (ps_revision p) \<le> unat (sd_revision d) \<and>
     unat (sd_persisted_revision d) \<le> unat (ps_revision p) \<and>
     (ps_revision p = sd_revision d \<longrightarrow> ps_snapshot p = sd_values d)"

definition tracking_inv :: "tracked \<Rightarrow> bool" where
  "tracking_inv t \<longleftrightarrow>
     sd_active_saves (t_data t) = length (t_saves t) \<and>
     unat (sd_persisted_revision (t_data t)) \<le> unat (sd_revision (t_data t)) \<and>
     (\<forall>p \<in> set (t_saves t). pending_ok (t_data t) p) \<and>
     (2 \<le> length (t_saves t) \<longrightarrow> sd_overlapping_saves (t_data t)) \<and>
     (sd_overlapping_saves (t_data t) \<longrightarrow> sd_uncertain_save (t_data t)) \<and>
     (\<not> sd_overlapping_saves (t_data t) \<longrightarrow> \<not> t_stray t \<longrightarrow>
        (\<forall>p \<in> set (t_saves t). ps_written p \<longrightarrow> t_backend t = ps_snapshot p)) \<and>
     (\<not> data_dirty (t_data t) \<longrightarrow> \<not> t_stray t \<longrightarrow> t_backend t = sd_values (t_data t))"

lemma tracking_inv_loaded: "tracking_inv (tracked_loaded vs)"
  by (simp add: tracking_inv_def tracked_loaded_def)

lemma unat_next_revision: "may_edit d \<Longrightarrow> unat (sd_revision d + 1) = Suc (unat (sd_revision d))"
  by (simp add: may_edit_def unat_word_ariths)

lemma unat_le_neq_next:
  "may_edit d \<Longrightarrow> unat r \<le> unat (sd_revision d) \<Longrightarrow> r \<noteq> sd_revision d + 1 \<and> sd_revision d + 1 \<noteq> r"
  using unat_next_revision[of d] by auto

lemma tracking_inv_edit:
  assumes inv: "tracking_inv t" and edit: "may_edit (t_data t)"
    and same: "sd_active_saves d = sd_active_saves (t_data t)"
      "sd_persisted_revision d = sd_persisted_revision (t_data t)"
      "sd_overlapping_saves d = sd_overlapping_saves (t_data t)"
      "sd_uncertain_save d = sd_uncertain_save (t_data t)"
    and changed: "d = t_data t \<or> sd_revision d = sd_revision (t_data t) + 1"
  shows "tracking_inv (t\<lparr>t_data := d\<rparr>)"
proof (cases "d = t_data t")
  case True
  then show ?thesis using inv by simp
next
  case False
  with changed have "sd_revision d = sd_revision (t_data t) + 1" by simp
  then show ?thesis
    using inv same unat_next_revision[OF edit] unat_le_neq_next[OF edit]
    by (auto simp: tracking_inv_def pending_ok_def data_dirty_def)
qed

lemma insert_raw_data_changed:
  "insert_raw_data k v d = d \<or> sd_revision (insert_raw_data k v d) = sd_revision d + 1"
  by (simp add: insert_raw_data_def)

lemma remove_data_changed:
  "remove_data k d = d \<or> sd_revision (remove_data k d) = sd_revision d + 1"
  by (simp add: remove_data_def split: option.splits)

lemma pending_of_clean:
  assumes "pending_ok d p" and "\<not> data_dirty d"
  shows "ps_snapshot p = sd_values d"
proof -
  from assms have "unat (ps_revision p) = unat (sd_revision d)"
    by (simp add: pending_ok_def data_dirty_def)
  then have "ps_revision p = sd_revision d" by (simp add: word_unat_eq_iff)
  with assms(1) show ?thesis by (simp add: pending_ok_def)
qed

lemma lone_save:
  "tracking_inv t \<Longrightarrow> t_saves t = xs @ p # ys \<Longrightarrow> \<not> sd_overlapping_saves (t_data t) \<Longrightarrow>
   xs = [] \<and> ys = []"
  by (cases xs; cases ys) (auto simp: tracking_inv_def)

lemma tracking_inv_overlapped:
  assumes "tracking_inv t" and "sd_overlapping_saves d" and "sd_uncertain_save d"
    and "sd_active_saves d = length ps"
    and "sd_revision d = sd_revision (t_data t)" "sd_values d = sd_values (t_data t)"
      "sd_persisted_revision d = sd_persisted_revision (t_data t)"
    and "\<forall>p \<in> set ps. pending_ok (t_data t) p"
  shows "tracking_inv \<lparr>t_data = d, t_saves = ps, t_backend = m, t_adrift = ms, t_stray = b\<rparr>"
  using assms by (simp add: tracking_inv_def pending_ok_def data_dirty_def)

lemma tracking_inv_write:
  assumes inv: "tracking_inv t" and saves: "t_saves t = xs @ p # ys"
  shows "tracking_inv (t\<lparr>t_saves := xs @ p\<lparr>ps_written := True\<rparr> # ys, t_backend := ps_snapshot p,
                         t_stray := False\<rparr>)"
proof (cases "sd_overlapping_saves (t_data t)")
  case True
  then show ?thesis
    using inv saves
    tracking_inv_overlapped[OF inv, of "t_data t" "xs @ p\<lparr>ps_written := True\<rparr> # ys" "ps_snapshot p"
        "t_adrift t" False]
    by (simp add: tracking_inv_def pending_ok_def)
next
  case False
  have "pending_ok (t_data t) p" using inv saves by (simp add: tracking_inv_def)
  then show ?thesis
    using inv saves False lone_save[OF inv saves False] pending_of_clean[of "t_data t" p]
    by (simp add: tracking_inv_def pending_ok_def)
qed

lemma tracking_inv_confirm:
  assumes inv: "tracking_inv t" and saves: "t_saves t = xs @ p # ys" and "ps_written p"
  shows "tracking_inv (t\<lparr>t_data := acknowledge_data (ps_revision p) (t_data t), t_saves := xs @ ys\<rparr>)"
proof (cases "sd_overlapping_saves (t_data t)")
  case True
  then show ?thesis
    using inv saves tracking_inv_overlapped[OF inv, of "acknowledge_data (ps_revision p) (t_data t)"
        "xs @ ys" "t_backend t" "t_adrift t" "t_stray t"]
    by (simp add: tracking_inv_def)
next
  case False
  then show ?thesis
    using inv saves lone_save[OF inv saves False] \<open>ps_written p\<close>
    by (simp add: tracking_inv_def pending_ok_def data_dirty_def)
qed

lemma tracking_inv_abandon:
  assumes inv: "tracking_inv t" and saves: "t_saves t = xs @ p # ys"
  shows "tracking_inv (t\<lparr>t_data := drop_data (t_data t), t_saves := xs @ ys, t_adrift := ms\<rparr>)"
proof (cases "sd_overlapping_saves (t_data t)")
  case True
  then show ?thesis
    using inv saves tracking_inv_overlapped[OF inv, of "drop_data (t_data t)" "xs @ ys" "t_backend t" ms
        "t_stray t"]
    by (simp add: tracking_inv_def)
next
  case False
  then show ?thesis
    using inv saves lone_save[OF inv saves False]
    by (simp add: tracking_inv_def data_dirty_def)
qed

lemma tracking_inv_capture:
  "tracking_inv t \<Longrightarrow> tracking_inv
     (t\<lparr>t_data := capture_data (t_data t),
        t_saves := \<lparr>ps_revision = sd_revision (t_data t), ps_snapshot = sd_values (t_data t),
                    ps_written = False\<rparr> # t_saves t\<rparr>)"
  by (cases "t_saves t") (simp_all add: tracking_inv_def pending_ok_def data_dirty_def)

lemma tracking_inv_late:
  "tracking_inv t \<Longrightarrow> tracking_inv (t\<lparr>t_backend := m, t_adrift := ms, t_stray := True\<rparr>)"
  by (simp add: tracking_inv_def)

lemma tracking_inv_step: "track_step t u \<Longrightarrow> tracking_inv t \<Longrightarrow> tracking_inv u"
proof (induction rule: track_step.induct)
  case (edit_insert t k v)
  then show ?case
    by (intro tracking_inv_edit insert_raw_data_changed) simp_all
next
  case (edit_remove t k)
  then show ?case
    by (intro tracking_inv_edit remove_data_changed) simp_all
next
  case (save_abandon t xs p ys)
  then show ?case by (intro tracking_inv_abandon)
qed (auto intro: tracking_inv_capture tracking_inv_write tracking_inv_confirm tracking_inv_late)

lemma tracking_inv_reachable: "track_reachable vs t \<Longrightarrow> tracking_inv t"
  by (induction rule: track_reachable.induct) (auto intro: tracking_inv_loaded tracking_inv_step)

subsection \<open>Unchanged data is persisted data\<close>

text \<open>
  C2: in every execution of edits, captures, backend writes, acknowledgements and dropped
  saves from a loaded session, the writes of saves dropped beforehand landing at any later
  time or never, data that is not reported as changed is exactly the data the backend
  holds, unless the write that landed last was that of a save whose token had been dropped
  before it landed. (Fewer than \<open>2 ^ 64\<close> edits; see \<open>may_edit\<close>.)
\<close>
theorem unchanged_data_is_persisted:
  assumes "track_reachable vs t" and "\<not> data_dirty (t_data t)"
  shows "t_backend t = sd_values (t_data t) \<or> t_stray t"
  using tracking_inv_reachable[OF assms(1)] assms(2) by (auto simp: tracking_inv_def)

definition tracked_example :: tracked where
  "tracked_example =
     \<lparr>t_data = acknowledge_data 1 (capture_data
        (insert_raw_data ''k'' ''v'' (session_data_of Map.empty))),
      t_saves = [], t_backend = [''k'' \<mapsto> ''v''], t_adrift = [], t_stray = False\<rparr>"

lemma tracked_example_reachable: "track_reachable Map.empty tracked_example"
proof -
  let ?d = "insert_raw_data ''k'' ''v'' (session_data_of Map.empty)"
  let ?p = "\<lparr>ps_revision = 1, ps_snapshot = [''k'' \<mapsto> ''v''], ps_written = False\<rparr>"
  have "track_reachable Map.empty \<lparr>t_data = ?d, t_saves = [], t_backend = Map.empty,
      t_adrift = [], t_stray = False\<rparr>"
    using track_next[OF track_start[of Map.empty] edit_insert[of _ "''k''" "''v''"]]
    by (simp add: tracked_loaded_def may_edit_def)
  from track_next[OF this save_capture]
  have "track_reachable Map.empty
      \<lparr>t_data = capture_data ?d, t_saves = [?p], t_backend = Map.empty, t_adrift = [],
       t_stray = False\<rparr>" by simp
  from track_next[OF this backend_write[of _ "[]" ?p "[]"]]
  have "track_reachable Map.empty
      \<lparr>t_data = capture_data ?d, t_saves = [?p\<lparr>ps_written := True\<rparr>], t_backend = [''k'' \<mapsto> ''v''],
       t_adrift = [], t_stray = False\<rparr>"
    by simp
  from track_next[OF this save_confirm[of _ "[]" "?p\<lparr>ps_written := True\<rparr>" "[]"]]
  show ?thesis by (simp add: tracked_example_def)
qed

theorem unchanged_data_is_persisted_witness:
  "t_backend tracked_example = sd_values (t_data tracked_example)"
proof -
  have "\<not> t_stray tracked_example" by (simp add: tracked_example_def)
  moreover have "\<not> data_dirty (t_data tracked_example)"
    by (simp add: tracked_example_def data_dirty_def)
  ultimately show ?thesis
    using unchanged_data_is_persisted[OF tracked_example_reachable] by simp
qed

text \<open>
  The exception is needed. A save is cancelled before its write lands, the value is edited
  again, a standalone save writes it and is acknowledged, and then the cancelled write
  lands: the data counts as unchanged and the backend holds the old value. Nothing in the
  tracking can tell this; it is the case docs/custom-stores.md excludes.
\<close>

lemma functions_differ: "f x \<noteq> g x \<Longrightarrow> f \<noteq> g"
  by auto

lemma late_write_is_not_fenced:
  "\<exists>t. track_reachable Map.empty t \<and> \<not> data_dirty (t_data t) \<and>
     t_backend t \<noteq> sd_values (t_data t)"
proof -
  let ?a = "insert_raw_data ''k'' ''a'' (session_data_of Map.empty)"
  let ?b = "insert_raw_data ''k'' ''b'' (drop_data (capture_data ?a))"
  let ?p = "\<lparr>ps_revision = 2, ps_snapshot = [''k'' \<mapsto> ''b''], ps_written = False\<rparr>"
  let ?t = "\<lambda>d ps m ms b. \<lparr>t_data = d, t_saves = ps, t_backend = m, t_adrift = ms, t_stray = b\<rparr>"
  let ?c = "acknowledge_data 2 (capture_data ?b)"
  let ?ms = "[[''k'' \<mapsto> ''a'']]"
  have "track_reachable Map.empty (?t ?a [] Map.empty [] False)"
    using track_next[OF track_start[of Map.empty] edit_insert[of _ "''k''" "''a''"]]
    by (simp add: tracked_loaded_def may_edit_def)
  from track_next[OF track_next[OF this save_capture] save_abandon[of _ "[]" _ "[]"]]
  have "track_reachable Map.empty (?t (drop_data (capture_data ?a)) [] Map.empty ?ms False)"
    by simp
  from track_next[OF this edit_insert[of _ "''k''" "''b''"]]
  have "track_reachable Map.empty (?t ?b [] Map.empty ?ms False)"
    by (simp add: may_edit_def)
  from track_next[OF track_next[OF this save_capture] backend_write[of _ "[]" ?p "[]"]]
  have "track_reachable Map.empty
      (?t (capture_data ?b) [?p\<lparr>ps_written := True\<rparr>] [''k'' \<mapsto> ''b''] ?ms False)"
    by simp
  from track_next[OF track_next[OF this save_confirm[of _ "[]" "?p\<lparr>ps_written := True\<rparr>" "[]"]]
      late_write[of _ "[]" "[''k'' \<mapsto> ''a'']" "[]"]]
  have reach: "track_reachable Map.empty (?t ?c [] [''k'' \<mapsto> ''a''] [] True)" by simp
  have clean: "\<not> data_dirty ?c" by (simp add: data_dirty_def)
  have differs: "[''k'' \<mapsto> ''a''] \<noteq> sd_values ?c"
    by (rule functions_differ[of _ "''k''"]) simp
  let ?u = "?t ?c [] [''k'' \<mapsto> ''a''] [] True"
  have "\<not> data_dirty (t_data ?u)" "t_backend ?u \<noteq> sd_values (t_data ?u)"
    using clean differs by (simp_all only: tracked.select_convs not_False_eq_True)
  with reach show ?thesis by blast
qed

subsection \<open>A standalone save\<close>

text \<open>The data after a list of inserts.\<close>

fun insert_all :: "(string \<times> string) list \<Rightarrow> session_data \<Rightarrow> session_data" where
  "insert_all [] d = d"
| "insert_all ((k, v) # kvs) d = insert_all kvs (insert_raw_data k v d)"

text \<open>The number of inserts of the list that change the map.\<close>

fun real_edits :: "(string \<times> string) list \<Rightarrow> (string \<rightharpoonup> string) \<Rightarrow> nat" where
  "real_edits [] m = 0"
| "real_edits ((k, v) # kvs) m = (if m k = Some v then 0 else 1) + real_edits kvs (m(k \<mapsto> v))"

lemma insert_all_sel [simp]:
  "sd_persisted_revision (insert_all kvs d) = sd_persisted_revision d"
  "sd_active_saves (insert_all kvs d) = sd_active_saves d"
  "sd_overlapping_saves (insert_all kvs d) = sd_overlapping_saves d"
  "sd_uncertain_save (insert_all kvs d) = sd_uncertain_save d"
  by (induction kvs d rule: insert_all.induct) simp_all

lemma insert_all_revision:
  "sd_revision (insert_all kvs d) = sd_revision d + of_nat (real_edits kvs (sd_values d))"
proof (induction kvs d rule: insert_all.induct)
  case (2 k v kvs d)
  then show ?case
    by (cases "sd_values d k = Some v") (simp_all del: fun_upd_apply)
qed simp

text \<open>
  A standalone save acknowledges exactly its snapshot. When edits are made through a
  clone while the save awaits I/O, the acknowledgement leaves the data dirty unless the
  number of edits that changed something is a multiple of \<open>2 ^ 64\<close>; without edits the
  data is clean afterwards, whatever uncertainty an earlier save had left.
\<close>
theorem standalone_save_acknowledges_snapshot:
  assumes "sd_active_saves d = 0"
  shows "data_dirty (acknowledge_data (sd_revision d) (insert_all kvs (capture_data d))) \<longleftrightarrow>
     \<not> 2 ^ 64 dvd real_edits kvs (sd_values d)"
proof -
  have "(of_nat (real_edits kvs (sd_values d)) :: u64) = 0 \<longleftrightarrow>
      2 ^ 64 dvd real_edits kvs (sd_values d)"
    by (simp add: word_of_nat_eq_0_iff)
  then show ?thesis
    using assms by (simp add: data_dirty_def insert_all_revision)
qed

theorem standalone_save_acknowledges_snapshot_witness:
  "data_dirty (acknowledge_data 0 (insert_all [(''k'', ''v'')] (capture_data (session_data_of Map.empty))))
   \<and> \<not> data_dirty (acknowledge_data 0 (insert_all [] (capture_data (session_data_of Map.empty))))"
  using standalone_save_acknowledges_snapshot[of "session_data_of Map.empty" "[(''k'', ''v'')]"]
    standalone_save_acknowledges_snapshot[of "session_data_of Map.empty" "[]"]
  by simp

end
