(* ===== verification/Session_Lifecycle.thy ===== *)
theory Session_Lifecycle
  imports Shared_Heap
begin

text \<open>
  The same-lineage write and deletion guards (\<open>src/session_lifecycle.rs\<close>): one mutex per
  clone family, whose state remembers whether a creation or rotation was dropped without a
  confirmed outcome. A guard is held across backend I/O; ending it unlocks the mutex.
\<close>

subsection \<open>Guards\<close>

text \<open>
  \<open>wg_state\<close> and \<open>dg_state\<close> are the mutex whose owned guard the handle carries,
  \<open>wg_destroyed\<close> is the shared destruction flag, and a receipt is the address of the
  \<open>Arc<()>\<close> that \<open>Arc::ptr_eq\<close> compares.
\<close>

record write_guard =
  wg_state :: nat
  wg_destroyed :: nat
  wg_receipt :: "nat option"
  wg_uncertain_on_drop :: bool
  wg_settled :: bool

record delete_guard =
  dg_state :: nat
  dg_id :: string

subsection \<open>Acquiring\<close>

text \<open>
  \<open>Lifecycle::write\<close> and \<open>Lifecycle::delete\<close> when \<open>lock_arc().await\<close> is polled: pending
  while another guard is alive. On an error the owned lock is released at once.
\<close>

definition lifecycle_write ::
  "nat \<Rightarrow> nat \<Rightarrow> nat option \<Rightarrow> bool \<Rightarrow> heap \<Rightarrow> (error + write_guard) poll \<times> heap" where
  "lifecycle_write l destroyed receipt uncertain_on_drop h =
     (if ws_locked (h_life h l) then (Pending, h)
      else if ws_uncertain (h_life h l) then (Ready (Inl UncertainWrite), h)
      else if h_destroy h destroyed then (Ready (Inl SessionConflict), h)
      else (Ready (Inr \<lparr>wg_state = l, wg_destroyed = destroyed, wg_receipt = receipt,
                        wg_uncertain_on_drop = uncertain_on_drop, wg_settled = False\<rparr>),
            upd_life l (\<lambda>w. w\<lparr>ws_locked := True\<rparr>) h))"

definition lifecycle_delete :: "nat \<Rightarrow> heap \<Rightarrow> (error + delete_guard) poll \<times> heap" where
  "lifecycle_delete l h =
     (if ws_locked (h_life h l) then (Pending, h)
      else if ws_uncertain (h_life h l) then (Ready (Inl UncertainWrite), h)
      else (Ready (Inr \<lparr>dg_state = l, dg_id = ''''\<rparr>), upd_life l (\<lambda>w. w\<lparr>ws_locked := True\<rparr>) h))"

subsection \<open>Operations of a write guard\<close>

definition guard_is_destroyed :: "write_guard \<Rightarrow> heap \<Rightarrow> bool" where
  "guard_is_destroyed g h = h_destroy h (wg_destroyed g)"

definition guard_matches :: "write_guard \<Rightarrow> nat \<Rightarrow> bool" where
  "guard_matches g receipt = (case wg_receipt g of None \<Rightarrow> False | Some own \<Rightarrow> own = receipt)"

definition guard_finish :: "write_guard \<Rightarrow> heap \<Rightarrow> (error + unit) \<times> write_guard" where
  "guard_finish g h =
     (let g1 = g\<lparr>wg_settled := True\<rparr> in
      (if guard_is_destroyed g1 h then Inl SessionConflict else Inr (), g1))"

definition guard_require_cleanup :: "write_guard \<Rightarrow> write_guard" where
  "guard_require_cleanup g = g\<lparr>wg_settled := False\<rparr>"

definition guard_confirm_removed :: "write_guard \<Rightarrow> write_guard" where
  "guard_confirm_removed g = g\<lparr>wg_settled := True\<rparr>"

text \<open>
  \<open>Drop for SessionWriteGuard\<close>, followed by the drop of its field \<open>state\<close>, the owned
  mutex guard, which unlocks.
\<close>

definition write_guard_drop :: "write_guard \<Rightarrow> heap \<Rightarrow> heap" where
  "write_guard_drop g h =
     upd_life (wg_state g)
       (\<lambda>w. (if \<not> wg_settled g \<and> wg_uncertain_on_drop g then w\<lparr>ws_uncertain := True\<rparr> else w)
              \<lparr>ws_locked := False\<rparr>) h"

definition delete_guard_drop :: "delete_guard \<Rightarrow> heap \<Rightarrow> heap" where
  "delete_guard_drop g h = upd_life (dg_state g) (\<lambda>w. w\<lparr>ws_locked := False\<rparr>) h"

subsection \<open>Frame and outcome facts\<close>

lemma lifecycle_write_frame [simp]:
  "h_data (snd (lifecycle_write l d r u h)) = h_data h"
  "h_pid (snd (lifecycle_write l d r u h)) = h_pid h"
  "h_claimed (snd (lifecycle_write l d r u h)) = h_claimed h"
  "h_destroy (snd (lifecycle_write l d r u h)) = h_destroy h"
  "h_next (snd (lifecycle_write l d r u h)) = h_next h"
  by (simp_all add: lifecycle_write_def)

lemma lifecycle_delete_frame [simp]:
  "h_data (snd (lifecycle_delete l h)) = h_data h"
  "h_pid (snd (lifecycle_delete l h)) = h_pid h"
  "h_claimed (snd (lifecycle_delete l h)) = h_claimed h"
  "h_destroy (snd (lifecycle_delete l h)) = h_destroy h"
  "h_next (snd (lifecycle_delete l h)) = h_next h"
  by (simp_all add: lifecycle_delete_def)

lemma lifecycle_write_ready:
  "lifecycle_write l d r u h = (Ready (Inr g), h') \<longleftrightarrow>
     \<not> ws_locked (h_life h l) \<and> \<not> ws_uncertain (h_life h l) \<and> \<not> h_destroy h d \<and>
     g = \<lparr>wg_state = l, wg_destroyed = d, wg_receipt = r, wg_uncertain_on_drop = u, wg_settled = False\<rparr> \<and>
     h' = upd_life l (\<lambda>w. w\<lparr>ws_locked := True\<rparr>) h"
  by (auto simp: lifecycle_write_def)

lemma lifecycle_delete_ready:
  "lifecycle_delete l h = (Ready (Inr g), h') \<longleftrightarrow>
     \<not> ws_locked (h_life h l) \<and> \<not> ws_uncertain (h_life h l) \<and>
     g = \<lparr>dg_state = l, dg_id = ''''\<rparr> \<and> h' = upd_life l (\<lambda>w. w\<lparr>ws_locked := True\<rparr>) h"
  by (auto simp: lifecycle_delete_def)

lemma guard_finish_sel [simp]:
  "fst (guard_finish g h) = (if h_destroy h (wg_destroyed g) then Inl SessionConflict else Inr ())"
  "snd (guard_finish g h) = g\<lparr>wg_settled := True\<rparr>"
  by (simp_all add: guard_finish_def guard_is_destroyed_def Let_def)

lemma write_guard_drop_sel [simp]:
  "h_data (write_guard_drop g h) = h_data h"
  "h_pid (write_guard_drop g h) = h_pid h"
  "h_claimed (write_guard_drop g h) = h_claimed h"
  "h_destroy (write_guard_drop g h) = h_destroy h"
  "h_next (write_guard_drop g h) = h_next h"
  "ws_locked (h_life (write_guard_drop g h) l) = (l \<noteq> wg_state g \<and> ws_locked (h_life h l))"
  "ws_uncertain (h_life (write_guard_drop g h) l) =
     (ws_uncertain (h_life h l) \<or> l = wg_state g \<and> \<not> wg_settled g \<and> wg_uncertain_on_drop g)"
  by (auto simp: write_guard_drop_def)

lemma delete_guard_drop_sel [simp]:
  "h_data (delete_guard_drop g h) = h_data h"
  "h_pid (delete_guard_drop g h) = h_pid h"
  "h_claimed (delete_guard_drop g h) = h_claimed h"
  "h_destroy (delete_guard_drop g h) = h_destroy h"
  "h_next (delete_guard_drop g h) = h_next h"
  "ws_locked (h_life (delete_guard_drop g h) l) = (l \<noteq> dg_state g \<and> ws_locked (h_life h l))"
  "ws_uncertain (h_life (delete_guard_drop g h) l) = ws_uncertain (h_life h l)"
  by (auto simp: delete_guard_drop_def)

lemmas guard_update_defs = guard_require_cleanup_def guard_confirm_removed_def

declare lifecycle_write_def [lifecycle_defs] lifecycle_delete_def [lifecycle_defs]
  write_guard_drop_def [lifecycle_defs] delete_guard_drop_def [lifecycle_defs]
  guard_finish_def [lifecycle_defs] guard_is_destroyed_def [lifecycle_defs]
  guard_require_cleanup_def [lifecycle_defs] guard_confirm_removed_def [lifecycle_defs]
  guard_matches_def [lifecycle_defs]

end
