(* ===== verification/Session.thy ===== *)
theory Session
  imports Save_Revision Session_Lifecycle
begin

text \<open>
  The session type of \<open>src/session.rs\<close>: request-local fields, addresses of the five
  objects its clones share, and the operations on them. Random bytes, the clock and the
  primitives of other crates are arguments.
\<close>

subsection \<open>Primitives of other crates\<close>

text \<open>
  The standard Base64 engine of the \<open>base64\<close> crate (\<open>encode\<close>, \<open>decode\<close> and
  \<open>decode_slice\<close> into a buffer of the given length) and the \<open>blake3\<close> hash.
\<close>

record primitives =
  p_encode :: "byte list \<Rightarrow> string"
  p_decode :: "string \<Rightarrow> decode_error + byte list"
  p_decode_slice :: "string \<Rightarrow> nat \<Rightarrow> decode_slice_error + byte list"
  p_blake3 :: "byte list \<Rightarrow> byte list"

text \<open>
  What the crate relies on: an encoding has four characters for every three bytes begun
  and decodes to the encoded bytes, also into a buffer that is just large enough.
\<close>

definition base64_laws :: "primitives \<Rightarrow> bool" where
  "base64_laws p \<longleftrightarrow>
     (\<forall>bs. length (p_encode p bs) = 4 * ((length bs + 2) div 3)) \<and>
     (\<forall>bs. p_decode p (p_encode p bs) = Inr bs) \<and>
     (\<forall>bs n. length bs \<le> n \<longrightarrow> p_decode_slice p (p_encode p bs) n = Inr bs)"

definition SERVER_COOKIE_BYTES :: nat where
  "SERVER_COOKIE_BYTES = 64"

definition div_ceil :: "nat \<Rightarrow> nat \<Rightarrow> nat" where
  "div_ceil a b = (if a mod b = 0 then a div b else a div b + 1)"

lemma div_ceil_bounds:
  assumes "0 < b"
  shows "a \<le> div_ceil a b * b" "div_ceil a b * b < a + b"
proof -
  define q k where "q = a div b" and "k = a mod b"
  have "a = q * b + k" "k < b"
    using assms by (simp_all add: q_def k_def)
  then show "a \<le> div_ceil a b * b" "div_ceil a b * b < a + b"
    by (simp_all add: div_ceil_def q_def[symmetric] k_def[symmetric])
qed

definition SERVER_COOKIE_ENCODED_LEN :: nat where
  "SERVER_COOKIE_ENCODED_LEN = div_ceil SERVER_COOKIE_BYTES 3 * 4"

lemma cookie_lengths [simp]: "SERVER_COOKIE_BYTES = 64" "SERVER_COOKIE_ENCODED_LEN = 88"
  by (simp_all add: SERVER_COOKIE_BYTES_def SERVER_COOKIE_ENCODED_LEN_def div_ceil_def)

subsection \<open>The session\<close>

record session =
  s_id :: string
  s_expiry :: "datetime option"
  s_data :: nat
  s_cookie_value :: "string option"
  s_metadata_changed :: bool
  s_persisted_id :: nat
  s_rotation_from :: "string option"
  s_fresh :: bool
  s_creation_claimed :: nat
  s_lifecycle :: nat
  s_destroy :: nat

text \<open>\<open>Clone for Session\<close>: the addresses are copied, the outgoing cookie is not.\<close>

definition session_clone :: "session \<Rightarrow> session" where
  "session_clone s = s\<lparr>s_cookie_value := None\<rparr>"

text \<open>\<open>PartialEq for Session\<close>\<close>

definition session_eq :: "session \<Rightarrow> session \<Rightarrow> bool" where
  "session_eq s t \<longleftrightarrow> s_id t = s_id s"

subsection \<open>Cookies and identities\<close>

text \<open>\<open>rng n\<close> are the \<open>n\<close> bytes that \<open>fill_bytes\<close> writes.\<close>

definition generate_cookie :: "primitives \<Rightarrow> (nat \<Rightarrow> byte list) \<Rightarrow> nat \<Rightarrow> string" where
  "generate_cookie p rng len = p_encode p (rng len)"

definition id_from_cookie_value :: "primitives \<Rightarrow> string \<Rightarrow> decode_error + string" where
  "id_from_cookie_value p cookie =
     (if length cookie \<noteq> SERVER_COOKIE_ENCODED_LEN then Inl (InvalidLength (length cookie))
      else case p_decode_slice p cookie SERVER_COOKIE_BYTES of
        Inl (DecodeError e) \<Rightarrow> Inl e
      | Inl OutputSliceTooSmall \<Rightarrow> Inl (InvalidLength (length cookie))
      | Inr decoded \<Rightarrow>
          if length decoded \<noteq> SERVER_COOKIE_BYTES then Inl (InvalidLength (length cookie))
          else Inr (p_encode p (p_blake3 p decoded)))"

text \<open>\<open>Session::new\<close>; \<open>Inl\<close> is the panic of its \<open>unwrap\<close>.\<close>

definition session_new ::
  "primitives \<Rightarrow> (nat \<Rightarrow> byte list) \<Rightarrow> heap \<Rightarrow> (decode_error + session) \<times> heap" where
  "session_new p rng h =
     (let cookie = generate_cookie p rng SERVER_COOKIE_BYTES in
      case id_from_cookie_value p cookie of
        Inl e \<Rightarrow> (Inl e, h)
      | Inr ident \<Rightarrow>
          (let (n, h1) = alloc_family (session_data_of Map.empty) None False h in
           (Inr \<lparr>s_id = ident, s_expiry = None, s_data = n, s_cookie_value = Some cookie,
                 s_metadata_changed = False, s_persisted_id = n, s_rotation_from = None,
                 s_fresh = True, s_creation_claimed = n, s_lifecycle = n, s_destroy = n\<rparr>, h1)))"

text \<open>\<open>regenerate\<close>; \<open>Inl\<close> is the panic of its \<open>unwrap\<close>.\<close>

definition regenerate ::
  "primitives \<Rightarrow> (nat \<Rightarrow> byte list) \<Rightarrow> session \<Rightarrow> heap \<Rightarrow> decode_error + session" where
  "regenerate p rng s h =
     (let origin = h_pid h (s_persisted_id s);
          s1 = (if origin = Some (s_id s) \<or> s_rotation_from s = origin
                then s\<lparr>s_rotation_from := origin\<rparr> else s);
          cookie = generate_cookie p rng SERVER_COOKIE_BYTES in
      case id_from_cookie_value p cookie of
        Inl e \<Rightarrow> Inl e
      | Inr ident \<Rightarrow>
          Inr (s1\<lparr>s_id := ident, s_cookie_value := Some cookie, s_metadata_changed := True\<rparr>))"

definition set_cookie_value :: "string \<Rightarrow> session \<Rightarrow> session" where
  "set_cookie_value cookie s =
     (if s_cookie_value s \<noteq> Some cookie
      then s\<lparr>s_cookie_value := Some cookie, s_metadata_changed := True\<rparr> else s)"

definition into_cookie_value :: "session \<Rightarrow> string option" where
  "into_cookie_value s = s_cookie_value s"

subsection \<open>Values\<close>

definition insert_raw :: "string \<Rightarrow> string \<Rightarrow> session \<Rightarrow> heap \<Rightarrow> heap" where
  "insert_raw key value s h = upd_data (s_data s) (insert_raw_data key value) h"

text \<open>\<open>to_string\<close> is \<open>serde_json::to_string\<close> at the type of the value.\<close>

definition session_insert ::
  "('a \<Rightarrow> error + string) \<Rightarrow> string \<Rightarrow> 'a \<Rightarrow> session \<Rightarrow> heap \<Rightarrow> (error + unit) \<times> heap" where
  "session_insert to_string key value s h =
     (case to_string value of
        Inl e \<Rightarrow> (Inl e, h)
      | Inr text \<Rightarrow> (Inr (), insert_raw key text s h))"

definition get_raw :: "string \<Rightarrow> session \<Rightarrow> heap \<Rightarrow> string option" where
  "get_raw key s h = sd_values (h_data h (s_data s)) key"

text \<open>\<open>from_str\<close> is \<open>serde_json::from_str(..).ok()\<close> at the requested type.\<close>

definition session_get :: "(string \<Rightarrow> 'a option) \<Rightarrow> string \<Rightarrow> session \<Rightarrow> heap \<Rightarrow> 'a option" where
  "session_get from_str key s h =
     (case sd_values (h_data h (s_data s)) key of
        None \<Rightarrow> None
      | Some text \<Rightarrow> from_str text)"

text \<open>
  The same for a deserializer with effects: the lock of the data is released before \<open>from_str\<close>
  runs, so that it may call back into the session.
\<close>

definition session_get_with ::
  "(string \<Rightarrow> heap \<Rightarrow> 'a option \<times> heap) \<Rightarrow> string \<Rightarrow> session \<Rightarrow> heap \<Rightarrow> 'a option \<times> heap" where
  "session_get_with from_str key s h =
     (case sd_values (h_data h (s_data s)) key of
        None \<Rightarrow> (None, h)
      | Some text \<Rightarrow> from_str text h)"

lemma session_get_pure:
  "session_get_with (\<lambda>text h. (from_str text, h)) key s h = (session_get from_str key s h, h)"
  by (simp add: session_get_with_def session_get_def split: option.split)

definition session_remove :: "string \<Rightarrow> session \<Rightarrow> heap \<Rightarrow> heap" where
  "session_remove key s h = upd_data (s_data s) (remove_data key) h"

definition session_len :: "session \<Rightarrow> heap \<Rightarrow> nat" where
  "session_len s h = card (dom (sd_values (h_data h (s_data s))))"

definition session_is_empty :: "session \<Rightarrow> heap \<Rightarrow> bool" where
  "session_is_empty s h \<longleftrightarrow> dom (sd_values (h_data h (s_data s))) = {}"

subsection \<open>Expiry\<close>

text \<open>The range of \<open>OffsetDateTime\<close>: the years -9999 to 9999, in nanoseconds.\<close>

definition datetime_min :: datetime where
  "datetime_min = - 377705116800 * nanos_per_sec"

definition datetime_max :: datetime where
  "datetime_max = 253402300800 * nanos_per_sec - 1"

text \<open>Whole seconds since the epoch and the nanoseconds within the second, as \<open>i64\<close> and \<open>u32\<close>.\<close>

definition unix_timestamp :: "datetime \<Rightarrow> i64" where
  "unix_timestamp e = word_of_int (e div nanos_per_sec)"

definition nanosecond :: "datetime \<Rightarrow> nat" where
  "nanosecond e = nat (e mod nanos_per_sec)"

definition set_expiry :: "datetime \<Rightarrow> session \<Rightarrow> session" where
  "set_expiry expiry s =
     (if s_expiry s \<noteq> Some expiry
      then s\<lparr>s_expiry := Some expiry, s_metadata_changed := True\<rparr> else s)"

text \<open>\<open>now + ttl\<close> panics when the sum leaves the range: \<open>None\<close>.\<close>

definition expire_in :: "duration \<Rightarrow> datetime \<Rightarrow> session \<Rightarrow> session option" where
  "expire_in ttl now s =
     (if now + int ttl \<le> datetime_max then Some (set_expiry (now + int ttl) s) else None)"

definition is_expired :: "datetime \<Rightarrow> session \<Rightarrow> bool" where
  "is_expired now s = (case s_expiry s of Some expiry \<Rightarrow> expiry < now | None \<Rightarrow> False)"

definition session_validate :: "datetime \<Rightarrow> session \<Rightarrow> session option" where
  "session_validate now s = (if is_expired now s then None else Some s)"

definition expires_in :: "datetime \<Rightarrow> session \<Rightarrow> duration option" where
  "expires_in now s =
     (case s_expiry s of
        None \<Rightarrow> None
      | Some expiry \<Rightarrow> if expiry - now < 0 then None else Some (nat (expiry - now)))"

subsection \<open>Change tracking\<close>

definition data_changed :: "session \<Rightarrow> heap \<Rightarrow> bool" where
  "data_changed s h \<longleftrightarrow> s_metadata_changed s \<or> data_dirty (h_data h (s_data s))"

definition session_destroy :: "session \<Rightarrow> heap \<Rightarrow> heap" where
  "session_destroy s h = set_destroy (s_destroy s) True h"

definition is_destroyed :: "session \<Rightarrow> heap \<Rightarrow> bool" where
  "is_destroyed s h = h_destroy h (s_destroy s)"

definition needs_persist :: "session \<Rightarrow> heap \<Rightarrow> bool" where
  "needs_persist s h \<longleftrightarrow> data_changed s h \<or> is_destroyed s h"

definition reset_data_changed :: "session \<Rightarrow> heap \<Rightarrow> session \<times> heap" where
  "reset_data_changed s h =
     (s\<lparr>s_metadata_changed := False\<rparr>, upd_data (s_data s) reset_data h)"

definition acknowledge_revision :: "session \<Rightarrow> save_revision \<Rightarrow> heap \<Rightarrow> session \<times> heap" where
  "acknowledge_revision s token h = (s\<lparr>s_metadata_changed := False\<rparr>, acknowledge token h)"

subsection \<open>Snapshots\<close>

definition snapshot_values :: "(string \<rightharpoonup> string) \<Rightarrow> session \<Rightarrow> heap \<Rightarrow> session \<times> heap" where
  "snapshot_values vs s h =
     (let (n, h1) = alloc_family (session_data_of vs) None (is_destroyed s h) h in
      (\<lparr>s_id = s_id s, s_expiry = s_expiry s, s_data = n, s_cookie_value = None,
        s_metadata_changed = False, s_persisted_id = n, s_rotation_from = None,
        s_fresh = False, s_creation_claimed = n, s_lifecycle = n, s_destroy = n\<rparr>, h1))"

definition session_snapshot :: "session \<Rightarrow> heap \<Rightarrow> session \<times> heap" where
  "session_snapshot s h = snapshot_values (sd_values (h_data h (s_data s))) s h"

definition persistence_snapshot :: "session \<Rightarrow> heap \<Rightarrow> (session \<times> save_revision) \<times> heap" where
  "persistence_snapshot s h =
     (let (snap, h1) = snapshot_values (sd_values (h_data h (s_data s))) s h;
          (token, h2) = capture (s_data s) h1
      in ((snap, token), h2))"

text \<open>
  \<open>serialize_bounded\<close>: \<open>to_slice\<close> is \<open>postcard::to_slice\<close> on the wire fields, into a
  buffer of the given length; a failure happens before the capture.
\<close>

type_synonym wire_session = "string \<times> datetime option \<times> (string \<rightharpoonup> string)"

definition serialize_bounded ::
  "(wire_session \<Rightarrow> nat \<Rightarrow> error + byte list) \<Rightarrow> nat \<Rightarrow> session \<Rightarrow> heap \<Rightarrow>
   (error + byte list \<times> save_revision) \<times> heap" where
  "serialize_bounded to_slice buffer s h =
     (case to_slice (s_id s, s_expiry s, sd_values (h_data h (s_data s))) buffer of
        Inl e \<Rightarrow> (Inl e, h)
      | Inr payload \<Rightarrow>
          (let (token, h1) = capture (s_data s) h in (Inr (payload, token), h1)))"

subsection \<open>Persistence authority\<close>

definition persistence_origin :: "session \<Rightarrow> heap \<Rightarrow> error + string option" where
  "persistence_origin s h =
     (let origin = h_pid h (s_persisted_id s) in
      if origin = None \<and> (\<not> s_fresh s \<or> h_claimed h (s_creation_claimed s))
      then Inl SessionConflict
      else case origin of
        Some ident \<Rightarrow>
          if ident \<noteq> s_id s \<and> s_rotation_from s \<noteq> Some ident then Inl SessionConflict
          else Inr origin
      | None \<Rightarrow> Inr origin)"

definition mark_persisted :: "session \<Rightarrow> heap \<Rightarrow> heap" where
  "mark_persisted s h =
     (let origin = h_pid h (s_persisted_id s) in
      if origin = None \<or> s_rotation_from s = origin
      then set_pid (s_persisted_id s) (Some (s_id s)) h else h)"

definition mark_loaded :: "session \<Rightarrow> heap \<Rightarrow> session \<times> heap" where
  "mark_loaded s h = (s, mark_persisted s h)"

text \<open>\<open>persistence_attempt\<close>; its result record has the single field \<open>origin\<close>.\<close>

definition persistence_attempt :: "session \<Rightarrow> heap \<Rightarrow> (error + string option) \<times> heap" where
  "persistence_attempt s h =
     (if is_destroyed s h then (Inl SessionConflict, h)
      else case persistence_origin s h of
        Inl e \<Rightarrow> (Inl e, h)
      | Inr origin \<Rightarrow>
          if origin = None then
            if h_claimed h (s_creation_claimed s) then (Inl SessionConflict, h)
            else (Inr origin, set_claimed (s_creation_claimed s) True h)
          else (Inr origin, h))"

text \<open>
  \<open>begin_guarded_write\<close> when its lock is polled. A failed recheck drops the new guard.
\<close>

definition begin_guarded_write ::
  "session \<Rightarrow> string option \<Rightarrow> nat option \<Rightarrow> bool \<Rightarrow> heap \<Rightarrow> (error + write_guard) poll \<times> heap" where
  "begin_guarded_write s origin receipt can_outlive_future h =
     (let can_create = (origin \<noteq> Some (s_id s)) in
      case lifecycle_write (s_lifecycle s) (s_destroy s) receipt
             (can_create \<and> can_outlive_future) h of
        (Pending, h1) \<Rightarrow> (Pending, h1)
      | (Ready (Inl e), h1) \<Rightarrow> (Ready (Inl e), h1)
      | (Ready (Inr g), h1) \<Rightarrow>
          if origin = None then (Ready (Inr g), h1)
          else case persistence_origin s h1 of
            Inl e \<Rightarrow> (Ready (Inl e), write_guard_drop g h1)
          | Inr current \<Rightarrow>
              if current \<noteq> origin then (Ready (Inl SessionConflict), write_guard_drop g h1)
              else (Ready (Inr g), h1))"

definition begin_backend_write ::
  "session \<Rightarrow> string option \<Rightarrow> bool \<Rightarrow> heap \<Rightarrow> (error + write_guard) poll \<times> heap" where
  "begin_backend_write s origin can_outlive_future h =
     begin_guarded_write s origin None can_outlive_future h"

subsection \<open>Deletion\<close>

text \<open>\<open>persistence_origin().ok().flatten().unwrap_or_else(|| self.id.clone())\<close>\<close>

definition deletion_target :: "session \<Rightarrow> heap \<Rightarrow> string" where
  "deletion_target s h =
     (case persistence_origin s h of
        Inl _ \<Rightarrow> s_id s
      | Inr None \<Rightarrow> s_id s
      | Inr (Some origin) \<Rightarrow> origin)"

definition prepare_delete :: "session \<Rightarrow> heap \<Rightarrow> string \<times> heap" where
  "prepare_delete s h = (deletion_target s h, session_destroy s h)"

text \<open>\<open>begin_delete\<close> after the destruction mark, when its lock is polled.\<close>

definition begin_delete_locked :: "session \<Rightarrow> heap \<Rightarrow> (error + delete_guard) poll \<times> heap" where
  "begin_delete_locked s h =
     (case lifecycle_delete (s_lifecycle s) h of
        (Pending, h1) \<Rightarrow> (Pending, h1)
      | (Ready (Inl e), h1) \<Rightarrow> (Ready (Inl e), h1)
      | (Ready (Inr g), h1) \<Rightarrow> (Ready (Inr (g\<lparr>dg_id := deletion_target s h1\<rparr>)), h1))"

text \<open>\<open>begin_delete\<close>: mark, wait while other tasks run, then take the lock.\<close>

definition begin_delete ::
  "(heap \<Rightarrow> heap) \<Rightarrow> session \<Rightarrow> heap \<Rightarrow> (error + delete_guard) poll \<times> heap" where
  "begin_delete wait s h = begin_delete_locked s (wait (session_destroy s h))"

subsection \<open>Loading\<close>

text \<open>
  \<open>validate_loaded\<close>. \<open>strong_count\<close> is \<open>Arc::strong_count(&self.data)\<close> and \<open>now\<close> the clock
  reading of \<open>is_expired\<close>. Four shared objects are always replaced; the data is replaced
  by a copy when it is shared and reset in place when it is not.
\<close>

definition validate_loaded ::
  "primitives \<Rightarrow> nat \<Rightarrow> datetime \<Rightarrow> string \<Rightarrow> session \<Rightarrow> heap \<Rightarrow> (error + session option) \<times> heap" where
  "validate_loaded p strong_count now cookie s h =
     (case id_from_cookie_value p cookie of
        Inl e \<Rightarrow> (Inl (CookieFormat e), h)
      | Inr expected \<Rightarrow>
          if s_id s \<noteq> expected then (Inl IdMismatch, h)
          else if is_expired now s then (Inr None, h)
          else if is_destroyed s h then (Inl SessionConflict, h)
          else
            (let (n, h1) = alloc_family (session_data_of (sd_values (h_data h (s_data s))))
                             (Some (s_id s)) False h;
                 (d, h2) = (if strong_count > 1 then (n, h1)
                            else (s_data s, upd_data (s_data s)
                                   (\<lambda>c. c\<lparr>sd_persisted_revision := sd_revision c,
                                          sd_uncertain_save := False,
                                          sd_overlapping_saves := False\<rparr>) h1))
             in (Inr (Some (s\<lparr>s_data := d, s_cookie_value := None, s_metadata_changed := False,
                              s_persisted_id := n, s_rotation_from := None, s_fresh := False,
                              s_creation_claimed := n, s_lifecycle := n, s_destroy := n\<rparr>)), h2)))"

end
