(* ===== verification/Reference_Engine.thy ===== *)
theory Reference_Engine
  imports Session
begin

text \<open>
  A concrete instance of the arguments that stand for other crates: a padded standard
  Base64 engine (RFC 4648) and a stand-in for the hash. It shows that the laws the
  properties assume can hold together, and the witnesses are evaluated on it.
\<close>

subsection \<open>Interface of the Base64 engine\<close>

text \<open>What the session cookie format needs of the engine, and what follows for cookies.\<close>

locale base64_engine =
  fixes p :: primitives
  assumes encode_length: "length (p_encode p bs) = 4 * ((length bs + 2) div 3)"
    and decode_encode: "p_decode p (p_encode p bs) = Inr bs"
    and decode_slice_encode: "length bs \<le> n \<Longrightarrow> p_decode_slice p (p_encode p bs) n = Inr bs"
begin

lemma generated_cookie_parses:
  assumes "length (rng 64) = 64"
  shows "id_from_cookie_value p (generate_cookie p rng 64) = Inr (p_encode p (p_blake3 p (rng 64)))"
  using assms by (simp add: id_from_cookie_value_def generate_cookie_def encode_length decode_slice_encode)

end

lemma base64_laws_engine: "base64_laws p \<longleftrightarrow> base64_engine p"
  by (auto simp: base64_laws_def base64_engine_def)

subsection \<open>The alphabet\<close>

definition b64_alphabet :: string where
  "b64_alphabet = ''ABCDEFGHIJKLMNOPQRSTUVWXYZabcdefghijklmnopqrstuvwxyz0123456789+/''"

definition sym :: "nat \<Rightarrow> char" where
  "sym i = b64_alphabet ! i"

definition unsym :: "char \<Rightarrow> nat option" where
  "unsym c = (let i = length (takeWhile (\<lambda>d. d \<noteq> c) b64_alphabet) in if i < 64 then Some i else None)"

lemma sym_table: "\<forall>i \<in> set [0..<64]. unsym (sym i) = Some i \<and> sym i \<noteq> CHR ''=''"
  by code_simp

lemma sym_facts [simp]: "i < 64 \<Longrightarrow> unsym (sym i) = Some i" "i < 64 \<Longrightarrow> sym i \<noteq> CHR ''=''"
  using sym_table by auto

subsection \<open>Encoding and decoding\<close>

fun b64_encode :: "byte list \<Rightarrow> string" where
  "b64_encode [] = []"
| "b64_encode [a] = (let n = unat a * 16 in [sym (n div 64), sym (n mod 64), CHR ''='', CHR ''=''])"
| "b64_encode [a, b] = (let n = unat a * 1024 + unat b * 4 in
     [sym (n div 4096), sym (n div 64 mod 64), sym (n mod 64), CHR ''=''])"
| "b64_encode (a # b # c # bs) = (let n = unat a * 65536 + unat b * 256 + unat c in
     sym (n div 262144) # sym (n div 4096 mod 64) # sym (n div 64 mod 64) # sym (n mod 64) #
     b64_encode bs)"

definition unsyms :: "string \<Rightarrow> nat option" where
  "unsyms cs = foldl (\<lambda>acc c. case (acc, unsym c) of (Some n, Some i) \<Rightarrow> Some (n * 64 + i) | _ \<Rightarrow> None)
     (Some 0) cs"

text \<open>Only canonical text is decoded: the bits after the last byte are zero.\<close>

fun b64_decode :: "string \<Rightarrow> byte list option" where
  "b64_decode [] = Some []"
| "b64_decode (w # x # y # z # rest) =
     (if rest = [] \<and> y = CHR ''='' \<and> z = CHR ''='' then
        (case unsyms [w, x] of
           Some n \<Rightarrow> if n mod 16 = 0 then Some [of_nat (n div 16)] else None
         | None \<Rightarrow> None)
      else if rest = [] \<and> z = CHR ''='' then
        (case unsyms [w, x, y] of
           Some n \<Rightarrow> if n mod 4 = 0 then Some [of_nat (n div 1024), of_nat (n div 4 mod 256)] else None
         | None \<Rightarrow> None)
      else
        (case (unsyms [w, x, y, z], b64_decode rest) of
           (Some n, Some bs) \<Rightarrow>
             Some (of_nat (n div 65536) # of_nat (n div 256 mod 256) # of_nat (n mod 256) # bs)
         | _ \<Rightarrow> None))"
| "b64_decode _ = None"

lemma byte_lt: "unat (a :: byte) < 256"
  using unsigned_less[of a] by simp

lemma b64_encode_length: "length (b64_encode bs) = 4 * ((length bs + 2) div 3)"
proof (induction bs rule: b64_encode.induct)
  case (4 a b c bs)
  have "(length bs + 5) div 3 = Suc ((length bs + 2) div 3)" by arith
  then show ?case using "4.IH" by (simp add: Let_def add.commute)
qed (simp_all add: Let_def)

lemma unsyms2: "i < 64 \<Longrightarrow> j < 64 \<Longrightarrow> unsyms [sym i, sym j] = Some (i * 64 + j)"
  by (simp add: unsyms_def)

lemma unsyms3: "i < 64 \<Longrightarrow> j < 64 \<Longrightarrow> k < 64 \<Longrightarrow>
    unsyms [sym i, sym j, sym k] = Some ((i * 64 + j) * 64 + k)"
  by (simp add: unsyms_def)

lemma unsyms4: "i < 64 \<Longrightarrow> j < 64 \<Longrightarrow> k < 64 \<Longrightarrow> l < 64 \<Longrightarrow>
    unsyms [sym i, sym j, sym k, sym l] = Some (((i * 64 + j) * 64 + k) * 64 + l)"
  by (simp add: unsyms_def)

lemma digits64_3: "(n div 4096 * 64 + n div 64 mod 64) * 64 + n mod 64 = (n::nat)"
proof -
  have "n div 4096 = n div 64 div 64" by (simp add: div_mult2_eq[symmetric])
  then show ?thesis by (simp only: div_mult_mod_eq)
qed

lemma digits64_4:
  "((n div 262144 * 64 + n div 4096 mod 64) * 64 + n div 64 mod 64) * 64 + n mod 64 = (n::nat)"
proof -
  have "n div 262144 = n div 64 div 64 div 64" "n div 4096 = n div 64 div 64"
    by (simp_all add: div_mult2_eq[symmetric])
  then show ?thesis by (simp only: div_mult_mod_eq)
qed

lemma base256:
  "c < 256 \<Longrightarrow> (m * 256 + c) mod 256 = (c::nat)"
  "b < 256 \<Longrightarrow> c < 256 \<Longrightarrow> ((a * 256 + b) * 256 + c) div 256 mod 256 = (b::nat)"
proof -
  show low: "c < 256 \<Longrightarrow> (m * 256 + c) mod 256 = (c::nat)" for m c
    by simp
  have "c < 256 \<Longrightarrow> (m * 256 + c) div 256 = m" for m by simp
  then show "b < 256 \<Longrightarrow> c < 256 \<Longrightarrow> ((a * 256 + b) * 256 + c) div 256 mod 256 = (b::nat)"
    by (simp only: low)
qed

lemma b64_decode_encode: "b64_decode (b64_encode bs) = Some bs"
proof (induction bs rule: b64_encode.induct)
  case 1
  then show ?case by simp
next
  case (2 a)
  define n where "n = unat a * 16"
  have n: "n div 64 < 64" "n mod 64 < 64" "n mod 16 = 0" "n div 16 = unat a"
    using byte_lt[of a] by (simp_all add: n_def)
  have u: "unsyms [sym (n div 64), sym (n mod 64)] = Some n"
    by (simp only: unsyms2 n div_mult_mod_eq)
  show ?case
    by (simp add: Let_def n_def[symmetric] u n)
next
  case (3 a b)
  define n where "n = unat a * 1024 + unat b * 4"
  have n: "n div 4096 < 64" "n div 64 mod 64 < 64" "n mod 64 < 64" "n mod 4 = 0"
    "n div 1024 = unat a" "n div 4 mod 256 = unat b"
    using byte_lt[of a] byte_lt[of b] by (simp_all add: n_def)
  have u: "unsyms [sym (n div 4096), sym (n div 64 mod 64), sym (n mod 64)] = Some n"
    by (simp only: unsyms3 n digits64_3)
  show ?case
    by (simp add: Let_def n_def[symmetric] u n)
next
  case (4 a b c bs)
  define n where "n = unat a * 65536 + unat b * 256 + unat c"
  have n: "n div 262144 < 64" "n div 4096 mod 64 < 64" "n div 64 mod 64 < 64" "n mod 64 < 64"
    "n div 65536 = unat a"
    using byte_lt[of a] byte_lt[of b] byte_lt[of c] by (simp_all add: n_def)
  have n256: "n = (unat a * 256 + unat b) * 256 + unat c"
    by (simp add: n_def)
  have m: "n div 256 mod 256 = unat b" "n mod 256 = unat c"
    using byte_lt[of b] byte_lt[of c] unfolding n256 by (simp_all only: base256)
  have u: "unsyms [sym (n div 262144), sym (n div 4096 mod 64), sym (n div 64 mod 64),
      sym (n mod 64)] = Some n"
    by (simp only: unsyms4 n digits64_4)
  show ?case
    using "4.IH" by (simp add: Let_def n_def[symmetric] u n m)
qed

subsection \<open>The instance\<close>

definition reference_decode :: "string \<Rightarrow> decode_error + byte list" where
  "reference_decode s = (case b64_decode s of None \<Rightarrow> Inl InvalidPadding | Some bs \<Rightarrow> Inr bs)"

definition reference :: primitives where
  "reference =
     \<lparr>p_encode = b64_encode,
      p_decode = reference_decode,
      p_decode_slice = (\<lambda>s n. case reference_decode s of
          Inl e \<Rightarrow> Inl (DecodeError e)
        | Inr bs \<Rightarrow> if length bs \<le> n then Inr bs else Inl OutputSliceTooSmall),
      p_blake3 = take 32\<rparr>"

interpretation ref: base64_engine reference
  by unfold_locales (simp_all add: reference_def reference_decode_def b64_encode_length b64_decode_encode)

lemma reference_laws: "base64_laws reference"
  using ref.base64_engine_axioms by (simp add: base64_laws_engine)

text \<open>A source of random bytes that always draws the same byte, and its cookies.\<close>

definition constant_rng :: "byte \<Rightarrow> nat \<Rightarrow> byte list" where
  "constant_rng b n = replicate n b"

lemma constant_rng_length [simp]: "length (constant_rng b n) = n"
  by (simp add: constant_rng_def)

end
