(* ===== verification/Session_Facts.thy ===== *)
theory Session_Facts
  imports Reference_Engine
begin

text \<open>
  Properties of single sessions and of their clones: cookies and identities, values and
  change tracking, snapshots, expiry, rotation and the authority to create a record.
\<close>

declare session_clone_def [session_defs] session_destroy_def [session_defs]
  is_destroyed_def [session_defs] get_raw_def [session_defs] insert_raw_def [session_defs]
  session_remove_def [session_defs] data_changed_def [session_defs]
  snapshot_values_def [session_defs] session_snapshot_def [session_defs]
  persistence_snapshot_def [session_defs] capture_def [session_defs]
  acknowledge_def [session_defs] revision_drop_def [session_defs]
  acknowledge_revision_def [session_defs] into_cookie_value_def [session_defs]

text \<open>Every address of the session has been allocated.\<close>

definition session_allocated :: "heap \<Rightarrow> session \<Rightarrow> bool" where
  "session_allocated h s \<longleftrightarrow> s_data s < h_next h \<and> s_persisted_id s < h_next h \<and>
     s_creation_claimed s < h_next h \<and> s_lifecycle s < h_next h \<and> s_destroy s < h_next h"

text \<open>Two handles of one clone family.\<close>

definition same_family :: "session \<Rightarrow> session \<Rightarrow> bool" where
  "same_family s t \<longleftrightarrow> s_data s = s_data t \<and> s_persisted_id s = s_persisted_id t \<and>
     s_fresh s = s_fresh t \<and> s_creation_claimed s = s_creation_claimed t \<and>
     s_lifecycle s = s_lifecycle t \<and> s_destroy s = s_destroy t"

lemma same_family_clone: "same_family s (session_clone s)"
  by (simp add: same_family_def session_clone_def)

text \<open>No two objects of the two handles coincide.\<close>

definition disjoint_families :: "session \<Rightarrow> session \<Rightarrow> bool" where
  "disjoint_families s t \<longleftrightarrow> s_data s \<noteq> s_data t \<and> s_persisted_id s \<noteq> s_persisted_id t \<and>
     s_creation_claimed s \<noteq> s_creation_claimed t \<and> s_lifecycle s \<noteq> s_lifecycle t \<and>
     s_destroy s \<noteq> s_destroy t"

subsection \<open>New sessions\<close>

lemma generated_id:
  assumes "base64_laws p" "length (rng 64) = 64"
  shows "id_from_cookie_value p (generate_cookie p rng 64) = Inr (p_encode p (p_blake3 p (rng 64)))"
  using base64_engine.generated_cookie_parses[of p rng] assms by (simp add: base64_laws_engine)

text \<open>
  Creating a session never panics. The cookie it carries is the one whose parsed
  identity is the session's, the session is empty, unchanged, not destroyed and without
  expiry, it has the authority to create a record, and nothing allocated before is touched.
\<close>
theorem new_session_valid:
  assumes "base64_laws p" and "length (rng 64) = 64"
  shows "\<exists>s. fst (session_new p rng h) = Inr s \<and>
     (\<exists>cookie. into_cookie_value s = Some cookie \<and> id_from_cookie_value p cookie = Inr (s_id s)) \<and>
     session_is_empty s (snd (session_new p rng h)) \<and>
     \<not> needs_persist s (snd (session_new p rng h)) \<and> s_expiry s = None \<and>
     persistence_origin s (snd (session_new p rng h)) = Inr None \<and>
     session_allocated (snd (session_new p rng h)) s \<and>
     heap_extends h (snd (session_new p rng h))"
proof -
  show ?thesis
    using generated_id[of p rng, OF assms]
    by (simp add: session_new_def Let_def split_beta session_is_empty_def needs_persist_def
        persistence_origin_def session_allocated_def session_defs data_dirty_def)
qed

theorem new_session_valid_witness:
  "\<exists>s. fst (session_new reference (constant_rng 7) heap_empty) = Inr s \<and>
     (\<exists>cookie. into_cookie_value s = Some cookie \<and> id_from_cookie_value reference cookie = Inr (s_id s)) \<and>
     session_is_empty s (snd (session_new reference (constant_rng 7) heap_empty)) \<and>
     \<not> needs_persist s (snd (session_new reference (constant_rng 7) heap_empty)) \<and>
     s_expiry s = None \<and>
     persistence_origin s (snd (session_new reference (constant_rng 7) heap_empty)) = Inr None \<and>
     session_allocated (snd (session_new reference (constant_rng 7) heap_empty)) s \<and>
     heap_extends heap_empty (snd (session_new reference (constant_rng 7) heap_empty))"
  by (rule new_session_valid[OF reference_laws, of "constant_rng 7"]) simp

subsection \<open>Values are shared by clones\<close>

text \<open>
  A write through one handle is what every clone reads, other keys keep their
  values, and unchanged data becomes changed exactly when the write or the removal
  changed the map: storing the value already there, or removing an absent key, does not.
\<close>
theorem writes_are_shared_and_tracked:
  assumes "same_family s t"
  shows "get_raw k' t (insert_raw k v s h) = (if k' = k then Some v else get_raw k' t h) \<and>
     get_raw k' t (session_remove k s h) = (if k' = k then None else get_raw k' t h) \<and>
     (\<not> data_changed t h \<longrightarrow>
       (data_changed t (insert_raw k v s h) \<longleftrightarrow> get_raw k t h \<noteq> Some v) \<and>
       (data_changed t (session_remove k s h) \<longleftrightarrow> get_raw k t h \<noteq> None))"
  using assms by (auto simp: same_family_def session_defs data_dirty_def)

definition example_session :: session where
  "example_session =
     \<lparr>s_id = ''a'', s_expiry = None, s_data = 0, s_cookie_value = None, s_metadata_changed = False,
      s_persisted_id = 0, s_rotation_from = None, s_fresh = False, s_creation_claimed = 0,
      s_lifecycle = 0, s_destroy = 0\<rparr>"

definition example_heap :: heap where
  "example_heap = snd (alloc_family (session_data_of [''k'' \<mapsto> ''v'']) (Some ''a'') False heap_empty)"

lemma example_heap_sel [simp]:
  "h_data example_heap 0 = session_data_of [''k'' \<mapsto> ''v'']" "h_pid example_heap 0 = Some ''a''"
  "\<not> h_claimed example_heap 0" "\<not> h_destroy example_heap 0"
  "h_life example_heap 0 = write_state_default" "h_next example_heap = 1"
  by (simp_all add: example_heap_def heap_empty_def)

theorem writes_are_shared_and_tracked_witness:
  "get_raw ''k'' (session_clone example_session) (insert_raw ''k'' ''w'' example_session example_heap)
     = Some ''w'' \<and>
   data_changed (session_clone example_session)
     (insert_raw ''k'' ''w'' example_session example_heap)"
  using writes_are_shared_and_tracked[OF same_family_clone[of example_session],
      of "''k''" "''k''" "''w''" example_heap]
  by (simp add: session_defs example_session_def data_dirty_def)

subsection \<open>Snapshots\<close>

text \<open>
  The snapshot captured before I/O has the identity, expiry and values of the session
  at that moment and is isolated from it: an edit through any handle of the session's
  family leaves the snapshot's values alone, and an edit of the snapshot leaves the
  family's values alone.
\<close>
theorem persistence_snapshot_isolated:
  assumes "session_allocated h s" and "same_family s t"
    and "persistence_snapshot s h = ((snap, token), h')"
  shows "s_id snap = s_id s \<and> s_expiry snap = s_expiry s \<and> disjoint_families snap t \<and>
     (\<forall>k. get_raw k snap h' = get_raw k s h) \<and>
     (\<forall>k k' v. get_raw k' snap (insert_raw k v t h') = get_raw k' snap h') \<and>
     (\<forall>k k'. get_raw k' snap (session_remove k t h') = get_raw k' snap h') \<and>
     (\<forall>k k' v. get_raw k' t (insert_raw k v snap h') = get_raw k' t h) \<and>
     sr_data token = s_data s \<and> sr_revision token = sd_revision (h_data h (s_data s))"
  using assms
  by (auto simp: session_defs session_allocated_def same_family_def disjoint_families_def
      split_beta Let_def)

theorem persistence_snapshot_isolated_witness:
  "\<exists>snap token h'. persistence_snapshot example_session example_heap = ((snap, token), h') \<and>
     get_raw ''k'' snap (insert_raw ''k'' ''w'' example_session h') = Some ''v''"
proof -
  obtain snap token h' where ps:
    "persistence_snapshot example_session example_heap = ((snap, token), h')"
    by (metis surj_pair)
  have "session_allocated example_heap example_session"
    by (simp add: session_allocated_def example_session_def)
  from persistence_snapshot_isolated[OF this _ ps, of example_session] ps
  show ?thesis
    by (auto simp: same_family_def get_raw_def example_session_def)
qed

subsection \<open>Expiry\<close>

text \<open>
  The remaining lifetime is undefined exactly for sessions that are permanent or
  expired, and otherwise it is the distance to the expiry; a session given a lifetime
  either keeps it exactly, and is live, or the date leaves the representable range
  and the call panics.
\<close>
theorem expiry_and_lifetime_agree:
  "(expires_in now s = None \<longleftrightarrow> s_expiry s = None \<or> is_expired now s) \<and>
   (\<forall>d. expires_in now s = Some d \<longrightarrow> s_expiry s = Some (now + int d)) \<and>
   (case expire_in ttl now s of
      Some t \<Rightarrow> expires_in now t = Some ttl \<and> session_validate now t = Some t \<and>
        (\<forall>e. s_expiry t = Some e \<longrightarrow> e \<le> datetime_max)
    | None \<Rightarrow> now + int ttl > datetime_max)"
  by (auto simp: expires_in_def is_expired_def expire_in_def set_expiry_def session_validate_def
      split: option.splits if_splits)

theorem expiry_and_lifetime_agree_witness:
  "expires_in 5 (example_session\<lparr>s_expiry := Some 20\<rparr>) \<noteq> None \<and>
   (\<exists>t. expire_in 3 5 example_session = Some t \<and> expires_in 5 t = Some 3 \<and>
      session_validate 5 t = Some t)"
proof -
  have room: "5 + int 3 \<le> datetime_max"
    by (simp add: datetime_max_def)
  then obtain t where "expire_in 3 5 example_session = Some t"
    by (simp add: expire_in_def)
  then show ?thesis
    using expiry_and_lifetime_agree[of 5 example_session 3]
      expiry_and_lifetime_agree[of 5 "example_session\<lparr>s_expiry := Some 20\<rparr>" 3]
    by (simp add: is_expired_def)
qed

subsection \<open>Everything the crate does to the heap\<close>

text \<open>
  One step of any task on the shared objects: each heap-changing operation of a session,
  of a save token and of a guard, on any handle. The flags of a family only ever rise.
\<close>

inductive crate_step :: "heap \<Rightarrow> heap \<Rightarrow> bool" where
  cs_insert: "crate_step h (insert_raw k v s h)"
| cs_remove: "crate_step h (session_remove k s h)"
| cs_destroy: "crate_step h (session_destroy s h)"
| cs_reset: "crate_step h (snd (reset_data_changed s h))"
| cs_capture: "crate_step h (snd (capture r h))"
| cs_acknowledge: "crate_step h (acknowledge token h)"
| cs_revision_drop: "crate_step h (revision_drop token h)"
| cs_attempt: "crate_step h (snd (persistence_attempt s h))"
| cs_mark: "crate_step h (mark_persisted s h)"
| cs_write: "crate_step h (snd (begin_guarded_write s origin receipt outlive h))"
| cs_write_drop: "crate_step h (write_guard_drop g h)"
| cs_delete: "crate_step h (snd (begin_delete_locked s h))"
| cs_delete_drop: "crate_step h (delete_guard_drop dg h)"
| cs_new: "crate_step h (snd (session_new p rng h))"
| cs_snapshot: "crate_step h (snd (snapshot_values vs s h))"
| cs_loaded: "crate_step h (snd (validate_loaded p n now c s h))"
| cs_receipt: "crate_step h (h\<lparr>h_next := Suc (h_next h)\<rparr>)"

definition flags_rise :: "heap \<Rightarrow> heap \<Rightarrow> bool" where
  "flags_rise h h' \<longleftrightarrow> h_next h \<le> h_next h' \<and>
     (\<forall>r < h_next h. (h_claimed h r \<longrightarrow> h_claimed h' r) \<and> (h_destroy h r \<longrightarrow> h_destroy h' r) \<and>
        (ws_uncertain (h_life h r) \<longrightarrow> ws_uncertain (h_life h' r)) \<and>
        (h_pid h r \<noteq> None \<longrightarrow> h_pid h' r \<noteq> None))"

lemma flags_rise_refl [simp, intro]: "flags_rise h h"
  by (simp add: flags_rise_def)

lemma flags_rise_trans: "flags_rise h h' \<Longrightarrow> flags_rise h' h'' \<Longrightarrow> flags_rise h h''"
  by (auto simp: flags_rise_def)

lemma flags_rise_prim [simp, intro]:
  "flags_rise h (upd_data r f h)"
  "flags_rise h (set_pid r (Some i) h)"
  "flags_rise h (set_claimed r True h)"
  "flags_rise h (set_destroy r True h)"
  "flags_rise h (snd (alloc_family d q b h))"
  "flags_rise h (write_guard_drop g h)"
  "flags_rise h (delete_guard_drop dg h)"
  "flags_rise h (snd (lifecycle_write l l2 rc u h))"
  "flags_rise h (snd (lifecycle_delete l h))"
  "flags_rise h (h\<lparr>h_next := Suc (h_next h)\<rparr>)"
  by (auto simp: flags_rise_def lifecycle_write_def lifecycle_delete_def)

lemma flags_rise_alloc_upd [simp, intro]:
  "flags_rise h (upd_data r f (snd (alloc_family d q b h)))"
  by (rule flags_rise_trans[OF flags_rise_prim(5) flags_rise_prim(1)])

lemma begin_guarded_write_flags: "flags_rise h (snd (begin_guarded_write s origin receipt outlive h))"
proof -
  let ?w = "lifecycle_write (s_lifecycle s) (s_destroy s) receipt (origin \<noteq> Some (s_id s) \<and> outlive) h"
  have w: "flags_rise h (snd ?w)" by simp
  moreover have "flags_rise h (write_guard_drop g (snd ?w))" for g
    by (rule flags_rise_trans[OF w]) simp
  ultimately show ?thesis
    by (cases ?w) (auto simp: begin_guarded_write_def Let_def split: poll.splits sum.splits)
qed

lemma begin_delete_locked_heap:
  "snd (begin_delete_locked s h) = snd (lifecycle_delete (s_lifecycle s) h)"
  by (auto simp: begin_delete_locked_def split: prod.splits poll.splits sum.splits)

lemma validate_loaded_flags: "flags_rise h (snd (validate_loaded p n now c s h))"
  by (auto simp: validate_loaded_def Let_def split_beta split: sum.splits)

lemma crate_step_flags: "crate_step h h' \<Longrightarrow> flags_rise h h'"
proof (induction rule: crate_step.induct)
  case cs_write
  show ?case by (rule begin_guarded_write_flags)
next
  case cs_loaded
  show ?case by (rule validate_loaded_flags)
qed (auto simp: session_defs reset_data_changed_def persistence_attempt_def mark_persisted_def
    begin_delete_locked_heap session_new_def Let_def split_beta split: sum.splits)

lemma crate_steps_flags: "crate_step\<^sup>*\<^sup>* h h' \<Longrightarrow> flags_rise h h'"
  by (induction rule: rtranclp_induct) (auto intro: flags_rise_trans crate_step_flags)

text \<open>
  C25: a fresh family has one creation authority. After one handle's attempt was granted
  the right to insert a new record, no attempt of any handle of the family is granted it
  again, whatever the crate does in between, also when the first save failed or was
  cancelled.
\<close>
theorem creation_authority_granted_once:
  assumes "persistence_attempt s h = (Inr None, h1)" and "crate_step\<^sup>*\<^sup>* h1 h2"
    and "same_family s t" and "session_allocated h s"
  shows "fst (persistence_attempt t h2) \<noteq> Inr None"
proof -
  have "h_claimed h1 (s_creation_claimed s)" "h_next h1 = h_next h"
    using assms(1) by (auto simp: persistence_attempt_def split: sum.splits if_splits)
  then have "h_claimed h2 (s_creation_claimed t)"
    using crate_steps_flags[OF assms(2)] assms(3,4)
    by (auto simp: flags_rise_def same_family_def session_allocated_def)
  then show ?thesis
    by (auto simp: persistence_attempt_def split: sum.splits)
qed

definition fresh_session :: session where
  "fresh_session = example_session\<lparr>s_fresh := True\<rparr>"

definition fresh_heap :: heap where
  "fresh_heap = snd (alloc_family (session_data_of Map.empty) None False heap_empty)"

lemma fresh_heap_sel [simp]:
  "h_data fresh_heap 0 = session_data_of Map.empty" "h_pid fresh_heap 0 = None"
  "\<not> h_claimed fresh_heap 0" "\<not> h_destroy fresh_heap 0"
  "h_life fresh_heap 0 = write_state_default" "h_next fresh_heap = 1"
  by (simp_all add: fresh_heap_def heap_empty_def)

theorem creation_authority_granted_once_witness:
  "fst (persistence_attempt (session_clone fresh_session)
     (snd (persistence_attempt fresh_session fresh_heap))) \<noteq> Inr None"
proof (rule creation_authority_granted_once)
  show "persistence_attempt fresh_session fresh_heap =
      (Inr None, snd (persistence_attempt fresh_session fresh_heap))"
    by (simp add: persistence_attempt_def persistence_origin_def fresh_session_def
        example_session_def is_destroyed_def)
  show "session_allocated fresh_heap fresh_session"
    by (simp add: session_allocated_def fresh_session_def example_session_def)
qed (simp_all add: same_family_clone)

end
