(* ===== verification/Session_Identity.thy ===== *)
theory Session_Identity
  imports Session_Facts
begin

text \<open>
  Rotation and loading: which record a session may replace, which one a deletion
  targets, and what a validated record is.
\<close>

declare persistence_origin_def [session_defs] deletion_target_def [session_defs]
  mark_persisted_def [session_defs]

subsection \<open>Rotation keeps its persisted source\<close>

text \<open>Regenerate several times before a save.\<close>

fun regenerate_all ::
  "primitives \<Rightarrow> (nat \<Rightarrow> byte list) list \<Rightarrow> session \<Rightarrow> heap \<Rightarrow> decode_error + session" where
  "regenerate_all p [] s h = Inr s"
| "regenerate_all p (rng # rngs) s h =
     (case regenerate p rng s h of Inl e \<Rightarrow> Inl e | Inr s' \<Rightarrow> regenerate_all p rngs s' h)"

lemma regenerate_eq:
  assumes "base64_laws p" "length (rng 64) = 64"
  shows "regenerate p rng s h =
     Inr (s\<lparr>s_rotation_from :=
             (if h_pid h (s_persisted_id s) = Some (s_id s) then h_pid h (s_persisted_id s)
              else s_rotation_from s),
           s_id := p_encode p (p_blake3 p (rng 64)), s_cookie_value := Some (p_encode p (rng 64)),
           s_metadata_changed := True\<rparr>)"
  using generated_id[of p rng, OF assms]
  by (auto simp: regenerate_def Let_def generate_cookie_def)

lemma regenerate_all_source:
  assumes "base64_laws p" "\<forall>rng \<in> set rngs. length (rng 64) = 64"
    and "h_pid h (s_persisted_id s) = Some src" "s_id s = src \<or> s_rotation_from s = Some src"
  shows "\<exists>t. regenerate_all p rngs s h = Inr t \<and> same_family s t \<and>
     (s_id t = src \<or> s_rotation_from t = Some src)"
  using assms(2-)
proof (induction rngs arbitrary: s)
  case Nil
  then show ?case by (simp add: same_family_def)
next
  case (Cons rng rngs)
  let ?s = "s\<lparr>s_rotation_from := (if h_pid h (s_persisted_id s) = Some (s_id s)
        then h_pid h (s_persisted_id s) else s_rotation_from s),
      s_id := p_encode p (p_blake3 p (rng 64)), s_cookie_value := Some (p_encode p (rng 64)),
      s_metadata_changed := True\<rparr>"
  have step: "regenerate p rng s h = Inr ?s"
    using Cons.prems(1) by (intro regenerate_eq[OF assms(1)]) simp
  have "\<exists>t. regenerate_all p rngs ?s h = Inr t \<and> same_family ?s t \<and>
      (s_id t = src \<or> s_rotation_from t = Some src)"
    using Cons.prems by (intro Cons.IH) auto
  then show ?case by (simp add: step same_family_def)
qed

text \<open>
  C24: regenerating a persisted session any number of times before it is saved never
  panics and never loses the record to revoke: the resulting session is still allowed to
  save, its save replaces the original persisted identity, and deleting it instead
  deletes the original record.
\<close>
theorem rotation_keeps_persisted_source:
  assumes "base64_laws p" and "\<forall>rng \<in> set rngs. length (rng 64) = 64"
    and "h_pid h (s_persisted_id s) = Some (s_id s)" and "\<not> is_destroyed s h"
  shows "\<exists>t. regenerate_all p rngs s h = Inr t \<and>
     persistence_attempt t h = (Inr (Some (s_id s)), h) \<and>
     fst (prepare_delete t h) = s_id s \<and>
     h_pid (mark_persisted t h) (s_persisted_id s) = Some (s_id t)"
proof -
  obtain t where t: "regenerate_all p rngs s h = Inr t" "same_family s t"
      "s_id t = s_id s \<or> s_rotation_from t = Some (s_id s)"
    using regenerate_all_source[OF assms(1-3)] by auto
  then show ?thesis
    using assms(3,4)
    by (auto simp: session_defs same_family_def persistence_attempt_def prepare_delete_def)
qed

theorem rotation_keeps_persisted_source_witness:
  "\<exists>t. regenerate_all reference [constant_rng 1, constant_rng 2] example_session example_heap = Inr t \<and>
     persistence_attempt t example_heap = (Inr (Some ''a''), example_heap) \<and>
     fst (prepare_delete t example_heap) = ''a'' \<and>
     h_pid (mark_persisted t example_heap) 0 = Some (s_id t)"
  using rotation_keeps_persisted_source[OF reference_laws, of "[constant_rng 1, constant_rng 2]"
      example_heap example_session]
  by (simp add: example_session_def is_destroyed_def)

subsection \<open>Concurrent rotations\<close>

text \<open>
  C39: when two handles of a family rotate the same persisted record, only one rotation
  can be confirmed. After the first is marked as persisted, the other's pending write is
  refused when it takes the write guard, a new attempt is refused, completing it late
  does not roll the identity back, and deleting it targets only its own identity.
\<close>
theorem concurrent_rotations_exclusive:
  assumes "persistence_attempt s h = (Inr (Some src), h1)" and "s_id s \<noteq> src"
    and "persistence_attempt t h1 = (Inr (Some src), h2)" and "s_id t \<noteq> src"
    and "same_family s t" and "s_id t \<noteq> s_id s"
  shows "let h3 = mark_persisted s h2 in
     h_pid h3 (s_persisted_id t) = Some (s_id s) \<and>
     (\<forall>receipt outlive g. fst (begin_guarded_write t (Some src) receipt outlive h3) \<noteq> Ready (Inr g)) \<and>
     persistence_attempt t h3 = (Inl SessionConflict, h3) \<and>
     mark_persisted t h3 = h3 \<and>
     deletion_target t h3 = s_id t"
proof -
  have h: "h1 = h" "h2 = h" "h_pid h (s_persisted_id s) = Some src" "\<not> h_destroy h (s_destroy s)"
      "s_rotation_from s = Some src" "s_rotation_from t = Some src"
    using assms
    by (auto simp: persistence_attempt_def session_defs same_family_def Let_def
        split: if_splits sum.splits option.splits)
  show ?thesis
    using h assms(2,4,5,6)
    by (auto simp: session_defs same_family_def Let_def persistence_attempt_def
        begin_guarded_write_def lifecycle_write_def split: if_splits)
qed

theorem concurrent_rotations_exclusive_witness:
  "let s = example_session\<lparr>s_id := ''b'', s_rotation_from := Some ''a''\<rparr>;
       t = example_session\<lparr>s_id := ''c'', s_rotation_from := Some ''a''\<rparr>;
       h3 = mark_persisted s example_heap in
     h_pid h3 (s_persisted_id t) = Some ''b'' \<and>
     persistence_attempt t h3 = (Inl SessionConflict, h3)"
proof -
  let ?s = "example_session\<lparr>s_id := ''b'', s_rotation_from := Some ''a''\<rparr>"
  let ?t = "example_session\<lparr>s_id := ''c'', s_rotation_from := Some ''a''\<rparr>"
  have att: "persistence_attempt ?s example_heap = (Inr (Some ''a''), example_heap)"
    "persistence_attempt ?t example_heap = (Inr (Some ''a''), example_heap)"
    by (simp_all add: persistence_attempt_def session_defs example_session_def)
  show ?thesis
    using concurrent_rotations_exclusive[OF att(1) _ att(2)]
    by (simp add: same_family_def example_session_def Let_def)
qed

subsection \<open>Loading a record\<close>

lemma id_from_cookie_value_Inr:
  assumes "id_from_cookie_value p cookie = Inr ident"
  shows "length cookie = 88 \<and> (\<exists>bs. p_decode_slice p cookie 64 = Inr bs \<and> length bs = 64 \<and>
     ident = p_encode p (p_blake3 p bs))"
  using assms
  by (auto simp: id_from_cookie_value_def split: if_splits sum.splits decode_slice_error.splits)

text \<open>A successful load, with the new session and heap written out.\<close>

lemma validate_loaded_Some:
  "validate_loaded p n now cookie s h = (Inr (Some t), h') \<longleftrightarrow>
     id_from_cookie_value p cookie = Inr (s_id s) \<and> \<not> is_expired now s \<and> \<not> is_destroyed s h \<and>
     t = s\<lparr>s_data := (if n > 1 then h_next h else s_data s), s_cookie_value := None,
           s_metadata_changed := False, s_persisted_id := h_next h, s_rotation_from := None,
           s_fresh := False, s_creation_claimed := h_next h, s_lifecycle := h_next h,
           s_destroy := h_next h\<rparr> \<and>
     h' = (let h1 = snd (alloc_family (session_data_of (sd_values (h_data h (s_data s))))
                     (Some (s_id s)) False h)
           in if n > 1 then h1
              else upd_data (s_data s) (\<lambda>c. c\<lparr>sd_persisted_revision := sd_revision c,
                     sd_uncertain_save := False, sd_overlapping_saves := False\<rparr>) h1)"
  by (auto simp: validate_loaded_def Let_def split_beta split: sum.splits)

text \<open>
  C27: a record is handed out only if its identity is the one its cookie hashes to, the
  cookie has the fixed length and decodes to 64 bytes, and the record is live and not
  destroyed. The loaded session keeps identity, expiry and values, is unchanged, may
  update (and only update) its own record, and, when its data was shared, has no object
  in common with any handle that existed before.
\<close>
theorem validate_loaded_sound:
  assumes "validate_loaded p n now cookie s h = (Inr (Some t), h')"
    and "session_allocated h s" and "session_allocated h u" and "n > 1 \<or> s_data s \<noteq> s_data u"
  shows "id_from_cookie_value p cookie = Inr (s_id t) \<and> length cookie = 88 \<and>
     s_id t = s_id s \<and> s_expiry t = s_expiry s \<and> \<not> is_expired now t \<and>
     (\<forall>k. get_raw k t h' = get_raw k s h) \<and>
     \<not> needs_persist t h' \<and> s_cookie_value t = None \<and>
     persistence_origin t h' = Inr (Some (s_id t)) \<and>
     disjoint_families t u \<and> (\<forall>k. get_raw k u h' = get_raw k u h)"
  using assms id_from_cookie_value_Inr[of p cookie "s_id s"]
  by (auto simp: validate_loaded_Some Let_def session_allocated_def disjoint_families_def
      session_defs needs_persist_def data_dirty_def is_expired_def)

definition reference_cookie :: string where
  "reference_cookie = p_encode reference (replicate 64 7)"

definition reference_id :: string where
  "reference_id = p_encode reference (p_blake3 reference (replicate 64 7))"

lemma reference_cookie_id [simp]:
  "id_from_cookie_value reference reference_cookie = Inr reference_id"
  using ref.generated_cookie_parses[of "constant_rng 7"]
  by (simp add: reference_cookie_def reference_id_def constant_rng_def generate_cookie_def)

definition stored_session :: session where
  "stored_session = example_session\<lparr>s_id := reference_id\<rparr>"

lemma stored_session_sel [simp]:
  "s_id stored_session = reference_id" "s_expiry stored_session = None" "s_data stored_session = 0"
  "s_destroy stored_session = 0" "s_persisted_id stored_session = 0"
  "s_creation_claimed stored_session = 0" "s_lifecycle stored_session = 0"
  "s_rotation_from stored_session = None" "\<not> s_fresh stored_session"
  "s_cookie_value stored_session = None"
  by (simp_all add: stored_session_def example_session_def)

theorem validate_loaded_sound_witness:
  "\<exists>t h'. validate_loaded reference 2 0 reference_cookie stored_session example_heap = (Inr (Some t), h') \<and>
     get_raw ''k'' t h' = Some ''v'' \<and> disjoint_families t stored_session"
proof -
  obtain t h' where load:
    "validate_loaded reference 2 0 reference_cookie stored_session example_heap = (Inr (Some t), h')"
    by (simp add: validate_loaded_def is_expired_def is_destroyed_def split_beta Let_def)
  have alloc: "session_allocated example_heap stored_session"
    by (simp add: session_allocated_def)
  show ?thesis
    using validate_loaded_sound[OF load alloc alloc] load by (auto simp: get_raw_def)
qed

end
