(* ===== verification/Session_Save.thy ===== *)
theory Session_Save
  imports Session_Identity
begin

text \<open>
  The save protocol for external stores (\<open>src/session_save.rs\<close>): an immutable snapshot,
  the save that owns its session and its token, and the ways in which a save ends.
  A method that consumes the save or a guard also runs the drops of what it still owns:
  first the guard, which is the later parameter, then the save's token.
\<close>

subsection \<open>Snapshots and saves\<close>

record snapshot =
  sn_id :: string
  sn_expiry :: "datetime option"
  sn_data :: "string \<rightharpoonup> string"

definition snapshot_get_raw :: "string \<Rightarrow> snapshot \<Rightarrow> string option" where
  "snapshot_get_raw key sn = sn_data sn key"

text \<open>\<open>write_receipt\<close> is the address of the save's \<open>Arc<()>\<close>.\<close>

record session_save =
  sv_source :: session
  sv_snapshot :: snapshot
  sv_revision :: save_revision
  sv_origin :: "string option"
  sv_write_receipt :: nat
  sv_write_started :: bool

definition alloc_receipt :: "heap \<Rightarrow> nat \<times> heap" where
  "alloc_receipt h = (h_next h, h\<lparr>h_next := Suc (h_next h)\<rparr>)"

definition immutable_snapshot :: "session \<Rightarrow> heap \<Rightarrow> (snapshot \<times> save_revision) \<times> heap" where
  "immutable_snapshot s h =
     (let (token, h1) = capture (s_data s) h
      in ((\<lparr>sn_id = s_id s, sn_expiry = s_expiry s, sn_data = sd_values (h_data h (s_data s))\<rparr>,
           token), h1))"

text \<open>\<open>SessionSave::new\<close>, which is \<open>Session::prepare_save\<close>.\<close>

definition prepare_save :: "session \<Rightarrow> heap \<Rightarrow> (error + session_save) \<times> heap" where
  "prepare_save source h =
     (case persistence_attempt source h of
        (Inl e, h1) \<Rightarrow> (Inl e, h1)
      | (Inr origin, h1) \<Rightarrow>
          (let ((sn, token), h2) = immutable_snapshot source h1;
               (receipt, h3) = alloc_receipt h2
           in (Inr \<lparr>sv_source = source, sv_snapshot = sn, sv_revision = token, sv_origin = origin,
                    sv_write_receipt = receipt, sv_write_started = False\<rparr>, h3)))"

subsection \<open>The guarded protocol\<close>

text \<open>\<open>begin_write\<close>: the attempt is recorded first; \<open>wait\<close> runs while the lock is awaited.\<close>

definition begin_write ::
  "(heap \<Rightarrow> heap) \<Rightarrow> session_save \<Rightarrow> heap \<Rightarrow> (error + write_guard) poll \<times> session_save \<times> heap" where
  "begin_write wait save h =
     (if sv_write_started save then (Ready (Inl SessionConflict), save, h)
      else
        (let save1 = save\<lparr>sv_write_started := True\<rparr>;
             (r, h1) = begin_guarded_write (sv_source save) (sv_origin save)
                         (Some (sv_write_receipt save)) True (wait h)
         in (r, save1, h1)))"

definition complete_with_guard ::
  "session_save \<Rightarrow> write_guard \<Rightarrow> heap \<Rightarrow> (error + string option) \<times> heap" where
  "complete_with_guard save g h =
     (if \<not> guard_matches g (sv_write_receipt save)
      then (Inl SessionConflict, revision_drop (sv_revision save) (write_guard_drop g h))
      else case guard_finish g h of
        (Inl e, g1) \<Rightarrow>
          (Inl e, revision_drop (sv_revision save) (write_guard_drop (guard_require_cleanup g1) h))
      | (Inr _, g1) \<Rightarrow>
          (let h1 = mark_persisted (sv_source save) h;
               (source, h2) = acknowledge_revision (sv_source save) (sv_revision save) h1
           in (Inr (into_cookie_value source), write_guard_drop g1 h2)))"

definition save_confirm_removed ::
  "session_save \<Rightarrow> write_guard \<Rightarrow> heap \<Rightarrow> (error + unit) \<times> heap" where
  "save_confirm_removed save g h =
     (if \<not> guard_matches g (sv_write_receipt save)
      then (Inl SessionConflict, revision_drop (sv_revision save) (write_guard_drop g h))
      else (Inr (), revision_drop (sv_revision save) (write_guard_drop (guard_confirm_removed g) h)))"

definition validate_current :: "session_save \<Rightarrow> heap \<Rightarrow> error + unit" where
  "validate_current save h =
     (if is_destroyed (sv_source save) h then Inl SessionConflict
      else if sv_origin save \<noteq> None then
        (case persistence_origin (sv_source save) h of
           Inl e \<Rightarrow> Inl e
         | Inr current \<Rightarrow> if current \<noteq> sv_origin save then Inl SessionConflict else Inr ())
      else Inr ())"

text \<open>The unguarded \<open>complete\<close>, for stores with coordination of their own.\<close>

definition complete :: "session_save \<Rightarrow> heap \<Rightarrow> string option \<times> heap" where
  "complete save h =
     (if is_destroyed (sv_source save) h \<or> sv_write_started save
      then (None, revision_drop (sv_revision save) h)
      else
        (let h1 = mark_persisted (sv_source save) h;
             (source, h2) = acknowledge_revision (sv_source save) (sv_revision save) h1
         in (into_cookie_value source, h2)))"

text \<open>Dropping a save that was neither completed nor confirmed as removed.\<close>

definition save_drop :: "session_save \<Rightarrow> heap \<Rightarrow> heap" where
  "save_drop save h = revision_drop (sv_revision save) h"

subsection \<open>How a guarded save ends\<close>

lemma mark_persisted_sel [simp]:
  "h_data (mark_persisted s h) = h_data h"
  "h_claimed (mark_persisted s h) = h_claimed h"
  "h_destroy (mark_persisted s h) = h_destroy h"
  "h_life (mark_persisted s h) = h_life h"
  "h_next (mark_persisted s h) = h_next h"
  by (simp_all add: mark_persisted_def Let_def)

lemma mark_persisted_idem: "mark_persisted s (mark_persisted s h) = mark_persisted s h"
  by (auto simp: mark_persisted_def Let_def set_pid_def)

lemma token_end_active:
  "sd_active_saves (h_data (revision_drop token h) (sr_data token)) =
     sd_active_saves (h_data h (sr_data token)) - 1"
  "sd_active_saves (h_data (acknowledge token h) (sr_data token)) =
     sd_active_saves (h_data h (sr_data token)) - 1"
  by (simp_all add: revision_drop_def acknowledge_def)

text \<open>
  C8: every outcome of completing a guarded save. Whatever it returns, the lineage lock
  is released and the save's slot in its cohort is freed. It succeeds exactly for its
  own guard on a family that is not destroyed; then the cookie of the session is issued
  and no uncertainty is recorded. Otherwise the answer is a conflict, the persisted
  identity is not moved, the data stays dirty, and a creation or rotation leaves the
  lineage uncertain, so that a coordinated deletion is refused instead of confirmed.
\<close>
theorem complete_with_guard_outcomes:
  assumes "complete_with_guard save g h = (r, h')" and "\<not> wg_settled g"
  shows "\<not> ws_locked (h_life h' (wg_state g)) \<and>
     sd_active_saves (h_data h' (sr_data (sv_revision save))) =
       sd_active_saves (h_data h (sr_data (sv_revision save))) - 1 \<and>
     (if wg_receipt g = Some (sv_write_receipt save) \<and> \<not> h_destroy h (wg_destroyed g)
      then r = Inr (s_cookie_value (sv_source save)) \<and>
        h_pid h' = h_pid (mark_persisted (sv_source save) h) \<and>
        ws_uncertain (h_life h' (wg_state g)) = ws_uncertain (h_life h (wg_state g))
      else r = Inl SessionConflict \<and> h_pid h' = h_pid h \<and>
        data_dirty (h_data h' (sr_data (sv_revision save))) \<and>
        (wg_uncertain_on_drop g \<longrightarrow> ws_uncertain (h_life h' (wg_state g)) \<and>
           (\<forall>s. s_lifecycle s = wg_state g \<longrightarrow>
              fst (begin_delete_locked s h') = Ready (Inl UncertainWrite))))"
proof -
  have drops: "h_life (revision_drop t k) = h_life k" "h_pid (revision_drop t k) = h_pid k"
    "h_life (acknowledge t k) = h_life k" "h_pid (acknowledge t k) = h_pid k" for t k
    by (simp_all add: revision_drop_def acknowledge_def)
  show ?thesis
    using assms
    by (auto simp: complete_with_guard_def guard_matches_def acknowledge_revision_def drops
        token_end_active into_cookie_value_def guard_finish_def guard_is_destroyed_def Let_def
        guard_require_cleanup_def begin_delete_locked_def lifecycle_delete_def
        revision_drop_def acknowledge_def data_dirty_def split: option.splits if_splits)
qed

definition example_save :: session_save where
  "example_save =
     \<lparr>sv_source = example_session, sv_snapshot = \<lparr>sn_id = ''a'', sn_expiry = None, sn_data = Map.empty\<rparr>,
      sv_revision = \<lparr>sr_data = 0, sr_revision = 0\<rparr>, sv_origin = None, sv_write_receipt = 3,
      sv_write_started = True\<rparr>"

definition example_guard :: write_guard where
  "example_guard = \<lparr>wg_state = 0, wg_destroyed = 0, wg_receipt = Some 3, wg_uncertain_on_drop = True,
     wg_settled = False\<rparr>"

theorem complete_with_guard_outcomes_witness:
  "fst (complete_with_guard example_save example_guard example_heap) = Inr None \<and>
   fst (complete_with_guard example_save example_guard (session_destroy example_session example_heap))
     = Inl SessionConflict"
proof -
  obtain r h' where ok: "complete_with_guard example_save example_guard example_heap = (r, h')"
    by fastforce
  obtain r2 h2 where dead: "complete_with_guard example_save example_guard
      (session_destroy example_session example_heap) = (r2, h2)"
    by fastforce
  show ?thesis
    using complete_with_guard_outcomes[OF ok] complete_with_guard_outcomes[OF dead] ok dead
    by (simp add: example_save_def example_guard_def session_destroy_def example_session_def)
qed

subsection \<open>One guard, one save\<close>

lemma prepare_save_receipt:
  "prepare_save s h = (Inr a, h1) \<Longrightarrow>
     sv_write_receipt a = h_next h \<and> h_next h1 = Suc (h_next h) \<and> \<not> sv_write_started a \<and>
     sv_source a = s"
  by (auto simp: prepare_save_def persistence_attempt_def immutable_snapshot_def capture_def
      alloc_receipt_def Let_def split_beta split: sum.splits if_splits prod.splits)

lemma begin_write_guard:
  assumes "begin_write wait save h = (Ready (Inr g), save1, h1)"
  shows "\<not> sv_write_started save \<and> save1 = save\<lparr>sv_write_started := True\<rparr> \<and>
     wg_receipt g = Some (sv_write_receipt save) \<and> wg_state g = s_lifecycle (sv_source save) \<and>
     wg_destroyed g = s_destroy (sv_source save) \<and> \<not> wg_settled g"
  using assms
  by (auto simp: begin_write_def begin_guarded_write_def lifecycle_write_def Let_def
      split: if_splits sum.splits prod.splits)

text \<open>
  A write guard belongs to the one save that obtained it, and a save obtains at most
  one. With the guard of another save, prepared before or after it, a save is neither
  completed nor confirmed as removed; a second attempt with the same save is refused,
  and the unguarded completion refuses a save that has begun the guarded protocol.
\<close>
theorem guard_belongs_to_one_save:
  assumes "prepare_save s h = (Inr a, h1)" and "h_next h1 \<le> h_next h2"
    and "prepare_save t h2 = (Inr b, h3)"
    and "begin_write wait a k = (Ready (Inr ga), a1, k1)"
    and "begin_write wait' b l = (Ready (Inr gb), b1, l1)"
  shows "fst (complete_with_guard a1 gb m) = Inl SessionConflict \<and>
     fst (complete_with_guard b1 ga m) = Inl SessionConflict \<and>
     fst (save_confirm_removed a1 gb m) = Inl SessionConflict \<and>
     fst (save_confirm_removed b1 ga m) = Inl SessionConflict \<and>
     fst (begin_write wait a1 m) = Ready (Inl SessionConflict) \<and>
     fst (complete a1 m) = None"
  using assms(2) prepare_save_receipt[OF assms(1)] prepare_save_receipt[OF assms(3)]
    begin_write_guard[OF assms(4)] begin_write_guard[OF assms(5)]
  by (simp add: complete_with_guard_def save_confirm_removed_def guard_matches_def begin_write_def
      complete_def)

theorem guard_belongs_to_one_save_witness:
  "\<exists>a b h1 h3 ga gb a1 b1 k1 l1.
     prepare_save example_session example_heap = (Inr a, h1) \<and>
     prepare_save example_session h1 = (Inr b, h3) \<and>
     begin_write id a h3 = (Ready (Inr ga), a1, k1) \<and> begin_write id b h3 = (Ready (Inr gb), b1, l1) \<and>
     fst (complete_with_guard a1 gb l1) = Inl SessionConflict"
proof -
  have att: "persistence_attempt example_session k = (Inr (Some ''a''), k)"
    if "h_pid k 0 = Some ''a''" "\<not> h_destroy k 0" for k
    using that by (simp add: persistence_attempt_def session_defs example_session_def)
  obtain a h1 where a: "prepare_save example_session example_heap = (Inr a, h1)"
    by (simp add: prepare_save_def att split_beta Let_def)
  then have h1: "h_pid h1 0 = Some ''a''" "\<not> h_destroy h1 0" "h_life h1 0 = write_state_default"
      "sv_origin a = Some ''a''"
    by (auto simp: prepare_save_def att split_beta Let_def immutable_snapshot_def capture_def
        alloc_receipt_def)
  obtain b h3 where b: "prepare_save example_session h1 = (Inr b, h3)"
    by (simp add: prepare_save_def att h1 split_beta Let_def)
  then have h3: "h_pid h3 0 = Some ''a''" "\<not> h_destroy h3 0" "h_life h3 0 = write_state_default"
      "sv_origin b = Some ''a''"
    using h1 by (auto simp: prepare_save_def att split_beta Let_def immutable_snapshot_def
        capture_def alloc_receipt_def)
  have start: "\<exists>g k1. begin_write id c h3 = (Ready (Inr g), c\<lparr>sv_write_started := True\<rparr>, k1)"
    if "sv_source c = example_session" "\<not> sv_write_started c" "sv_origin c = Some ''a''" for c
    using that h3
    by (auto simp: begin_write_def begin_guarded_write_def lifecycle_write_def
        persistence_origin_def example_session_def Let_def)
  obtain ga k1 where ga: "begin_write id a h3 = (Ready (Inr ga), a\<lparr>sv_write_started := True\<rparr>, k1)"
    using start[of a] prepare_save_receipt[OF a] h1 by auto
  obtain gb l1 where gb: "begin_write id b h3 = (Ready (Inr gb), b\<lparr>sv_write_started := True\<rparr>, l1)"
    using start[of b] prepare_save_receipt[OF b] h3 by auto
  have "fst (complete_with_guard (a\<lparr>sv_write_started := True\<rparr>) gb l1) = Inl SessionConflict"
    using guard_belongs_to_one_save[OF a _ b ga gb] by simp
  with a b ga gb show ?thesis by blast
qed

subsection \<open>Destruction is final\<close>

lemma destroyed_ever_after:
  assumes "crate_step\<^sup>*\<^sup>* (session_destroy s h) h2" and "same_family s t"
    and "session_allocated h s"
  shows "h_destroy h2 (s_destroy t) \<and> s_destroy t = s_destroy s"
  using crate_steps_flags[OF assms(1)] assms(2,3)
  by (auto simp: flags_rise_def same_family_def session_allocated_def session_defs)

lemma destroyed_handle:
  assumes "h_destroy h (s_destroy t)"
  shows "persistence_attempt t h = (Inl SessionConflict, h)"
    and "fst (begin_guarded_write t origin receipt outlive h) \<noteq> Ready (Inr g)"
    and "prepare_save t h = (Inl SessionConflict, h)"
  using assms
  by (auto simp: persistence_attempt_def is_destroyed_def begin_guarded_write_def
      prepare_save_def lifecycle_write_def Let_def split: if_splits)

lemma destroyed_save:
  assumes "h_destroy h (s_destroy (sv_source save))"
  shows "validate_current save h = Inl SessionConflict"
    and "complete save h = (None, revision_drop (sv_revision save) h)"
  using assms by (auto simp: validate_current_def complete_def is_destroyed_def)

lemma destroyed_begin:
  "h_destroy (wait h) (s_destroy (sv_source save)) \<Longrightarrow> fst (begin_write wait save h) \<noteq> Ready (Inr g)"
  using destroyed_handle(2)[of "wait h" "sv_source save"]
  by (auto simp: begin_write_def split_beta)

lemma destroyed_completion:
  assumes "h_destroy h (wg_destroyed g)"
  shows "fst (complete_with_guard save g h) = Inl SessionConflict \<and>
     h_pid (snd (complete_with_guard save g h)) = h_pid h \<and>
     data_dirty (h_data (snd (complete_with_guard save g h)) (sr_data (sv_revision save)))"
  using assms
  by (auto simp: complete_with_guard_def guard_finish_def guard_is_destroyed_def Let_def
      revision_drop_def data_dirty_def split: if_splits)

text \<open>
  C26: destruction is final for the family. Once a handle asked for it, then whatever the
  crate does, no handle is given the authority to persist or the guard of a write, and a
  guard obtained earlier no longer confirms. Of the public save protocol no save can be
  prepared, begun or validated, and none prepared earlier can be completed, with a guard or
  without one: no cookie is issued, the persisted identity stays and the captured data
  stays dirty. (The acknowledgement of captured data alone asks for no authority: the
  cookie stores, which keep no record, acknowledge sessions of a destroyed family too.)
\<close>
theorem destruction_is_final:
  assumes "crate_step\<^sup>*\<^sup>* (session_destroy s h) h2" and "same_family s t"
    and "session_allocated h s"
  shows "persistence_attempt t h2 = (Inl SessionConflict, h2) \<and>
     (\<forall>origin receipt outlive g. fst (begin_guarded_write t origin receipt outlive h2) \<noteq> Ready (Inr g)) \<and>
     (\<forall>g. wg_destroyed g = s_destroy s \<longrightarrow> fst (guard_finish g h2) = Inl SessionConflict) \<and>
     prepare_save t h2 = (Inl SessionConflict, h2) \<and>
     (\<forall>save. sv_source save = t \<longrightarrow>
        validate_current save h2 = Inl SessionConflict \<and>
        (\<forall>wait g. crate_step\<^sup>*\<^sup>* h2 (wait h2) \<longrightarrow> fst (begin_write wait save h2) \<noteq> Ready (Inr g)) \<and>
        complete save h2 = (None, revision_drop (sv_revision save) h2)) \<and>
     (\<forall>save g. wg_destroyed g = s_destroy s \<longrightarrow>
        fst (complete_with_guard save g h2) = Inl SessionConflict \<and>
        h_pid (snd (complete_with_guard save g h2)) = h_pid h2 \<and>
        data_dirty (h_data (snd (complete_with_guard save g h2)) (sr_data (sv_revision save))))"
proof -
  note dead = destroyed_ever_after[OF assms]
  have "fst (begin_write wait save h2) \<noteq> Ready (Inr g)"
    if "crate_step\<^sup>*\<^sup>* h2 (wait h2)" "sv_source save = t" for wait save g
    using destroyed_ever_after[OF rtranclp_trans[OF assms(1) that(1)] assms(2,3)] destroyed_begin that(2)
    by blast
  note begun = this
  show ?thesis
    using dead destroyed_handle[of h2 t] destroyed_save[of h2] destroyed_completion[of h2] begun
    by (auto simp: guard_finish_def guard_is_destroyed_def)
qed

theorem destruction_is_final_witness:
  "persistence_attempt (session_clone example_session) (session_destroy example_session example_heap)
     = (Inl SessionConflict, session_destroy example_session example_heap) \<and>
   fst (complete_with_guard example_save example_guard (session_destroy example_session example_heap))
     = Inl SessionConflict \<and>
   fst (complete example_save (session_destroy example_session example_heap)) = None"
proof -
  have alloc: "session_allocated example_heap example_session"
    by (simp add: session_allocated_def example_session_def)
  have guard: "wg_destroyed example_guard = s_destroy example_session"
    by (simp add: example_guard_def example_session_def)
  have source: "sv_source example_save = example_session" by (simp add: example_save_def)
  have self: "same_family example_session example_session" by (simp add: same_family_def)
  show ?thesis
    using destruction_is_final[OF rtranclp.rtrancl_refl same_family_clone alloc] guard source
      destruction_is_final[OF rtranclp.rtrancl_refl self alloc]
    by auto
qed

end
