(* ===== verification/Lineage_Protocol.thy ===== *)
theory Lineage_Protocol
  imports Session_Save
begin

text \<open>
  Coordination of the saves and deletions of one clone family, for every interleaving of
  their suspension points. Any number of tasks hold handles of the family; a task may be
  cancelled while its backend operation is in flight, and then the operation may still
  land later. The backend is described by the contract that \<open>SessionSave::origin\<close>
  documents for its conditional writes. The result: after a coordinated deletion has
  reported success, the family never adds a record to the backend again.
\<close>

subsection \<open>The contract of a backend\<close>

text \<open>
  \<open>commit origin target r b\<close> is the write of record \<open>r\<close>: an insertion into an absent
  target without origin, an update of an existing record when the origin is the target,
  and an atomic replacement otherwise; \<open>None\<close> is a conflict. \<open>erase\<close> deletes a record. A
  store whose rotation is not atomic keeps the smaller contract \<open>backend_writes\<close>.
\<close>

locale backend_writes =
  fixes commit :: "string option \<Rightarrow> string \<Rightarrow> 'r \<Rightarrow> 'b \<Rightarrow> 'b option"
    and erase :: "string \<Rightarrow> 'b \<Rightarrow> 'b"
    and ids :: "'b \<Rightarrow> string set"
    and wf :: "'b \<Rightarrow> bool"
  assumes commit_update:
      "commit (Some t) t r b = Some b' \<Longrightarrow> t \<in> ids b \<and> ids b' = ids b"
    and erase_ids: "ids (erase t b) = ids b - {t}"
    and wf_commit: "wf b \<Longrightarrow> commit origin t r b = Some b' \<Longrightarrow> wf b'"
    and wf_erase: "wf b \<Longrightarrow> wf (erase t b)"

locale conditional_backend = backend_writes +
  assumes commit_insert:
      "commit None t r b = Some b' \<Longrightarrow> t \<notin> ids b \<and> ids b' = insert t (ids b)"
    and commit_rotate:
      "src \<noteq> t \<Longrightarrow> commit (Some src) t r b = Some b' \<Longrightarrow>
       src \<in> ids b \<and> t \<notin> ids b \<and> ids b' = insert t (ids b - {src})"

text \<open>
  The abstract specification of a write on a plain map of records, as the documentation of
  \<open>SessionSave::origin\<close> states it. It satisfies the contract, and the stores refine it.
\<close>

definition conditional_write ::
  "string option \<Rightarrow> string \<Rightarrow> 'r \<Rightarrow> (string \<rightharpoonup> 'r) \<Rightarrow> (string \<rightharpoonup> 'r) option" where
  "conditional_write origin target r m =
     (case origin of
        None \<Rightarrow> if m target = None then Some (m(target \<mapsto> r)) else None
      | Some src \<Rightarrow>
          if m src = None then None
          else if src = target then Some (m(target \<mapsto> r))
          else if m target = None then Some (m(src := None, target \<mapsto> r)) else None)"

interpretation spec: conditional_backend
  conditional_write "\<lambda>t m. m(t := None)" dom "\<lambda>_. True"
  by unfold_locales (auto simp: conditional_write_def split: if_splits)

lemma conditional_backendI:
  assumes refines: "\<And>origin t e r r'. write origin t e r = Some r' \<Longrightarrow>
      \<exists>row. conditional_write origin t row (m r) = Some (m r')"
    and erased: "\<And>t r. m (erase t r) = (m r)(t := None)"
  shows "conditional_backend write erase (\<lambda>r. dom (m r)) (\<lambda>_. True)"
proof
  show "t \<in> dom (m r) \<and> dom (m r') = dom (m r)" if "write (Some t) t e r = Some r'" for t e r r'
    using refines[OF that] by (elim exE) (rule spec.commit_update)
  show "dom (m (erase t r)) = dom (m r) - {t}" for t r
    by (auto simp: erased)
  show "t \<notin> dom (m r) \<and> dom (m r') = insert t (dom (m r))" if "write None t e r = Some r'" for t e r r'
    using refines[OF that] by (elim exE) (rule spec.commit_insert)
  show "src \<in> dom (m r) \<and> t \<notin> dom (m r) \<and> dom (m r') = insert t (dom (m r) - {src})"
    if "src \<noteq> t" "write (Some src) t e r = Some r'" for src t e r r'
    using refines[OF that(2)] by (elim exE) (rule spec.commit_rotate[OF that(1)])
qed simp_all

subsection \<open>Tasks\<close>

datatype phase =
    Gone
  | Holding session
  | Prepared session "string option"
  | Writing session "string option" write_guard
  | Written session "string option" write_guard
  | Confirmed session write_guard
  | Removed session write_guard
  | InFlight session "string option"
  | Leaving session
  | Deleting session delete_guard

record 'b lineage =
  ln_heap :: heap
  ln_store :: 'b
  ln_tasks :: "nat \<Rightarrow> phase"
  ln_revoked :: bool

text \<open>One task moves: its next phase, with the heap and the store it leaves behind.\<close>

definition moved :: "nat \<Rightarrow> phase \<Rightarrow> heap \<Rightarrow> 'b \<Rightarrow> 'b lineage \<Rightarrow> 'b lineage" where
  "moved i ph h b w = w\<lparr>ln_heap := h, ln_store := b, ln_tasks := (ln_tasks w)(i := ph)\<rparr>"

text \<open>
  Steps of the shared objects that leave every lifecycle lock alone: edits, captures,
  acknowledgements, destruction marks, identity markers and allocations.
\<close>

definition local_change :: "heap \<Rightarrow> heap \<Rightarrow> bool" where
  "local_change h h' \<longleftrightarrow> flags_rise h h' \<and> (\<forall>r < h_next h. h_life h' r = h_life h r)"

subsection \<open>Steps\<close>

text \<open>
  \<open>outlives\<close> is \<open>can_outlive_future\<close> of the store: whether a backend operation can land
  after its future was dropped. A write uses the origin of its attempt or the current one, read
  again under the lock. \<open>l_settle\<close> is the end of a write that has only removed records, and \<open>l_erased\<close> is any removal: the first half of such a write, cleanup, expiry on
  the server and the deletions of other requests.
\<close>

inductive lineage_step ::
  "(string option \<Rightarrow> string \<Rightarrow> 'r \<Rightarrow> 'b \<Rightarrow> 'b option) \<Rightarrow> (string \<Rightarrow> 'b \<Rightarrow> 'b) \<Rightarrow> bool \<Rightarrow>
   'b lineage \<Rightarrow> 'b lineage \<Rightarrow> bool"
  for commit erase outlives where
  l_local: "local_change (ln_heap w) h' \<Longrightarrow> lineage_step commit erase outlives w (w\<lparr>ln_heap := h'\<rparr>)"
| l_clone: "ln_tasks w i = Holding s \<Longrightarrow> ln_tasks w j = Gone \<Longrightarrow>
    lineage_step commit erase outlives w (moved j (Holding (session_clone s)) (ln_heap w) (ln_store w) w)"
| l_drop: "ln_tasks w i = Holding s \<Longrightarrow>
    lineage_step commit erase outlives w (moved i Gone (ln_heap w) (ln_store w) w)"
| l_regenerate: "ln_tasks w i = Holding s \<Longrightarrow> regenerate p rng s (ln_heap w) = Inr s' \<Longrightarrow>
    lineage_step commit erase outlives w (moved i (Holding s') (ln_heap w) (ln_store w) w)"
| l_attempt: "ln_tasks w i = Holding s \<Longrightarrow> persistence_attempt s (ln_heap w) = (Inr origin, h') \<Longrightarrow>
    lineage_step commit erase outlives w (moved i (Prepared s origin) h' (ln_store w) w)"
| l_acquire: "ln_tasks w i = Prepared s origin \<Longrightarrow>
    begin_guarded_write s origin receipt outlives (ln_heap w) = (Ready (Inr g), h') \<Longrightarrow>
    lineage_step commit erase outlives w (moved i (Writing s origin g) h' (ln_store w) w)"
| l_refused: "ln_tasks w i = Prepared s origin \<Longrightarrow>
    begin_guarded_write s origin receipt outlives (ln_heap w) = (Ready (Inl e), h') \<Longrightarrow>
    lineage_step commit erase outlives w (moved i Gone h' (ln_store w) w)"
| l_commit: "ln_tasks w i = Writing s origin g \<Longrightarrow>
    source = origin \<or> persistence_origin s (ln_heap w) = Inr source \<Longrightarrow>
    commit source (s_id s) r (ln_store w) = Some b' \<Longrightarrow>
    lineage_step commit erase outlives w (moved i (Written s origin g) (ln_heap w) b' w)"
| l_reject: "ln_tasks w i = Writing s origin g \<Longrightarrow>
    lineage_step commit erase outlives w
      (moved i Gone (write_guard_drop g (ln_heap w)) (ln_store w) w)"
| l_cancel: "ln_tasks w i = Writing s origin g \<Longrightarrow> outlives \<Longrightarrow>
    lineage_step commit erase outlives w
      (moved i (InFlight s origin) (write_guard_drop g (ln_heap w)) (ln_store w) w)"
| l_late: "ln_tasks w i = InFlight s origin \<Longrightarrow> commit origin (s_id s) r (ln_store w) = Some b' \<Longrightarrow>
    lineage_step commit erase outlives w (moved i Gone (ln_heap w) b' w)"
| l_lost: "ln_tasks w i = InFlight s origin \<Longrightarrow>
    lineage_step commit erase outlives w (moved i Gone (ln_heap w) (ln_store w) w)"
| l_confirm: "ln_tasks w i = Written s origin g \<Longrightarrow> guard_finish g (ln_heap w) = (Inr (), g1) \<Longrightarrow>
    lineage_step commit erase outlives w (moved i (Confirmed s g1) (ln_heap w) (ln_store w) w)"
| l_finish: "ln_tasks w i = Confirmed s g \<Longrightarrow>
    lineage_step commit erase outlives w
      (moved i Gone (write_guard_drop g (mark_persisted s (ln_heap w))) (ln_store w) w)"
| l_compensate: "ln_tasks w i = Written s origin g \<Longrightarrow> guard_finish g (ln_heap w) = (Inl e, g1) \<Longrightarrow>
    lineage_step commit erase outlives w
      (moved i (Removed s (guard_confirm_removed (guard_require_cleanup g1))) (ln_heap w)
        (erase (s_id s) (ln_store w)) w)"
| l_removed: "ln_tasks w i = Removed s g \<Longrightarrow>
    lineage_step commit erase outlives w (moved i Gone (write_guard_drop g (ln_heap w)) (ln_store w) w)"
| l_uncompensated: "ln_tasks w i = Written s origin g \<Longrightarrow>
    lineage_step commit erase outlives w
      (moved i Gone (write_guard_drop g (ln_heap w)) (ln_store w) w)"
| l_settle: "ln_tasks w i = Writing s origin g \<Longrightarrow> guard_finish g (ln_heap w) = (res, g1) \<Longrightarrow>
    lineage_step commit erase outlives w
      (moved i Gone (write_guard_drop g1 (ln_heap w)) (ln_store w) w)"
| l_erased: "lineage_step commit erase outlives w (w\<lparr>ln_store := erase t (ln_store w)\<rparr>)"
| l_destroy: "ln_tasks w i = Holding s \<Longrightarrow>
    lineage_step commit erase outlives w
      (moved i (Leaving s) (session_destroy s (ln_heap w)) (ln_store w) w)"
| l_delete: "ln_tasks w i = Leaving s \<Longrightarrow>
    begin_delete_locked s (ln_heap w) = (Ready (Inr dg), h') \<Longrightarrow>
    lineage_step commit erase outlives w (moved i (Deleting s dg) h' (ln_store w) w)"
| l_delete_refused: "ln_tasks w i = Leaving s \<Longrightarrow>
    begin_delete_locked s (ln_heap w) = (Ready (Inl e), h') \<Longrightarrow>
    lineage_step commit erase outlives w (moved i Gone h' (ln_store w) w)"
| l_deleted: "ln_tasks w i = Deleting s dg \<Longrightarrow>
    lineage_step commit erase outlives w
      ((moved i Gone (delete_guard_drop dg (ln_heap w)) (erase (dg_id dg) (ln_store w)) w)
        \<lparr>ln_revoked := True\<rparr>)"
| l_delete_failed: "ln_tasks w i = Deleting s dg \<Longrightarrow>
    lineage_step commit erase outlives w
      (moved i Gone (delete_guard_drop dg (ln_heap w)) (ln_store w) w)"

text \<open>One handle of the family, with the lineage lock free.\<close>

definition lineage_start :: "session \<Rightarrow> heap \<Rightarrow> 'b \<Rightarrow> 'b lineage" where
  "lineage_start s h b =
     \<lparr>ln_heap = h, ln_store = b, ln_tasks = (\<lambda>i. if i = 0 then Holding s else Gone), ln_revoked = False\<rparr>"

subsection \<open>The invariant\<close>

definition holds_lock :: "phase \<Rightarrow> bool" where
  "holds_lock ph \<longleftrightarrow> (case ph of Writing _ _ _ \<Rightarrow> True | Written _ _ _ \<Rightarrow> True | Confirmed _ _ \<Rightarrow> True
     | Removed _ _ \<Rightarrow> True | Deleting _ _ \<Rightarrow> True | _ \<Rightarrow> False)"

definition write_guard_of :: "session \<Rightarrow> bool \<Rightarrow> session \<Rightarrow> string option \<Rightarrow> write_guard \<Rightarrow> bool" where
  "write_guard_of fam outlives s origin g \<longleftrightarrow>
     wg_state g = s_lifecycle fam \<and> wg_destroyed g = s_destroy fam \<and> \<not> wg_settled g \<and>
     wg_uncertain_on_drop g = (origin \<noteq> Some (s_id s) \<and> outlives)"

text \<open>What a task's phase says about the family's lifecycle state \<open>ws\<close> and its destruction flag.\<close>

fun phase_ok :: "session \<Rightarrow> bool \<Rightarrow> write_state \<Rightarrow> bool \<Rightarrow> phase \<Rightarrow> bool" where
  "phase_ok fam outlives ws dead Gone = True"
| "phase_ok fam outlives ws dead (Holding s) = same_family fam s"
| "phase_ok fam outlives ws dead (Prepared s origin) = same_family fam s"
| "phase_ok fam outlives ws dead (Writing s origin g) =
     (same_family fam s \<and> write_guard_of fam outlives s origin g \<and> ws_locked ws)"
| "phase_ok fam outlives ws dead (Written s origin g) =
     (same_family fam s \<and> write_guard_of fam outlives s origin g \<and> ws_locked ws)"
| "phase_ok fam outlives ws dead (Confirmed s g) =
     (same_family fam s \<and> wg_state g = s_lifecycle fam \<and> ws_locked ws)"
| "phase_ok fam outlives ws dead (Removed s g) =
     (same_family fam s \<and> wg_state g = s_lifecycle fam \<and> ws_locked ws)"
| "phase_ok fam outlives ws dead (InFlight s origin) =
     (same_family fam s \<and> (origin \<noteq> Some (s_id s) \<longrightarrow> ws_uncertain ws))"
| "phase_ok fam outlives ws dead (Leaving s) = (same_family fam s \<and> dead)"
| "phase_ok fam outlives ws dead (Deleting s dg) =
     (same_family fam s \<and> dead \<and> dg_state dg = s_lifecycle fam \<and> ws_locked ws \<and> \<not> ws_uncertain ws)"

definition is_writer :: "phase \<Rightarrow> bool" where
  "is_writer ph \<longleftrightarrow> (case ph of Writing _ _ _ \<Rightarrow> True | Written _ _ _ \<Rightarrow> True | Confirmed _ _ \<Rightarrow> True
     | Removed _ _ \<Rightarrow> True | _ \<Rightarrow> False)"

definition lineage_inv :: "session \<Rightarrow> bool \<Rightarrow> 'b lineage \<Rightarrow> bool" where
  "lineage_inv fam outlives w \<longleftrightarrow>
     session_allocated (ln_heap w) fam \<and>
     (\<forall>i. phase_ok fam outlives (h_life (ln_heap w) (s_lifecycle fam))
            (h_destroy (ln_heap w) (s_destroy fam)) (ln_tasks w i)) \<and>
     (\<forall>i j. holds_lock (ln_tasks w i) \<longrightarrow> holds_lock (ln_tasks w j) \<longrightarrow> i = j) \<and>
     (ln_revoked w \<longrightarrow> h_destroy (ln_heap w) (s_destroy fam) \<and>
        \<not> ws_uncertain (h_life (ln_heap w) (s_lifecycle fam)) \<and>
        (\<forall>i. \<not> is_writer (ln_tasks w i)))"

lemma phase_ok_other:
  "phase_ok fam outlives ws dead ph \<Longrightarrow> \<not> holds_lock ph \<Longrightarrow>
   (ws_uncertain ws \<longrightarrow> ws_uncertain ws') \<Longrightarrow> (dead \<longrightarrow> dead') \<Longrightarrow> phase_ok fam outlives ws' dead' ph"
  by (cases ph) (auto simp: holds_lock_def)

lemma phase_ok_dead:
  "phase_ok fam outlives ws dead ph \<Longrightarrow> (dead \<longrightarrow> dead') \<Longrightarrow> phase_ok fam outlives ws dead' ph"
  by (cases ph) auto

lemma writer_holds: "is_writer ph \<Longrightarrow> holds_lock ph"
  by (cases ph) (auto simp: is_writer_def holds_lock_def)

lemma phase_flags [simp]:
  "\<not> holds_lock Gone" "\<not> holds_lock (Holding s)" "\<not> holds_lock (Prepared s ori)"
  "holds_lock (Writing s ori g)" "holds_lock (Written s ori g)" "\<not> holds_lock (InFlight s ori)"
  "\<not> holds_lock (Leaving s)" "holds_lock (Deleting s dg)" "holds_lock (Confirmed s g)" "holds_lock (Removed s g)"
  "\<not> is_writer Gone" "\<not> is_writer (Holding s)" "\<not> is_writer (Prepared s ori)"
  "is_writer (Writing s ori g)" "is_writer (Written s ori g)" "\<not> is_writer (InFlight s ori)"
  "\<not> is_writer (Leaving s)" "\<not> is_writer (Deleting s dg)" "is_writer (Confirmed s g)" "is_writer (Removed s g)"
  by (simp_all add: holds_lock_def is_writer_def)

lemma moved_sel [simp]:
  "ln_heap (moved i ph h b w) = h" "ln_store (moved i ph h b w) = b"
  "ln_revoked (moved i ph h b w) = ln_revoked w"
  "ln_tasks (moved i ph h b w) j = (if j = i then ph else ln_tasks w j)"
  by (simp_all add: moved_def)

lemma allocated_mono: "session_allocated h fam \<Longrightarrow> h_next h \<le> h_next h' \<Longrightarrow> session_allocated h' fam"
  by (auto simp: session_allocated_def)

text \<open>A step that leaves the lifecycle state as it is.\<close>

lemma inv_same:
  assumes "lineage_inv fam outlives w"
    and "h_next (ln_heap w) \<le> h_next h'"
    and "h_life h' (s_lifecycle fam) = h_life (ln_heap w) (s_lifecycle fam)"
    and "h_destroy (ln_heap w) (s_destroy fam) \<longrightarrow> h_destroy h' (s_destroy fam)"
    and "phase_ok fam outlives (h_life (ln_heap w) (s_lifecycle fam)) (h_destroy h' (s_destroy fam)) ph"
    and "holds_lock ph \<longrightarrow> holds_lock (ln_tasks w i)" and "is_writer ph \<longrightarrow> is_writer (ln_tasks w i)"
  shows "lineage_inv fam outlives (moved i ph h' b w)"
  using assms allocated_mono[of "ln_heap w" fam h'] phase_ok_dead
  by (simp add: lineage_inv_def) blast

text \<open>A step after which no other task holds the lock.\<close>

lemma inv_quiet:
  assumes "lineage_inv fam outlives w" and "\<forall>j. j \<noteq> i \<longrightarrow> \<not> holds_lock (ln_tasks w j)"
    and "h_next (ln_heap w) \<le> h_next h'"
    and "ws_uncertain (h_life (ln_heap w) (s_lifecycle fam)) \<longrightarrow>
         ws_uncertain (h_life h' (s_lifecycle fam))"
    and "h_destroy (ln_heap w) (s_destroy fam) \<longrightarrow> h_destroy h' (s_destroy fam)"
    and "phase_ok fam outlives (h_life h' (s_lifecycle fam)) (h_destroy h' (s_destroy fam)) ph"
    and "ln_revoked w \<longrightarrow> \<not> ws_uncertain (h_life h' (s_lifecycle fam)) \<and> \<not> is_writer ph"
  shows "lineage_inv fam outlives (moved i ph h' b w)"
  using assms allocated_mono[of "ln_heap w" fam h'] phase_ok_other writer_holds
  by (simp add: lineage_inv_def) blast

lemma holder_unique:
  "lineage_inv fam outlives w \<Longrightarrow> holds_lock (ln_tasks w i) \<Longrightarrow>
   \<forall>j. j \<noteq> i \<longrightarrow> \<not> holds_lock (ln_tasks w j)"
  by (auto simp: lineage_inv_def)

lemma unlocked_no_holder:
  assumes "lineage_inv fam outlives w" "\<not> ws_locked (h_life (ln_heap w) (s_lifecycle fam))"
  shows "\<not> holds_lock (ln_tasks w j)"
proof -
  have "phase_ok fam outlives (h_life (ln_heap w) (s_lifecycle fam))
      (h_destroy (ln_heap w) (s_destroy fam)) (ln_tasks w j)"
    using assms(1) by (simp add: lineage_inv_def)
  then show ?thesis using assms(2) by (cases "ln_tasks w j") auto
qed

lemma phase_of:
  "lineage_inv fam outlives w \<Longrightarrow> ln_tasks w i = ph \<Longrightarrow>
   phase_ok fam outlives (h_life (ln_heap w) (s_lifecycle fam))
     (h_destroy (ln_heap w) (s_destroy fam)) ph"
  by (auto simp: lineage_inv_def)

lemma begin_guarded_write_Inr:
  "begin_guarded_write s origin receipt outlives h = (Ready (Inr g), h') \<Longrightarrow>
     \<not> ws_locked (h_life h (s_lifecycle s)) \<and> \<not> ws_uncertain (h_life h (s_lifecycle s)) \<and>
     \<not> h_destroy h (s_destroy s) \<and>
     g = \<lparr>wg_state = s_lifecycle s, wg_destroyed = s_destroy s, wg_receipt = receipt,
          wg_uncertain_on_drop = (origin \<noteq> Some (s_id s) \<and> outlives), wg_settled = False\<rparr> \<and>
     h' = upd_life (s_lifecycle s) (\<lambda>w. w\<lparr>ws_locked := True\<rparr>) h"
  by (auto simp: begin_guarded_write_def lifecycle_write_def Let_def split: if_splits sum.splits)

lemma begin_guarded_write_Inl:
  "begin_guarded_write s origin receipt outlives h = (Ready (Inl e), h') \<Longrightarrow>
     h' = h \<or> \<not> ws_locked (h_life h (s_lifecycle s)) \<and> \<not> h_destroy h (s_destroy s) \<and>
       (\<exists>g. wg_state g = s_lifecycle s \<and>
         h' = write_guard_drop g (upd_life (s_lifecycle s) (\<lambda>w. w\<lparr>ws_locked := True\<rparr>) h))"
  by (auto simp: begin_guarded_write_def lifecycle_write_def Let_def split: if_splits sum.splits)
     (metis write_guard.select_convs(1))+

lemma begin_delete_locked_Inr:
  "begin_delete_locked s h = (Ready (Inr dg), h') \<Longrightarrow>
     \<not> ws_locked (h_life h (s_lifecycle s)) \<and> \<not> ws_uncertain (h_life h (s_lifecycle s)) \<and>
     dg_state dg = s_lifecycle s \<and> dg_id dg = deletion_target s h' \<and>
     h' = upd_life (s_lifecycle s) (\<lambda>w. w\<lparr>ws_locked := True\<rparr>) h"
  by (auto simp: begin_delete_locked_def lifecycle_delete_def split: if_splits)

lemma begin_delete_locked_Inl:
  "begin_delete_locked s h = (Ready (Inl e), h') \<Longrightarrow> h' = h"
  by (auto simp: begin_delete_locked_def lifecycle_delete_def split: if_splits)

subsection \<open>Every step keeps the invariant\<close>

lemma same_family_refs:
  "same_family fam s \<Longrightarrow> s_lifecycle s = s_lifecycle fam \<and> s_destroy s = s_destroy fam \<and>
   s_persisted_id s = s_persisted_id fam \<and> s_creation_claimed s = s_creation_claimed fam"
  by (simp add: same_family_def)

lemma same_family_trans: "same_family a b \<Longrightarrow> same_family b c \<Longrightarrow> same_family a c"
  by (simp add: same_family_def)

lemma same_family_regenerate: "regenerate p rng s h = Inr s' \<Longrightarrow> same_family s s'"
  by (auto simp: regenerate_def Let_def same_family_def split: sum.splits if_splits)

lemma inv_release_write:
  assumes inv: "lineage_inv fam outlives w"
    and "is_writer (ln_tasks w i)"
    and "wg_state g' = s_lifecycle fam" "\<not> holds_lock ph"
    and "phase_ok fam outlives (h_life (write_guard_drop g' (ln_heap w)) (s_lifecycle fam))
           (h_destroy (ln_heap w) (s_destroy fam)) ph"
  shows "lineage_inv fam outlives (moved i ph (write_guard_drop g' (ln_heap w)) b w)"
proof -
  have held: "holds_lock (ln_tasks w i)" "is_writer (ln_tasks w i)" using assms(2) writer_holds by auto
  have none: "\<forall>j. j \<noteq> i \<longrightarrow> \<not> holds_lock (ln_tasks w j)"
    by (rule holder_unique[OF inv held(1)])
  have "\<not> ln_revoked w" using inv held(2) by (auto simp: lineage_inv_def)
  with assms(5) show ?thesis
    by (intro inv_quiet[OF inv none]) simp_all
qed

lemma inv_revoke:
  "lineage_inv fam outlives w \<Longrightarrow> h_destroy (ln_heap w) (s_destroy fam) \<Longrightarrow>
   \<not> ws_uncertain (h_life (ln_heap w) (s_lifecycle fam)) \<Longrightarrow> \<forall>j. \<not> is_writer (ln_tasks w j) \<Longrightarrow>
   lineage_inv fam outlives (w\<lparr>ln_revoked := True\<rparr>)"
  by (simp add: lineage_inv_def)

lemma inv_step:
  assumes "lineage_step commit erase outlives w w'" and inv: "lineage_inv fam outlives w"
  shows "lineage_inv fam outlives w'"
  using assms(1)
proof (cases rule: lineage_step.cases)
  case (l_local h')
  have "phase_ok fam outlives (h_life (ln_heap w) (s_lifecycle fam)) (h_destroy h' (s_destroy fam)) (ln_tasks w 0)"
    using inv l_local by (auto simp: lineage_inv_def local_change_def flags_rise_def
        session_allocated_def intro: phase_ok_dead)
  then have "lineage_inv fam outlives (moved 0 (ln_tasks w 0) h' (ln_store w) w)"
    using inv l_local by (intro inv_same) (auto simp: local_change_def flags_rise_def
        lineage_inv_def session_allocated_def)
  moreover have "moved 0 (ln_tasks w 0) h' (ln_store w) w = w'"
    using l_local by (simp add: moved_def)
  ultimately show ?thesis by simp
next
  case (l_clone i s j)
  have "same_family fam (session_clone s)"
    using phase_of[OF inv l_clone(2)] by (simp add: same_family_def session_clone_def)
  with l_clone(1) show ?thesis by (auto intro!: inv_same[OF inv])
next
  case (l_drop i s)
  then show ?thesis by (auto intro!: inv_same[OF inv])
next
  case (l_regenerate i s p rng s')
  have "same_family fam s'"
    using phase_of[OF inv l_regenerate(2)] same_family_regenerate[OF l_regenerate(3)]
    by (simp add: same_family_def)
  with l_regenerate(1) show ?thesis by (auto intro!: inv_same[OF inv])
next
  case (l_attempt i s origin h')
  then have "h_life h' = h_life (ln_heap w)" "h_destroy h' = h_destroy (ln_heap w)"
      "h_next h' = h_next (ln_heap w)"
    by (auto simp: persistence_attempt_def split: sum.splits if_splits)
  then show ?thesis using phase_of[OF inv l_attempt(2)] l_attempt
    by (auto intro!: inv_same[OF inv])
next
  case (l_acquire i s origin receipt g h')
  note ph = phase_of[OF inv l_acquire(2)]
  have fam: "s_lifecycle s = s_lifecycle fam" "s_destroy s = s_destroy fam"
    using ph by (simp_all add: same_family_def)
  note g = begin_guarded_write_Inr[OF l_acquire(3), unfolded fam]
  have "\<not> ln_revoked w" using inv g by (auto simp: lineage_inv_def)
  then show ?thesis using l_acquire(1) ph g unlocked_no_holder[OF inv]
    by (auto intro!: inv_quiet[OF inv] simp: write_guard_of_def)
next
  case (l_refused i s origin receipt e h')
  note ph = phase_of[OF inv l_refused(2)]
  have fam: "s_lifecycle s = s_lifecycle fam" "s_destroy s = s_destroy fam"
    using ph by (simp_all add: same_family_def)
  from begin_guarded_write_Inl[OF l_refused(3), unfolded fam] show ?thesis
  proof
    assume "h' = ln_heap w"
    then show ?thesis using l_refused(1) by (auto intro!: inv_same[OF inv])
  next
    assume h: "\<not> ws_locked (h_life (ln_heap w) (s_lifecycle fam)) \<and>
        \<not> h_destroy (ln_heap w) (s_destroy fam) \<and> (\<exists>g. wg_state g = s_lifecycle fam \<and>
         h' = write_guard_drop g (upd_life (s_lifecycle fam) (\<lambda>w. w\<lparr>ws_locked := True\<rparr>) (ln_heap w)))"
    then have "\<not> ln_revoked w" using inv by (auto simp: lineage_inv_def)
    with h show ?thesis using l_refused(1) unlocked_no_holder[OF inv]
      by (auto intro!: inv_quiet[OF inv])
  qed
next
  case (l_commit i s origin g source r b')
  then show ?thesis using phase_of[OF inv l_commit(2)]
    by (auto intro!: inv_same[OF inv])
next
  case (l_reject i s origin g)
  then show ?thesis using phase_of[OF inv l_reject(2)]
    by (auto intro!: inv_release_write[OF inv] simp: write_guard_of_def)
next
  case (l_cancel i s origin g)
  have "lineage_inv fam outlives
      (moved i (InFlight s origin) (write_guard_drop g (ln_heap w)) (ln_store w) w)"
    using l_cancel phase_of[OF inv l_cancel(2)]
    by (intro inv_release_write[OF inv]) (simp_all add: write_guard_of_def)
  then show ?thesis using l_cancel(1) by simp
next
  case (l_late i s origin r b')
  then show ?thesis by (auto intro!: inv_same[OF inv])
next
  case (l_lost i s origin)
  then show ?thesis by (auto intro!: inv_same[OF inv])
next
  case (l_confirm i s origin g g1)
  then show ?thesis using phase_of[OF inv l_confirm(2)]
    by (auto intro!: inv_same[OF inv] simp: guard_finish_def Let_def write_guard_of_def split: if_splits)
next
  case (l_finish i s g)
  have "holds_lock (ln_tasks w i)" "is_writer (ln_tasks w i)" using l_finish by simp_all
  then have "\<forall>j. j \<noteq> i \<longrightarrow> \<not> holds_lock (ln_tasks w j)" "\<not> ln_revoked w"
    using holder_unique[OF inv] inv by (blast, auto simp: lineage_inv_def)
  then show ?thesis using l_finish(1) phase_of[OF inv l_finish(2)] by (auto intro!: inv_quiet[OF inv])
next
  case (l_compensate i s origin g e g1)
  then show ?thesis using phase_of[OF inv l_compensate(2)]
    by (auto intro!: inv_same[OF inv] simp: guard_finish_def Let_def write_guard_of_def
        guard_update_defs split: if_splits)
next
  case (l_removed i s g)
  then show ?thesis using phase_of[OF inv l_removed(2)] by (auto intro!: inv_release_write[OF inv])
next
  case (l_uncompensated i s origin g)
  then show ?thesis using phase_of[OF inv l_uncompensated(2)]
    by (auto intro!: inv_release_write[OF inv] simp: write_guard_of_def)
next
  case (l_settle i s origin g res g1)
  then show ?thesis using phase_of[OF inv l_settle(2)]
    by (auto intro!: inv_release_write[OF inv] simp: guard_finish_def Let_def write_guard_of_def
        split: if_splits)
next
  case (l_erased t)
  then show ?thesis using inv by (simp add: lineage_inv_def)
next
  case (l_destroy i s)
  then show ?thesis using phase_of[OF inv l_destroy(2)]
    by (auto intro!: inv_same[OF inv] simp: session_destroy_def same_family_def)
next
  case (l_delete i s dg h')
  note ph = phase_of[OF inv l_delete(2)]
  have fam: "s_lifecycle s = s_lifecycle fam" using ph by (simp add: same_family_def)
  show ?thesis using l_delete(1) ph begin_delete_locked_Inr[OF l_delete(3), unfolded fam]
      unlocked_no_holder[OF inv]
    by (auto intro!: inv_quiet[OF inv])
next
  case (l_delete_refused i s e h')
  then show ?thesis using begin_delete_locked_Inl[OF l_delete_refused(3)]
    by (auto intro!: inv_same[OF inv])
next
  case (l_deleted i s dg)
  note ph = phase_of[OF inv l_deleted(2)]
  have none: "\<forall>j. j \<noteq> i \<longrightarrow> \<not> holds_lock (ln_tasks w j)"
    using holder_unique[OF inv, of i] l_deleted by simp
  then have "lineage_inv fam outlives
      (moved i Gone (delete_guard_drop dg (ln_heap w)) (erase (dg_id dg) (ln_store w)) w)"
    using ph by (auto intro!: inv_quiet[OF inv])
  moreover have "\<not> is_writer (ln_tasks w j)" if "j \<noteq> i" for j
    using none that writer_holds by blast
  ultimately show ?thesis using ph unfolding l_deleted(1) by (intro inv_revoke) simp_all
next
  case (l_delete_failed i s dg)
  note ph = phase_of[OF inv l_delete_failed(2)]
  have "\<forall>j. j \<noteq> i \<longrightarrow> \<not> holds_lock (ln_tasks w j)"
    using holder_unique[OF inv, of i] l_delete_failed by simp
  then show ?thesis using l_delete_failed(1) ph by (auto intro!: inv_quiet[OF inv])
qed

lemma inv_start:
  "session_allocated h s \<Longrightarrow> lineage_inv s outlives (lineage_start s h b)"
  by (simp add: lineage_inv_def lineage_start_def same_family_def)

lemma inv_steps:
  "(lineage_step commit erase outlives)\<^sup>*\<^sup>* w w' \<Longrightarrow> lineage_inv fam outlives w \<Longrightarrow>
   lineage_inv fam outlives w'"
  by (induction rule: rtranclp_induct) (auto intro: inv_step)

subsection \<open>Mutual exclusion and deletion\<close>

inductive_cases lineage_stepE: "lineage_step commit erase outlives w w'"

lemma revoked_step: "lineage_step commit erase outlives w w' \<Longrightarrow> ln_revoked w \<Longrightarrow> ln_revoked w'"
  by (auto elim!: lineage_stepE)

lemma revoked_steps:
  "(lineage_step commit erase outlives)\<^sup>*\<^sup>* w w' \<Longrightarrow> ln_revoked w \<Longrightarrow> ln_revoked w'"
  by (induction rule: rtranclp_induct) (auto intro: revoked_step)

context backend_writes
begin

text \<open>After a deletion was confirmed, a step of the family adds no record.\<close>

lemma revoked_step_ids:
  assumes "lineage_step commit erase outlives w w'" and inv: "lineage_inv fam outlives w"
    and "ln_revoked w"
  shows "ids (ln_store w') \<subseteq> ids (ln_store w)"
  using assms(1)
proof (cases rule: lineage_step.cases)
  case (l_commit i s origin g source r b')
  then have "is_writer (ln_tasks w i)" by simp
  then show ?thesis using inv assms(3) by (auto simp: lineage_inv_def)
next
  case (l_late i s origin r b')
  have "\<not> ws_uncertain (h_life (ln_heap w) (s_lifecycle fam))"
    using inv assms(3) by (simp add: lineage_inv_def)
  then have "origin = Some (s_id s)" using phase_of[OF inv l_late(2)] by auto
  then show ?thesis using l_late commit_update by auto
qed (auto simp: erase_ids)

lemma revoked_steps_ids:
  assumes "(lineage_step commit erase outlives)\<^sup>*\<^sup>* w w'" and "lineage_inv fam outlives w"
    and "ln_revoked w"
  shows "ids (ln_store w') \<subseteq> ids (ln_store w)"
  using assms
proof (induction rule: rtranclp_induct)
  case base
  then show ?case by simp
next
  case (step y z)
  have "lineage_inv fam outlives y" "ln_revoked y"
    using inv_steps[OF step.hyps(1)] revoked_steps[OF step.hyps(1)] step.prems by auto
  then show ?case using revoked_step_ids[OF step.hyps(2)] step by blast
qed

lemma deletion_final:
  assumes "session_allocated h s"
    and "(lineage_step commit erase outlives)\<^sup>*\<^sup>* (lineage_start s h b) w" and "ln_revoked w"
    and "(lineage_step commit erase outlives)\<^sup>*\<^sup>* w w'"
  shows "ids (ln_store w') \<subseteq> ids (ln_store w)"
  using revoked_steps_ids[OF assms(4) inv_steps[OF assms(2) inv_start[OF assms(1)]] assms(3)] .

lemma store_wf:
  assumes "(lineage_step commit erase outlives)\<^sup>*\<^sup>* w w'" and "wf (ln_store w)"
  shows "wf (ln_store w')"
  using assms
proof (induction rule: rtranclp_induct)
  case (step y z)
  from step.hyps(2) step.IH[OF step.prems] show ?case
    by (cases rule: lineage_step.cases) (auto intro: wf_commit wf_erase)
qed simp

end

text \<open>
  C9: at most one task of a clone family is between obtaining its lifecycle guard and
  releasing it, for every interleaving of saves, deletions, cancellations and failures,
  and while a coordinated deletion holds its guard no creation or rotation of the family
  is in flight, neither in a live task nor left behind by a cancelled one.
\<close>
theorem lineage_mutual_exclusion:
  assumes "session_allocated h s"
    and "(lineage_step commit erase outlives)\<^sup>*\<^sup>* (lineage_start s h b) w"
  shows "(\<forall>i j. holds_lock (ln_tasks w i) \<and> holds_lock (ln_tasks w j) \<longrightarrow> i = j) \<and>
     (\<forall>i j t dg u origin. ln_tasks w i = Deleting t dg \<and> ln_tasks w j = InFlight u origin \<longrightarrow>
        origin = Some (s_id u))"
proof -
  have inv: "lineage_inv s outlives w"
    by (rule inv_steps[OF assms(2) inv_start[OF assms(1)]])
  have "origin = Some (s_id u)"
    if "ln_tasks w i = Deleting t dg" "ln_tasks w j = InFlight u origin" for i j t dg u origin
    using phase_of[OF inv that(1)] phase_of[OF inv that(2)] by auto
  with inv show ?thesis by (auto simp: lineage_inv_def)
qed

subsection \<open>An example run\<close>

text \<open>
  The example session is destroyed, its deletion takes the guard and is confirmed.
\<close>

definition example_delete_guard :: delete_guard where
  "example_delete_guard = \<lparr>dg_state = 0, dg_id = ''a''\<rparr>"

definition example_leaving :: "'b \<Rightarrow> 'b lineage" where
  "example_leaving b = moved 0 (Leaving example_session) (session_destroy example_session example_heap) b
     (lineage_start example_session example_heap b)"

definition example_deleting :: "'b \<Rightarrow> 'b lineage" where
  "example_deleting b = moved 0 (Deleting example_session example_delete_guard)
     (upd_life 0 (\<lambda>w. w\<lparr>ws_locked := True\<rparr>) (session_destroy example_session example_heap)) b
     (example_leaving b)"

definition example_deleted :: "(string \<Rightarrow> 'b \<Rightarrow> 'b) \<Rightarrow> 'b \<Rightarrow> 'b lineage" where
  "example_deleted erase b =
     (moved 0 Gone (delete_guard_drop example_delete_guard (ln_heap (example_deleting b)))
        (erase ''a'' b) (example_deleting b))\<lparr>ln_revoked := True\<rparr>"

lemma example_allocated: "session_allocated example_heap example_session"
  by (simp add: session_allocated_def example_session_def)

lemma example_steps:
  "lineage_step commit erase outlives (lineage_start example_session example_heap b) (example_leaving b)"
  "lineage_step commit erase outlives (example_leaving b) (example_deleting b)"
  "lineage_step commit erase outlives (example_deleting b) (example_deleted erase b)"
proof -
  have "lineage_step commit erase outlives (lineage_start example_session example_heap b)
      (moved 0 (Leaving example_session)
        (session_destroy example_session (ln_heap (lineage_start example_session example_heap b)))
        (ln_store (lineage_start example_session example_heap b))
        (lineage_start example_session example_heap b))"
    by (rule l_destroy) (simp add: lineage_start_def)
  then show "lineage_step commit erase outlives (lineage_start example_session example_heap b)
      (example_leaving b)"
    by (simp add: example_leaving_def lineage_start_def)
  have "lineage_step commit erase outlives (example_leaving b)
      (moved 0 (Deleting example_session example_delete_guard)
        (upd_life 0 (\<lambda>w. w\<lparr>ws_locked := True\<rparr>) (session_destroy example_session example_heap))
        (ln_store (example_leaving b)) (example_leaving b))"
    by (rule l_delete[of _ _ example_session])
       (simp_all add: example_leaving_def begin_delete_locked_def lifecycle_delete_def session_defs
        example_session_def example_delete_guard_def)
  then show "lineage_step commit erase outlives (example_leaving b) (example_deleting b)"
    by (simp add: example_deleting_def example_leaving_def)
  have "lineage_step commit erase outlives (example_deleting b)
      ((moved 0 Gone (delete_guard_drop example_delete_guard (ln_heap (example_deleting b)))
         (erase (dg_id example_delete_guard) (ln_store (example_deleting b))) (example_deleting b))
        \<lparr>ln_revoked := True\<rparr>)"
    by (rule l_deleted[of _ _ example_session]) (simp add: example_deleting_def)
  then show "lineage_step commit erase outlives (example_deleting b) (example_deleted erase b)"
    by (simp add: example_deleted_def example_delete_guard_def example_deleting_def)
qed

lemma example_run:
  "(lineage_step commit erase outlives)\<^sup>*\<^sup>* (lineage_start example_session example_heap b) (example_deleting b)"
  "(lineage_step commit erase outlives)\<^sup>*\<^sup>* (lineage_start example_session example_heap b)
     (example_deleted erase b)"
  using example_steps(1-2)[of commit erase outlives b] example_steps(3)[of commit erase outlives b]
  by (meson r_into_rtranclp rtranclp.rtrancl_into_rtrancl)+

theorem lineage_mutual_exclusion_witness:
  "{j. holds_lock (ln_tasks (example_deleting (Map.empty :: string \<rightharpoonup> session)) j)} = {0}"
proof -
  have "holds_lock (ln_tasks (example_deleting (Map.empty :: string \<rightharpoonup> session)) 0)"
    by (simp add: example_deleting_def)
  then show ?thesis
    using lineage_mutual_exclusion[OF example_allocated example_run(1)[of
        "\<lambda>origin t (r::session) b. Some (b(t \<mapsto> r))" "\<lambda>t b. b(t := None)" True "Map.empty"]]
    by blast
qed

end
