(* ===== verification/Lineage_Liveness.thy ===== *)
theory Lineage_Liveness
  imports Lineage_Protocol
begin

text \<open>
  Liveness of the lineage protocol: in every execution that schedules its tasks fairly, each
  save and each deletion that has been started comes to an end, so that no request hangs on
  the lifecycle lock of its session, whatever fails, is cancelled or is cloned meanwhile.
\<close>

subsection \<open>Operations in progress\<close>

text \<open>A task that waits for the lifecycle lock or holds it.\<close>

fun in_operation :: "phase \<Rightarrow> bool" where
  "in_operation (Prepared s origin) = True"
| "in_operation (Writing s origin g) = True"
| "in_operation (Written s origin g) = True"
| "in_operation (Confirmed s g) = True"
| "in_operation (Removed s g) = True"
| "in_operation (Leaving s) = True"
| "in_operation (Deleting s dg) = True"
| "in_operation Gone = False"
| "in_operation (Holding s) = False"
| "in_operation (InFlight s origin) = False"

text \<open>How many steps an operation has at most before it.\<close>

fun steps_left :: "phase \<Rightarrow> nat" where
  "steps_left (Prepared s origin) = 4"
| "steps_left (Writing s origin g) = 3"
| "steps_left (Written s origin g) = 2"
| "steps_left (Confirmed s g) = 1"
| "steps_left (Removed s g) = 1"
| "steps_left (Leaving s) = 2"
| "steps_left (Deleting s dg) = 1"
| "steps_left Gone = 0"
| "steps_left (Holding s) = 0"
| "steps_left (InFlight s origin) = 0"

fun_cases in_operationE: "in_operation ph"

lemma holder_in_operation: "holds_lock ph \<Longrightarrow> in_operation ph"
  by (cases ph) simp_all

definition advances :: "nat \<Rightarrow> 'b lineage \<Rightarrow> 'b lineage \<Rightarrow> bool" where
  "advances i w w' \<longleftrightarrow> steps_left (ln_tasks w' i) < steps_left (ln_tasks w i)"

lemma step_one_task:
  "lineage_step commit erase outlives w w' \<Longrightarrow> \<exists>i. \<forall>j. j \<noteq> i \<longrightarrow> ln_tasks w' j = ln_tasks w j"
  by (cases rule: lineage_step.cases, assumption) auto

text \<open>A task in an operation only moves forward.\<close>

lemma step_forward:
  assumes "lineage_step commit erase outlives w w'" and "in_operation (ln_tasks w i)"
  shows "ln_tasks w' i = ln_tasks w i \<or> advances i w w'"
  using assms by (cases rule: lineage_step.cases) (auto simp: advances_def)

lemma deletion_step:
  assumes "lineage_step commit erase outlives w w'" and "ln_tasks w i = Leaving t"
  shows "ln_tasks w' i = Leaving t \<or> (\<exists>dg. ln_tasks w' i = Deleting t dg) \<or>
    ln_tasks w' i = Gone \<and> ws_uncertain (h_life (ln_heap w') (s_lifecycle t))"
  using assms
  by (cases rule: lineage_step.cases)
     (auto simp: begin_delete_locked_def lifecycle_delete_def split: if_splits)

subsection \<open>The lock is held by a task\<close>

definition lock_owned :: "session \<Rightarrow> 'b lineage \<Rightarrow> bool" where
  "lock_owned fam w \<longleftrightarrow>
     (ws_locked (h_life (ln_heap w) (s_lifecycle fam)) \<longrightarrow> (\<exists>i. holds_lock (ln_tasks w i)))"

lemma lock_owned_moved:
  assumes "lock_owned fam w" and "holds_lock (ln_tasks w i) \<longrightarrow> holds_lock ph"
    and "ws_locked (h_life h' (s_lifecycle fam)) \<longrightarrow>
      holds_lock ph \<or> ws_locked (h_life (ln_heap w) (s_lifecycle fam))"
  shows "lock_owned fam (moved i ph h' b w)"
  using assms unfolding lock_owned_def by (metis moved_sel(1) moved_sel(4))

lemma lock_owned_released:
  "\<not> ws_locked (h_life h' (s_lifecycle fam)) \<Longrightarrow> lock_owned fam (moved i ph h' b w)"
  by (simp add: lock_owned_def)

lemma lock_owned_step:
  assumes "lineage_step commit erase outlives w w'" and inv: "lineage_inv fam outlives w"
    and owned: "lock_owned fam w"
  shows "lock_owned fam w'"
  using assms(1)
proof (cases rule: lineage_step.cases)
  case (l_local h')
  then show ?thesis
    using owned inv by (auto simp: lock_owned_def local_change_def lineage_inv_def session_allocated_def)
next
  case (l_attempt i s origin h')
  then have "h_life h' = h_life (ln_heap w)"
    by (auto simp: persistence_attempt_def split: sum.splits if_splits)
  with l_attempt show ?thesis by (auto intro!: lock_owned_moved[OF owned])
next
  case (l_refused i s origin receipt e h')
  have fam: "s_lifecycle s = s_lifecycle fam"
    using phase_of[OF inv l_refused(2)] by (simp add: same_family_def)
  from begin_guarded_write_Inl[OF l_refused(3)] show ?thesis
  proof
    assume "h' = ln_heap w"
    then show ?thesis using l_refused by (auto intro!: lock_owned_moved[OF owned])
  qed (use fam l_refused(1) in \<open>auto intro!: lock_owned_released\<close>)
next
  case (l_reject i s origin g)
  then show ?thesis using phase_of[OF inv l_reject(2)]
    by (auto intro!: lock_owned_released simp: write_guard_of_def)
next
  case (l_cancel i s origin g)
  then show ?thesis using phase_of[OF inv l_cancel(2)]
    by (auto intro!: lock_owned_released simp: write_guard_of_def)
next
  case (l_finish i s g)
  then show ?thesis using phase_of[OF inv l_finish(2)] by (auto intro!: lock_owned_released)
next
  case (l_removed i s g)
  then show ?thesis using phase_of[OF inv l_removed(2)] by (auto intro!: lock_owned_released)
next
  case (l_uncompensated i s origin g)
  then show ?thesis using phase_of[OF inv l_uncompensated(2)]
    by (auto intro!: lock_owned_released simp: write_guard_of_def)
next
  case (l_settle i s origin g res g1)
  then show ?thesis using phase_of[OF inv l_settle(2)]
    by (auto intro!: lock_owned_released simp: write_guard_of_def guard_finish_def Let_def split: if_splits)
next
  case (l_erased t)
  then show ?thesis using owned by (simp add: lock_owned_def)
next
  case (l_delete_refused i s e h')
  then show ?thesis using begin_delete_locked_Inl[OF l_delete_refused(3)]
    by (auto intro!: lock_owned_moved[OF owned])
next
  case (l_deleted i s dg)
  have "lock_owned fam (moved i Gone (delete_guard_drop dg (ln_heap w)) (erase (dg_id dg) (ln_store w)) w)"
    using phase_of[OF inv l_deleted(2)] by (auto intro!: lock_owned_released)
  then show ?thesis using l_deleted(1) by (simp add: lock_owned_def)
next
  case (l_delete_failed i s dg)
  then show ?thesis using phase_of[OF inv l_delete_failed(2)]
    by (auto intro!: lock_owned_released)
qed (auto intro!: lock_owned_moved[OF owned] simp: session_destroy_def)

subsection \<open>What can move\<close>

definition enabled ::
  "(string option \<Rightarrow> string \<Rightarrow> 'r \<Rightarrow> 'b \<Rightarrow> 'b option) \<Rightarrow> (string \<Rightarrow> 'b \<Rightarrow> 'b) \<Rightarrow> bool \<Rightarrow> nat \<Rightarrow>
   'b lineage \<Rightarrow> bool" where
  "enabled commit erase outlives i w \<longleftrightarrow>
     (\<exists>w'. lineage_step commit erase outlives w w' \<and> advances i w w')"

lemma enabledI:
  "lineage_step commit erase outlives w w' \<Longrightarrow> steps_left (ln_tasks w' i) < steps_left (ln_tasks w i) \<Longrightarrow>
   enabled commit erase outlives i w"
  by (auto simp: enabled_def advances_def)

text \<open>The holder of the lock can always end its operation.\<close>

lemma holder_enabled:
  assumes "holds_lock (ln_tasks w i)"
  shows "enabled commit erase outlives i w"
proof (cases "ln_tasks w i")
  case (Writing s origin g)
  show ?thesis by (rule enabledI[OF l_reject[OF Writing]]) (simp add: Writing)
next
  case (Written s origin g)
  show ?thesis by (rule enabledI[OF l_uncompensated[OF Written]]) (simp add: Written)
next
  case (Confirmed s g)
  show ?thesis by (rule enabledI[OF l_finish[OF Confirmed]]) (simp add: Confirmed)
next
  case (Removed s g)
  show ?thesis by (rule enabledI[OF l_removed[OF Removed]]) (simp add: Removed)
next
  case (Deleting s dg)
  show ?thesis by (rule enabledI[OF l_delete_failed[OF Deleting]]) (simp add: Deleting)
qed (use assms in simp_all)

text \<open>A task that waits can move as soon as the lock is free.\<close>

lemma waiting_enabled:
  assumes inv: "lineage_inv fam outlives w" and free: "\<not> ws_locked (h_life (ln_heap w) (s_lifecycle fam))"
    and "in_operation (ln_tasks w i)"
  shows "enabled commit erase outlives i w"
  using assms(3)
proof (cases "ln_tasks w i")
  case (Prepared s origin)
  have "s_lifecycle s = s_lifecycle fam"
    using phase_of[OF inv Prepared] by (simp add: same_family_def)
  then have "fst (begin_guarded_write s origin None outlives (ln_heap w)) \<noteq> Pending"
    using free by (auto simp: begin_guarded_write_def lifecycle_write_def Let_def split: sum.splits if_splits)
  then obtain res h' where "begin_guarded_write s origin None outlives (ln_heap w) = (Ready res, h')"
    by (cases "begin_guarded_write s origin None outlives (ln_heap w)" rule: prod.exhaust)
       (metis fst_conv poll.exhaust)
  then show ?thesis
    using l_refused[OF Prepared, of None outlives _ h' commit erase]
      l_acquire[OF Prepared, of None outlives _ h' commit erase] Prepared
    by (cases res) (auto intro: enabledI)
next
  case (Leaving s)
  have "s_lifecycle s = s_lifecycle fam"
    using phase_of[OF inv Leaving] by (simp add: same_family_def)
  then have "fst (begin_delete_locked s (ln_heap w)) \<noteq> Pending"
    using free by (auto simp: begin_delete_locked_def lifecycle_delete_def split: if_splits)
  then obtain res h' where "begin_delete_locked s (ln_heap w) = (Ready res, h')"
    by (cases "begin_delete_locked s (ln_heap w)" rule: prod.exhaust) (metis fst_conv poll.exhaust)
  then show ?thesis
    using l_delete_refused[OF Leaving, of _ h' commit erase outlives]
      l_delete[OF Leaving, of _ h' commit erase outlives] Leaving
    by (cases res) (auto intro: enabledI)
qed (auto intro: holder_enabled)

subsection \<open>Fair executions\<close>

text \<open>
  An execution may stutter. It is fair when a task that can move again and again does move
  again and again: the lock queues its waiters, and a future that is ready is polled.
\<close>

definition execution ::
  "(string option \<Rightarrow> string \<Rightarrow> 'r \<Rightarrow> 'b \<Rightarrow> 'b option) \<Rightarrow> (string \<Rightarrow> 'b \<Rightarrow> 'b) \<Rightarrow> bool \<Rightarrow>
   (nat \<Rightarrow> 'b lineage) \<Rightarrow> bool" where
  "execution commit erase outlives run \<longleftrightarrow>
     (\<forall>n. run (Suc n) = run n \<or> lineage_step commit erase outlives (run n) (run (Suc n)))"

definition fair ::
  "(string option \<Rightarrow> string \<Rightarrow> 'r \<Rightarrow> 'b \<Rightarrow> 'b option) \<Rightarrow> (string \<Rightarrow> 'b \<Rightarrow> 'b) \<Rightarrow> bool \<Rightarrow>
   (nat \<Rightarrow> 'b lineage) \<Rightarrow> bool" where
  "fair commit erase outlives run \<longleftrightarrow>
     (\<forall>i. (\<forall>m. \<exists>n\<ge>m. enabled commit erase outlives i (run n)) \<longrightarrow>
          (\<forall>m. \<exists>n\<ge>m. advances i (run n) (run (Suc n))))"

lemma execution_invariants:
  assumes "execution commit erase outlives run" and "run 0 = lineage_start s h b"
    and "session_allocated h s" and "\<not> ws_locked (h_life h (s_lifecycle s))"
  shows "lineage_inv s outlives (run n) \<and> lock_owned s (run n)"
proof (induction n)
  case 0
  then show ?case
    using assms inv_start[of h s outlives b] by (simp add: lock_owned_def lineage_start_def)
next
  case (Suc n)
  show ?case
  proof (cases "run (Suc n) = run n")
    case False
    then have "lineage_step commit erase outlives (run n) (run (Suc n))"
      using assms(1) by (auto simp: execution_def)
    then show ?thesis using Suc inv_step lock_owned_step by blast
  qed (use Suc in simp)
qed

lemma never_ending_settles:
  assumes "execution commit erase outlives run" and busy: "\<forall>m\<ge>n. in_operation (ln_tasks (run m) i)"
  shows "\<exists>N\<ge>n. \<forall>m\<ge>N. ln_tasks (run m) i = ln_tasks (run N) i"
proof -
  define left where "left m = steps_left (ln_tasks (run m) i)" for m
  obtain N where N: "N \<ge> n" "\<And>m. m \<ge> n \<Longrightarrow> left N \<le> left m"
    using ex_has_least_nat[of "\<lambda>m. m \<ge> n" n left] by auto
  have "ln_tasks (run m) i = ln_tasks (run N) i" if "m \<ge> N" for m
    using that
  proof (induction rule: dec_induct)
    case (step m)
    have "left N \<le> left (Suc m)" using N step.hyps by simp
    then have "\<not> advances i (run m) (run (Suc m))"
      using step.IH by (simp add: advances_def left_def)
    moreover have "run (Suc m) = run m \<or> lineage_step commit erase outlives (run m) (run (Suc m))"
      using assms(1) by (simp add: execution_def)
    ultimately show ?case
      using step_forward[of commit erase outlives "run m" "run (Suc m)" i] step busy N(1) by auto
  qed simp
  then show ?thesis using N(1) by blast
qed

lemma never_ending_blocked:
  assumes "execution commit erase outlives run" and fair: "fair commit erase outlives run"
    and busy: "\<forall>m\<ge>n. in_operation (ln_tasks (run m) i)"
  shows "\<exists>N\<ge>n. \<forall>m\<ge>N. \<not> enabled commit erase outlives i (run m)"
proof -
  obtain N where N: "N \<ge> n" "\<forall>m\<ge>N. ln_tasks (run m) i = ln_tasks (run N) i"
    using never_ending_settles[OF assms(1) busy] by blast
  then have "\<not> (\<exists>m\<ge>N. advances i (run m) (run (Suc m)))"
    by (metis advances_def le_SucI less_irrefl)
  then obtain M where "\<forall>m\<ge>M. \<not> enabled commit erase outlives i (run m)"
    using fair unfolding fair_def by blast
  then show ?thesis using N(1) by (intro exI[of _ "max N M"]) auto
qed

lemma holder_stays:
  assumes exec: "execution commit erase outlives run"
    and inv: "\<And>m. lineage_inv fam outlives (run m) \<and> lock_owned fam (run m)"
    and locked: "\<forall>m\<ge>N. ws_locked (h_life (ln_heap (run m)) (s_lifecycle fam))"
    and "holds_lock (ln_tasks (run N) j)" and "m \<ge> N"
  shows "holds_lock (ln_tasks (run m) j)"
  using assms(5)
proof (induction rule: dec_induct)
  case (step m)
  show ?case
  proof (cases "run (Suc m) = run m")
    case False
    then have "lineage_step commit erase outlives (run m) (run (Suc m))"
      using exec by (auto simp: execution_def)
    then obtain p where p: "\<forall>k. k \<noteq> p \<longrightarrow> ln_tasks (run (Suc m)) k = ln_tasks (run m) k"
      using step_one_task by blast
    have "ws_locked (h_life (ln_heap (run (Suc m))) (s_lifecycle fam))"
      using locked step.hyps by simp
    then obtain k where k: "holds_lock (ln_tasks (run (Suc m)) k)"
      using inv[of "Suc m"] unfolding lock_owned_def by blast
    then show ?thesis
      using p step.IH holder_unique[of fam outlives "run m" j] inv[of m] by metis
  qed (use step.IH in simp)
qed (rule assms(4))

lemma operation_ends:
  assumes exec: "execution commit erase outlives run" and start: "run 0 = lineage_start s h b"
    and "session_allocated h s" and "\<not> ws_locked (h_life h (s_lifecycle s))"
    and fair: "fair commit erase outlives run"
  shows "\<exists>m\<ge>n. \<not> in_operation (ln_tasks (run m) i)"
proof (rule ccontr)
  assume "\<not> ?thesis"
  then have busy: "\<forall>m\<ge>n. in_operation (ln_tasks (run m) i)" by blast
  note inv = execution_invariants[OF exec start assms(3,4)]
  obtain N where N: "N \<ge> n" "\<forall>m\<ge>N. \<not> enabled commit erase outlives i (run m)"
    using never_ending_blocked[OF exec fair busy] by blast
  have locked: "\<forall>m\<ge>N. ws_locked (h_life (ln_heap (run m)) (s_lifecycle s))"
    using waiting_enabled inv busy N by (meson le_trans)
  then obtain j where j: "holds_lock (ln_tasks (run N) j)"
    using inv[of N] unfolding lock_owned_def by blast
  have held: "\<forall>m\<ge>N. holds_lock (ln_tasks (run m) j)"
    using holder_stays[OF exec inv locked j] by blast
  then have "\<forall>m\<ge>N. in_operation (ln_tasks (run m) j)"
    using holder_in_operation by blast
  then show False
    using never_ending_blocked[OF exec fair] holder_enabled held by (meson order_trans order_refl)
qed

lemma deletion_outcome:
  assumes exec: "execution commit erase outlives run" and leaving: "ln_tasks (run n) i = Leaving t"
    and m: "n \<le> m" "\<not> in_operation (ln_tasks (run m) i)"
    and first: "\<forall>k. n \<le> k \<and> k < m \<longrightarrow> in_operation (ln_tasks (run k) i)"
  shows "(\<exists>k dg. n \<le> k \<and> k < m \<and> ln_tasks (run k) i = Deleting t dg) \<or>
    ln_tasks (run m) i = Gone \<and> ws_uncertain (h_life (ln_heap (run m)) (s_lifecycle t))"
proof (rule disjCI)
  assume "\<not> (ln_tasks (run m) i = Gone \<and> ws_uncertain (h_life (ln_heap (run m)) (s_lifecycle t)))"
  note refused = this
  have moves: "ln_tasks (run (Suc k)) i = Leaving t \<or> (\<exists>dg. ln_tasks (run (Suc k)) i = Deleting t dg) \<or>
      ln_tasks (run (Suc k)) i = Gone \<and> ws_uncertain (h_life (ln_heap (run (Suc k))) (s_lifecycle t))"
    if "ln_tasks (run k) i = Leaving t" for k
    using exec deletion_step[of commit erase outlives "run k" "run (Suc k)" i t] that
    by (auto simp: execution_def dest!: spec[of _ k])
  show "\<exists>k dg. n \<le> k \<and> k < m \<and> ln_tasks (run k) i = Deleting t dg"
  proof (rule ccontr)
    assume none: "\<not> ?thesis"
    have "ln_tasks (run k) i = Leaving t" if "n \<le> k" "k < m" for k
      using that
    proof (induction rule: dec_induct)
      case (step k)
      then have "in_operation (ln_tasks (run (Suc k)) i)" using first by simp
      then show ?case using moves[of k] step none by (auto dest: spec[of _ "Suc k"])
    qed (rule leaving)
    moreover have "n < m" using m leaving by (cases "n = m") auto
    ultimately have "ln_tasks (run (m - 1)) i = Leaving t" by simp
    then show False
      using moves[of "m - 1"] \<open>n < m\<close> m(2) refused by auto
  qed
qed

text \<open>
  C14: in every fair execution each save and each deletion that a task of a clone family has
  begun comes to an end, whatever fails or is cancelled and however many clones are made
  meanwhile: no interleaving leaves a task waiting for the lifecycle lock for ever. A
  deletion moreover gets hold of the lock, unless it is refused because a creation or
  rotation has an uncertain outcome.
\<close>
theorem every_operation_ends:
  assumes "execution commit erase outlives run" and "run 0 = lineage_start s h b"
    and "session_allocated h s" and "\<not> ws_locked (h_life h (s_lifecycle s))"
    and "fair commit erase outlives run" and "in_operation (ln_tasks (run n) i)"
  shows "\<exists>m>n. \<not> in_operation (ln_tasks (run m) i) \<and>
     (\<forall>t. ln_tasks (run n) i = Leaving t \<longrightarrow>
        (\<exists>k dg. n < k \<and> k < m \<and> ln_tasks (run k) i = Deleting t dg) \<or>
        ln_tasks (run m) i = Gone \<and> ws_uncertain (h_life (ln_heap (run m)) (s_lifecycle t)))"
proof -
  define m where "m = (LEAST m. n \<le> m \<and> \<not> in_operation (ln_tasks (run m) i))"
  have m: "n \<le> m" "\<not> in_operation (ln_tasks (run m) i)"
    using LeastI_ex[OF operation_ends[OF assms(1-5), of n i, unfolded Bex_def]] by (simp_all add: m_def)
  have first: "\<forall>k. n \<le> k \<and> k < m \<longrightarrow> in_operation (ln_tasks (run k) i)"
    using not_less_Least unfolding m_def by blast
  have "n < m" using m assms(6) by (cases "n = m") auto
  moreover have "(\<exists>k dg. n < k \<and> k < m \<and> ln_tasks (run k) i = Deleting t dg) \<or>
      ln_tasks (run m) i = Gone \<and> ws_uncertain (h_life (ln_heap (run m)) (s_lifecycle t))"
    if "ln_tasks (run n) i = Leaving t" for t
    using deletion_outcome[OF assms(1) that m first] that by (metis le_neq_implies_less phase.distinct)
  ultimately show ?thesis using m(2) by blast
qed

definition example_execution :: "nat \<Rightarrow> (string \<rightharpoonup> session) lineage" where
  "example_execution n =
     [lineage_start example_session example_heap Map.empty, example_leaving Map.empty,
      example_deleting Map.empty, example_deleted (\<lambda>t b. b(t := None)) Map.empty] ! min n 3"

lemma example_execution_fair:
  "execution commit (\<lambda>t b. b(t := None)) outlives example_execution"
  "fair commit (\<lambda>t b. b(t := None)) outlives example_execution"
proof -
  have "example_execution (Suc n) = example_execution n \<or>
      lineage_step commit (\<lambda>t b. b(t := None)) outlives (example_execution n) (example_execution (Suc n))" for n
  proof (cases "n \<ge> 3")
    case False
    then have "n = 0 \<or> n = 1 \<or> n = 2" by auto
    then show ?thesis
      using example_steps[of commit "\<lambda>t b. b(t := None)" outlives Map.empty]
      by (auto simp: example_execution_def)
  qed (simp add: example_execution_def)
  then show "execution commit (\<lambda>t b. b(t := None)) outlives example_execution"
    by (simp add: execution_def)
  have "ln_tasks (example_execution n) i = Gone" if "n \<ge> 3" for n i
    using that by (simp add: example_execution_def example_deleted_def example_deleting_def
        example_leaving_def lineage_start_def)
  then have "\<not> enabled commit (\<lambda>t b. b(t := None)) outlives i (example_execution n)" if "n \<ge> 3" for n i
    using that by (simp add: enabled_def advances_def)
  then show "fair commit (\<lambda>t b. b(t := None)) outlives example_execution"
    unfolding fair_def by blast
qed

theorem every_operation_ends_witness:
  "\<exists>m>1. \<not> in_operation (ln_tasks (example_execution m) 0) \<and>
     ((\<exists>k dg. 1 < k \<and> k < m \<and> ln_tasks (example_execution k) 0 = Deleting example_session dg) \<or>
      ln_tasks (example_execution m) 0 = Gone)"
proof -
  have "in_operation (ln_tasks (example_execution 1) 0)" "ln_tasks (example_execution 1) 0 = Leaving example_session"
      "example_execution 0 = lineage_start example_session example_heap Map.empty"
      "\<not> ws_locked (h_life example_heap (s_lifecycle example_session))"
    by (simp_all add: example_execution_def example_leaving_def lineage_start_def example_session_def write_state_default_def)
  then show ?thesis
    using every_operation_ends[OF example_execution_fair(1)[of "\<lambda>origin t r b. Some (b(t \<mapsto> r))" True]
        _ example_allocated _ example_execution_fair(2), where n = 1 and i = 0] by blast
qed

end
