(* ===== verification/Memory_Store.thy ===== *)
theory Memory_Store
  imports Lineage_Protocol
begin

text \<open>
  The in-memory store of \<open>src/memory_store.rs\<close>: a map of records with an ordered expiry
  index beside it, the handlers of the \<open>SessionStore\<close> trait with their suspension points,
  and bounded cleanup. A stored record is a session of its own on the shared heap.
\<close>

subsection \<open>State\<close>

text \<open>
  \<open>MemoryState\<close>. A \<open>BTreeSet\<close> of pairs is the strictly sorted list of its elements, in
  the order in which its iterator yields them.
\<close>

record memory_state =
  ms_records :: "string \<rightharpoonup> session"
  ms_expiries :: "(datetime \<times> string) list"

definition memory_state_default :: memory_state where
  "memory_state_default = \<lparr>ms_records = Map.empty, ms_expiries = []\<rparr>"

definition btree_insert :: "'a::linorder \<Rightarrow> 'a list \<Rightarrow> 'a list" where
  "btree_insert x xs = (if x \<in> set xs then xs else insort x xs)"

definition btree_remove :: "'a \<Rightarrow> 'a list \<Rightarrow> 'a list" where
  "btree_remove x xs = remove1 x xs"

definition state_remove :: "string \<Rightarrow> memory_state \<Rightarrow> session option \<times> memory_state" where
  "state_remove ident st =
     (case ms_records st ident of
        None \<Rightarrow> (None, st)
      | Some previous \<Rightarrow>
          (let st1 = st\<lparr>ms_records := (ms_records st)(ident := None)\<rparr> in
           (Some previous,
            case s_expiry previous of
              None \<Rightarrow> st1
            | Some expiry \<Rightarrow> st1\<lparr>ms_expiries := btree_remove (expiry, ident) (ms_expiries st1)\<rparr>)))"

definition state_insert :: "string \<Rightarrow> session \<Rightarrow> memory_state \<Rightarrow> session option \<times> memory_state" where
  "state_insert ident s st =
     (let (previous, st1) = state_remove ident st;
          st2 = (case s_expiry s of
                   None \<Rightarrow> st1
                 | Some expiry \<Rightarrow> st1\<lparr>ms_expiries := btree_insert (expiry, ident) (ms_expiries st1)\<rparr>)
      in (previous, st2\<lparr>ms_records := (ms_records st2)(ident \<mapsto> s)\<rparr>))"

definition state_clear :: "memory_state \<Rightarrow> memory_state" where
  "state_clear st = st\<lparr>ms_records := Map.empty, ms_expiries := []\<rparr>"

text \<open>The bounded loop of \<open>MemoryState::expired_candidates\<close> over the iterator.\<close>

fun scan_expired :: "datetime \<Rightarrow> nat \<Rightarrow> (datetime \<times> string) list \<Rightarrow> string list" where
  "scan_expired now 0 es = []"
| "scan_expired now (Suc n) [] = []"
| "scan_expired now (Suc n) ((expiry, ident) # es) =
     (if now \<le> expiry then [] else ident # scan_expired now n es)"

text \<open>
  The counter \<open>cleanup_entries_examined\<close> of that loop, which the crate compiles for its tests: the
  entries of the index that one call looks at.
\<close>

fun entries_examined :: "datetime \<Rightarrow> nat \<Rightarrow> (datetime \<times> string) list \<Rightarrow> nat" where
  "entries_examined now 0 es = 0"
| "entries_examined now (Suc n) [] = 0"
| "entries_examined now (Suc n) ((expiry, ident) # es) =
     1 + (if now \<le> expiry then 0 else entries_examined now n es)"

definition expired_candidates :: "datetime \<Rightarrow> nat \<Rightarrow> memory_state \<Rightarrow> string list" where
  "expired_candidates now limit st = scan_expired now limit (ms_expiries st)"

subsection \<open>The trait's handlers\<close>

type_synonym world = "heap \<times> memory_state"

text \<open>\<open>load_session\<close> under the read lock; the clock is read twice.\<close>

definition ms_load_session ::
  "primitives \<Rightarrow> datetime \<Rightarrow> datetime \<Rightarrow> string \<Rightarrow> world \<Rightarrow> (error + session option) \<times> world" where
  "ms_load_session p now1 now2 cookie w =
     (let (h, st) = w in
      case id_from_cookie_value p cookie of
        Inl e \<Rightarrow> (Inl (CookieFormat e), (h, st))
      | Inr ident \<Rightarrow>
          (case ms_records st ident of
             None \<Rightarrow> (Inr None, (h, st))
           | Some record \<Rightarrow>
               if is_expired now1 record then (Inr None, (h, st))
               else
                 (let (snap, h1) = session_snapshot record h;
                      (r, h2) = validate_loaded p 1 now2 cookie snap h1
                  in (r, (h2, st)))))"

text \<open>
  The checks and the write of \<open>store_session\<close> on the locked state: the source must
  exist, another target must not, a rotation removes its source. \<open>False\<close> is a conflict.
\<close>

definition ms_commit ::
  "string option \<Rightarrow> string \<Rightarrow> session \<Rightarrow> memory_state \<Rightarrow> bool \<times> memory_state" where
  "ms_commit origin target snap st =
     (if (case origin of Some source \<Rightarrow> ms_records st source = None | None \<Rightarrow> False) then (False, st)
      else if origin \<noteq> Some target \<and> ms_records st target \<noteq> None then (False, st)
      else
        (let (missing, st1) =
               (case origin of
                  None \<Rightarrow> (False, st)
                | Some old_id \<Rightarrow>
                    if old_id \<noteq> target
                    then (let (previous, st') = state_remove old_id st in (previous = None, st'))
                    else (False, st))
         in if missing then (False, st1)
            else (True, snd (state_insert target snap st1))))"

text \<open>
  \<open>store_session\<close>. Other tasks run at the interleaving points: 0 while the lifecycle lock
  is awaited, 1 while the store lock is awaited, 2 before the guard is finished (the store
  lock is held, so only the heap can change) and 3 after the store lock is released. An
  early return drops what was declared, last first: the guard, then the token.
\<close>

definition ms_store_session ::
  "world interleaving \<Rightarrow> session \<Rightarrow> world \<Rightarrow> (error + string option) poll \<times> world" where
  "ms_store_session ij s w =
     (let (h, st) = w in
      case persistence_attempt s h of
        (Inl e, h1) \<Rightarrow> (Ready (Inl e), (h1, st))
      | (Inr attempt, h1) \<Rightarrow>
          (let ((snap, token), h2) = persistence_snapshot s h1;
               (h3, st3) = ij 0 (h2, st)
           in case begin_backend_write s attempt False h3 of
             (Pending, h4) \<Rightarrow> (Pending, (h4, st3))
           | (Ready (Inl e), h4) \<Rightarrow> (Ready (Inl e), (revision_drop token h4, st3))
           | (Ready (Inr write), h4) \<Rightarrow>
               (let (h5, st5) = ij 1 (h4, st3) in
                case (if attempt = None then Inr None else persistence_origin s h5) of
                  Inl e \<Rightarrow> (Ready (Inl e), (revision_drop token (write_guard_drop write h5), st5))
                | Inr origin \<Rightarrow>
                    if is_destroyed s h5
                    then (Ready (Inl SessionConflict),
                          (revision_drop token (write_guard_drop write h5), st5))
                    else
                      (case ms_commit origin (s_id s) snap st5 of
                         (False, st6) \<Rightarrow>
                           (Ready (Inl SessionConflict),
                            (revision_drop token (write_guard_drop write h5), st6))
                       | (True, st6) \<Rightarrow>
                           (let h6 = snd (mark_loaded snap h5);
                                h7 = fst (ij 2 (h6, st6))
                            in case guard_finish write h7 of
                              (Inl e, write1) \<Rightarrow>
                                (Ready (Inl e),
                                 (revision_drop token (write_guard_drop write1 h7),
                                  snd (state_remove (s_id s) st6)))
                            | (Inr _, write1) \<Rightarrow>
                                (let (h8, st8) = ij 3 (h7, st6);
                                     h9 = mark_persisted s h8;
                                     (s1, h10) = acknowledge_revision s token h9
                                 in (Ready (Inr (into_cookie_value s1)),
                                     (write_guard_drop write1 h10, st8))))))))"

text \<open>\<open>destroy_session\<close>: points 0 (lifecycle lock) and 1 (store lock).\<close>

definition ms_destroy_session ::
  "world interleaving \<Rightarrow> session \<Rightarrow> world \<Rightarrow> (error + unit) poll \<times> world" where
  "ms_destroy_session ij s w =
     (let (h, st) = w;
          (h1, st1) = ij 0 (session_destroy s h, st)
      in case begin_delete_locked s h1 of
        (Pending, h2) \<Rightarrow> (Pending, (h2, st1))
      | (Ready (Inl e), h2) \<Rightarrow> (Ready (Inl e), (h2, st1))
      | (Ready (Inr deletion), h2) \<Rightarrow>
          (let (h3, st3) = ij 1 (h2, st1)
           in (Ready (Inr ()),
               (delete_guard_drop deletion h3, snd (state_remove (dg_id deletion) st3)))))"

definition ms_clear_store :: "world \<Rightarrow> world" where
  "ms_clear_store w = (fst w, state_clear (snd w))"

definition ms_count :: "memory_state \<Rightarrow> nat" where
  "ms_count st = card (dom (ms_records st))"

subsection \<open>Cleanup\<close>

definition CLEANUP_BATCH_SIZE :: nat where
  "CLEANUP_BATCH_SIZE = 256"

definition DEFAULT_CLEANUP_LIMIT :: "32 word" where
  "DEFAULT_CLEANUP_LIMIT = 1000"

definition MAX_CLEANUP_LIMIT :: "32 word" where
  "MAX_CLEANUP_LIMIT = 10000"

text \<open>\<open>slice::chunks\<close>\<close>

fun chunks :: "nat \<Rightarrow> 'a list \<Rightarrow> 'a list list" where
  "chunks n xs = (if xs = [] \<or> n = 0 then [] else take n xs # chunks n (drop n xs))"

declare chunks.simps [simp del]

text \<open>The check of one candidate against the current record, under the write lock.\<close>

definition still_expired :: "datetime \<Rightarrow> memory_state \<Rightarrow> string \<Rightarrow> bool" where
  "still_expired now st ident =
     (case ms_records st ident of
        None \<Rightarrow> False
      | Some s \<Rightarrow> (case s_expiry s of None \<Rightarrow> False | Some expiry \<Rightarrow> expiry < now))"

fun remove_batch :: "datetime \<Rightarrow> string list \<Rightarrow> memory_state \<Rightarrow> nat \<times> memory_state" where
  "remove_batch now [] st = (0, st)"
| "remove_batch now (ident # ids) st =
     (if still_expired now st ident
      then (case state_remove ident st of
              (None, st1) \<Rightarrow> remove_batch now ids st1
            | (Some _, st1) \<Rightarrow>
                (let (n, st2) = remove_batch now ids st1 in (n + 1, st2)))
      else remove_batch now ids st)"

text \<open>Other tasks run before each batch, while the write lock is awaited.\<close>

fun remove_batches ::
  "memory_state interleaving \<Rightarrow> nat \<Rightarrow> datetime \<Rightarrow> string list list \<Rightarrow> memory_state \<Rightarrow>
   nat \<times> memory_state" where
  "remove_batches ij k now [] st = (0, st)"
| "remove_batches ij k now (b # bs) st =
     (let (n, st1) = remove_batch now b (ij k st);
          (m, st2) = remove_batches ij (k + 1) now bs st1
      in (n + m, st2))"

definition remove_expired_candidates ::
  "memory_state interleaving \<Rightarrow> datetime \<Rightarrow> string list \<Rightarrow> memory_state \<Rightarrow> nat \<times> memory_state" where
  "remove_expired_candidates ij now ids st =
     remove_batches ij 1 now (chunks CLEANUP_BATCH_SIZE ids) st"

definition cleanup_batch ::
  "memory_state interleaving \<Rightarrow> 32 word \<Rightarrow> datetime \<Rightarrow> memory_state \<Rightarrow> (error + nat) \<times> memory_state" where
  "cleanup_batch ij limit now st =
     (if \<not> (1 \<le> limit \<and> limit \<le> MAX_CLEANUP_LIMIT) then (Inl BatchLimit, st)
      else
        (let st0 = ij 0 st;
             ids = expired_candidates now (unat limit) st0;
             (n, st1) = remove_expired_candidates ij now ids st0
         in (Inr n, st1)))"

definition cleanup ::
  "memory_state interleaving \<Rightarrow> datetime \<Rightarrow> memory_state \<Rightarrow> (error + unit) \<times> memory_state" where
  "cleanup ij now st =
     (case cleanup_batch ij DEFAULT_CLEANUP_LIMIT now st of
        (Inl e, st1) \<Rightarrow> (Inl e, st1)
      | (Inr _, st1) \<Rightarrow> (Inr (), st1))"

end
