(* ===== verification/Memory_Index.thy ===== *)
theory Memory_Index
  imports Memory_Store
begin

text \<open>
  The expiry index of the in-memory store: it always lists exactly the expiring records in
  order of expiry, so cleanup inspects and removes the oldest expired records only.
\<close>

subsection \<open>The index invariant\<close>

definition index_inv :: "memory_state \<Rightarrow> bool" where
  "index_inv st \<longleftrightarrow> sorted (ms_expiries st) \<and> distinct (ms_expiries st) \<and>
     (\<forall>e i. (e, i) \<in> set (ms_expiries st) \<longleftrightarrow>
        (\<exists>s. ms_records st i = Some s \<and> s_expiry s = Some e))"

lemma state_remove_sel [simp]:
  "fst (state_remove i st) = ms_records st i"
  "ms_records (snd (state_remove i st)) = (ms_records st)(i := None)"
  by (auto simp: state_remove_def Let_def split: option.splits)

lemma state_insert_sel [simp]:
  "fst (state_insert i s st) = ms_records st i"
  "ms_records (snd (state_insert i s st)) = (ms_records st)(i \<mapsto> s)"
  by (auto simp: state_insert_def Let_def split_beta split: option.splits)

lemma index_inv_default: "index_inv memory_state_default"
  by (simp add: index_inv_def memory_state_default_def)

lemma index_inv_clear: "index_inv (state_clear st)"
  by (simp add: index_inv_def state_clear_def)

lemma index_inv_remove:
  assumes "index_inv st"
  shows "index_inv (snd (state_remove i st))"
proof (cases "ms_records st i")
  case None
  then show ?thesis using assms by (simp add: state_remove_def)
next
  case (Some s)
  show ?thesis
  proof (cases "s_expiry s")
    case None
    then show ?thesis using assms Some
      by (auto simp: state_remove_def index_inv_def Let_def)
  next
    case (Some e)
    then show ?thesis using assms \<open>ms_records st i = Some s\<close>
      by (auto simp: state_remove_def index_inv_def Let_def btree_remove_def sorted_remove1
          set_remove1_eq)
  qed
qed

lemma index_inv_insert:
  assumes "index_inv st"
  shows "index_inv (snd (state_insert i s st))"
proof -
  define st1 where "st1 = snd (state_remove i st)"
  have inv: "index_inv st1" using index_inv_remove[OF assms] by (simp add: st1_def)
  have none: "ms_records st1 i = None" by (simp add: st1_def)
  show ?thesis
  proof (cases "s_expiry s")
    case None
    then have "snd (state_insert i s st) = st1\<lparr>ms_records := (ms_records st1)(i \<mapsto> s)\<rparr>"
      by (simp add: state_insert_def Let_def split_beta st1_def)
    then show ?thesis using inv none None by (auto simp: index_inv_def)
  next
    case (Some e)
    then have "snd (state_insert i s st) =
        st1\<lparr>ms_expiries := btree_insert (e, i) (ms_expiries st1),
            ms_records := (ms_records st1)(i \<mapsto> s)\<rparr>"
      by (simp add: state_insert_def Let_def split_beta st1_def)
    moreover have "(e, i) \<notin> set (ms_expiries st1)" using inv none by (simp add: index_inv_def)
    ultimately show ?thesis using inv none Some
      by (auto simp: index_inv_def btree_insert_def sorted_insort distinct_insort set_insort_key)
  qed
qed

lemma index_inv_commit:
  "index_inv st \<Longrightarrow> index_inv (snd (ms_commit origin target s st))"
  by (auto simp: ms_commit_def Let_def split_beta index_inv_insert index_inv_remove
      split: option.splits)

subsection \<open>Candidates\<close>

text \<open>The scan returns the first \<open>limit\<close> of the identities whose expiry is past.\<close>

lemma scan_expired_takeWhile:
  "scan_expired now n es = map snd (take n (takeWhile (\<lambda>(e, i). e < now) es))"
  by (induction now n es rule: scan_expired.induct) auto

lemma takeWhile_sorted_expired:
  "sorted es \<Longrightarrow> takeWhile (\<lambda>(e, i). e < now) es = filter (\<lambda>(e, i). e < now) es"
  for es :: "(datetime \<times> string) list"
proof (induction es)
  case (Cons a es)
  show ?case
  proof (cases "fst a < now")
    case True
    then show ?thesis using Cons by (simp add: split_beta)
  next
    case False
    have "\<not> fst x < now" if "x \<in> set es" for x
    proof -
      have "a \<le> x" using Cons.prems that by simp
      then have "fst a \<le> fst x" by (auto simp: less_eq_prod_def)
      with False show ?thesis by simp
    qed
    then show ?thesis using False by (simp add: split_beta filter_empty_conv)
  qed
qed simp

text \<open>The identities with an expired record.\<close>

definition expired_ids :: "datetime \<Rightarrow> memory_state \<Rightarrow> string set" where
  "expired_ids now st = {i. still_expired now st i}"

lemma still_expired_iff:
  "still_expired now st i \<longleftrightarrow> (\<exists>s e. ms_records st i = Some s \<and> s_expiry s = Some e \<and> e < now)"
  by (auto simp: still_expired_def split: option.splits)

definition expired_entries :: "datetime \<Rightarrow> memory_state \<Rightarrow> (datetime \<times> string) list" where
  "expired_entries now st = filter (\<lambda>(e, i). e < now) (ms_expiries st)"

lemma expired_candidates_eq:
  "index_inv st \<Longrightarrow> expired_candidates now n st = map snd (take n (expired_entries now st))"
  by (simp add: expired_candidates_def scan_expired_takeWhile takeWhile_sorted_expired
      index_inv_def expired_entries_def)

lemma expired_entries_ids:
  assumes "index_inv st"
  shows "set (map snd (expired_entries now st)) = expired_ids now st"
    and "distinct (map snd (expired_entries now st))"
proof -
  have mem: "(e, i) \<in> set (ms_expiries st) \<longleftrightarrow>
      (\<exists>s. ms_records st i = Some s \<and> s_expiry s = Some e)" for e i
    using assms by (simp add: index_inv_def)
  show "set (map snd (expired_entries now st)) = expired_ids now st"
    by (force simp: expired_entries_def expired_ids_def still_expired_iff mem)
  have "inj_on snd (set (expired_entries now st))"
    by (rule inj_onI) (auto simp: expired_entries_def mem)
  moreover have "distinct (expired_entries now st)"
    using assms by (simp add: expired_entries_def index_inv_def)
  ultimately show "distinct (map snd (expired_entries now st))"
    by (simp add: distinct_map)
qed

text \<open>
  What cleanup needs of the store: candidates are expired, distinct, bounded in number,
  and complete when fewer than the bound; removal removes one record.
\<close>

locale expiring_store =
  fixes get :: "'m \<Rightarrow> string \<rightharpoonup> 'r"
    and del :: "string \<Rightarrow> 'm \<Rightarrow> 'm"
    and expired :: "datetime \<Rightarrow> 'm \<Rightarrow> string set"
    and oldest :: "datetime \<Rightarrow> nat \<Rightarrow> 'm \<Rightarrow> string list"
    and wf :: "'m \<Rightarrow> bool"
  assumes del_get: "get (del i m) = (get m)(i := None)"
    and del_wf: "wf m \<Longrightarrow> wf (del i m)"
    and del_expired: "expired now (del i m) = expired now m - {i}"
    and oldest_expired: "wf m \<Longrightarrow> set (oldest now n m) \<subseteq> expired now m"
    and oldest_distinct: "wf m \<Longrightarrow> distinct (oldest now n m)"
    and oldest_length: "wf m \<Longrightarrow> length (oldest now n m) = min n (card (expired now m))"
    and expired_finite: "wf m \<Longrightarrow> finite (expired now m)"
begin

text \<open>Removing candidates one after the other.\<close>

lemma sweep_get: "get (fold del is m) = (\<lambda>i. if i \<in> set is then None else get m i)"
  by (induction "is" arbitrary: m) (auto simp: del_get fun_eq_iff)

lemma sweep_wf: "wf m \<Longrightarrow> wf (fold del is m)"
  by (induction "is" arbitrary: m) (auto simp: del_wf)

lemma sweep_expired: "expired now (fold del is m) = expired now m - set is"
  by (induction "is" arbitrary: m) (auto simp: del_expired)

lemma sweep_progress:
  assumes "wf m"
  shows "card (expired now (fold del (oldest now n m) m)) = card (expired now m) - n"
proof -
  have "card (set (oldest now n m)) = min n (card (expired now m))"
    using oldest_length[OF assms] distinct_card[OF oldest_distinct[OF assms]] by simp
  then show ?thesis
    using oldest_expired[OF assms, of now n]
    by (simp add: sweep_expired card_Diff_subset finite_subset[OF _ expired_finite[OF assms]])
qed

end

lemma expired_ids_remove: "expired_ids now (snd (state_remove i st)) = expired_ids now st - {i}"
  by (auto simp: expired_ids_def still_expired_iff)

interpretation mem: expiring_store
  ms_records "\<lambda>i st. snd (state_remove i st)" expired_ids expired_candidates index_inv
proof unfold_locales
  fix st :: memory_state and now n i
  show "ms_records (snd (state_remove i st)) = (ms_records st)(i := None)" by simp
  show "expired_ids now (snd (state_remove i st)) = expired_ids now st - {i}"
    by (rule expired_ids_remove)
  assume inv: "index_inv st"
  show "index_inv (snd (state_remove i st))" using inv by (rule index_inv_remove)
  show "set (expired_candidates now n st) \<subseteq> expired_ids now st"
    using expired_entries_ids(1)[OF inv, of now] set_take_subset[of n "expired_entries now st"]
    by (auto simp: expired_candidates_eq[OF inv])
  show "distinct (expired_candidates now n st)"
    using expired_entries_ids(2)[OF inv, of now]
    by (simp add: expired_candidates_eq[OF inv] take_map[symmetric] distinct_take)
  show "length (expired_candidates now n st) = min n (card (expired_ids now st))"
    using distinct_card[OF expired_entries_ids(2)[OF inv, of now]] expired_entries_ids(1)[OF inv, of now]
    by (simp add: expired_candidates_eq[OF inv] min.commute)
  show "finite (expired_ids now st)"
    using expired_entries_ids(1)[OF inv, of now] by (metis List.finite_set)
qed

text \<open>No candidate expires after an expired record that was left out.\<close>

lemma candidates_oldest:
  assumes inv: "index_inv st"
    and i: "i \<in> expired_ids now st" "i \<notin> set (expired_candidates now n st)"
    and j: "j \<in> set (expired_candidates now n st)"
    and recs: "ms_records st i = Some s" "s_expiry s = Some e" "ms_records st j = Some t" "s_expiry t = Some f"
  shows "f \<le> e"
proof -
  let ?E = "expired_entries now st"
  have mem: "(x, k) \<in> set ?E \<Longrightarrow> \<exists>u. ms_records st k = Some u \<and> s_expiry u = Some x" for x k
    using inv by (auto simp: expired_entries_def index_inv_def)
  obtain e' where "(e', i) \<in> set ?E"
    using i(1) expired_entries_ids(1)[OF inv, of now] by force
  then have "(e, i) \<in> set ?E" using mem recs by fastforce
  then have "(e, i) \<in> set (take n ?E) \<union> set (drop n ?E)"
    by (metis append_take_drop_id set_append)
  moreover have "(e, i) \<notin> set (take n ?E)"
    using i(2) by (force simp: expired_candidates_eq[OF inv])
  ultimately have low: "(e, i) \<in> set (drop n ?E)" by blast
  obtain f' where "(f', j) \<in> set (take n ?E)"
    using j by (force simp: expired_candidates_eq[OF inv])
  then have up: "(f, j) \<in> set (take n ?E)" using mem recs by (fastforce dest: in_set_takeD)
  have "sorted (take n ?E @ drop n ?E)"
    using inv by (simp add: expired_entries_def index_inv_def sorted_wrt_filter)
  then have "(f, j) \<le> (e, i)" using low up unfolding sorted_append by blast
  then show ?thesis by (auto simp: less_eq_prod_def)
qed

end
