(* ===== verification/Memory_Cleanup.thy ===== *)
theory Memory_Cleanup
  imports Memory_Index
begin

text \<open>
  Bounded cleanup of the in-memory store: what one call removes, in which order, and what
  it leaves alone when other requests run between its batches.
\<close>

subsection \<open>Batches\<close>

lemma remove_batch_Cons:
  "remove_batch now (j # ids) st =
     (if still_expired now st j then apfst Suc (remove_batch now ids (snd (state_remove j st)))
      else remove_batch now ids st)"
proof (cases "still_expired now st j")
  case True
  then obtain s where "fst (state_remove j st) = Some s" by (auto simp: still_expired_iff)
  then show ?thesis using True by (auto simp: split_beta apfst_def map_prod_def split: prod.splits)
qed simp

declare remove_batch.simps(2) [simp del]
declare remove_batch_Cons [simp]

lemma remove_batch_sel:
  "ms_records (snd (remove_batch now ids st)) =
     (\<lambda>i. if i \<in> set ids \<and> still_expired now st i then None else ms_records st i)"
  by (induction ids arbitrary: st) (auto simp: fun_eq_iff still_expired_iff)

lemma remove_batch_wf: "index_inv st \<Longrightarrow> index_inv (snd (remove_batch now ids st))"
  by (induction ids arbitrary: st) (auto simp: index_inv_remove)

lemma remove_batch_count:
  "fst (remove_batch now ids st) = card {i \<in> set ids. still_expired now st i}"
proof (induction ids arbitrary: st)
  case (Cons j ids)
  have rest: "{i \<in> set ids. still_expired now (snd (state_remove j st)) i} =
      {i \<in> set ids. still_expired now st i} - {j}"
    by (auto simp: still_expired_iff split: if_splits)
  have "{i \<in> set (j # ids). still_expired now st i} =
      (if still_expired now st j then insert j ({i \<in> set ids. still_expired now st i} - {j})
       else {i \<in> set ids. still_expired now st i})"
    by auto
  then show ?case using Cons by (simp add: rest del: insert_Diff_single)
qed simp

text \<open>The records that are gone after a batch are the ones it counts.\<close>

lemma remove_batch_gone:
  "dom (ms_records st) - dom (ms_records (snd (remove_batch now ids st))) =
     {i \<in> set ids. still_expired now st i}"
  by (auto simp: remove_batch_sel still_expired_iff dom_def split: if_splits)

lemma remove_batch_bound: "fst (remove_batch now ids st) \<le> length ids"
  by (induction ids arbitrary: st) (auto simp: le_SucI)

lemma concat_chunks: "0 < n \<Longrightarrow> concat (chunks n xs) = xs"
proof (induction n xs rule: chunks.induct)
  case (1 n xs)
  then show ?case by (cases "xs = []") (simp_all add: chunks.simps[of n xs] chunks.simps[of n "[]"])
qed

lemma chunks_length: "b \<in> set (chunks n xs) \<Longrightarrow> length b \<le> n"
proof (induction n xs rule: chunks.induct)
  case (1 n xs)
  then show ?case by (auto simp: chunks.simps[of n xs] split: if_splits)
qed

lemma remove_batches_bound:
  "fst (remove_batches ij k now bs st) \<le> length (concat bs)"
  by (induction bs arbitrary: k st) (simp_all add: split_beta add_mono remove_batch_bound)

text \<open>Undisturbed, the batches remove what one pass over all candidates removes.\<close>

lemma remove_batches_undisturbed:
  "ms_records (snd (remove_batches undisturbed k now bs st)) =
     (\<lambda>i. if i \<in> set (concat bs) \<and> still_expired now st i then None else ms_records st i) \<and>
   (index_inv st \<longrightarrow> index_inv (snd (remove_batches undisturbed k now bs st))) \<and>
   (distinct (concat bs) \<longrightarrow>
      fst (remove_batches undisturbed k now bs st) = card {i \<in> set (concat bs). still_expired now st i})"
proof (induction bs arbitrary: k st)
  case (Cons b bs)
  let ?st = "snd (remove_batch now b st)"
  have still: "still_expired now ?st i \<longleftrightarrow> still_expired now st i \<and> i \<notin> set b" for i
    by (auto simp: still_expired_iff remove_batch_sel)
  have split: "{i \<in> set (concat (b # bs)). still_expired now st i} =
      {i \<in> set b. still_expired now st i} \<union> {i \<in> set (concat bs). still_expired now ?st i}"
    by (auto simp: still)
  have "card {i \<in> set (concat (b # bs)). still_expired now st i} =
      card {i \<in> set b. still_expired now st i} + card {i \<in> set (concat bs). still_expired now ?st i}"
    unfolding split by (rule card_Un_disjoint) (auto simp: still)
  then show ?case
    using Cons.IH[of "k + 1" ?st] remove_batch_count[of now b st] remove_batch_wf[of st now b]
    by (simp add: split_beta remove_batch_sel still fun_eq_iff)
qed simp

lemma batch_size_pos [simp]: "0 < CLEANUP_BATCH_SIZE"
  by (simp add: CLEANUP_BATCH_SIZE_def)

subsection \<open>One call\<close>

lemma removed_candidates:
  fixes now n st
  defines "cands \<equiv> expired_candidates now n st"
  defines "after \<equiv> remove_expired_candidates undisturbed now cands st"
  assumes inv: "index_inv st"
  shows "fst after = min n (card (expired_ids now st))" (is ?count)
    and "ms_records (snd after) = (\<lambda>i. if i \<in> set cands then None else ms_records st i)" (is ?records)
    and "index_inv (snd after)"
    and "expired_ids now (snd after) = expired_ids now st - set cands" (is ?left)
    and "card (expired_ids now (snd after)) = card (expired_ids now st) - n"
proof -
  have sub: "set cands \<subseteq> expired_ids now st" and dist: "distinct cands"
    and len: "length cands = min n (card (expired_ids now st))"
    using mem.oldest_expired[OF inv] mem.oldest_distinct[OF inv] mem.oldest_length[OF inv]
    by (simp_all add: cands_def)
  note sweep = remove_batches_undisturbed[of 1 now "chunks CLEANUP_BATCH_SIZE cands" st]
  have all: "{i \<in> set cands. still_expired now st i} = set cands"
    using sub by (auto simp: expired_ids_def)
  show ?count
    using sweep dist len by (simp add: after_def remove_expired_candidates_def concat_chunks all distinct_card)
  show rec: ?records
    using sweep sub by (auto simp: after_def remove_expired_candidates_def concat_chunks expired_ids_def fun_eq_iff)
  show "index_inv (snd after)"
    using sweep inv by (simp add: after_def remove_expired_candidates_def)
  show left: ?left
    by (auto simp: expired_ids_def still_expired_iff rec)
  show "card (expired_ids now (snd after)) = card (expired_ids now st) - n"
    using card_Diff_subset[OF List.finite_set sub] distinct_card[OF dist] len by (simp add: left)
qed

lemma cleanup_batch_eq:
  "1 \<le> limit \<Longrightarrow> limit \<le> 10000 \<Longrightarrow> cleanup_batch undisturbed limit now st =
   apfst Inr (remove_expired_candidates undisturbed now (expired_candidates now (unat limit) st) st)"
  by (simp add: cleanup_batch_def MAX_CLEANUP_LIMIT_def split_beta Let_def apfst_def map_prod_def)

text \<open>
  C32: a cleanup call with a limit of 1 to 10,000 that is not disturbed removes exactly
  the oldest expired records, as many as the limit allows or all of them, reports their
  number, keeps the index consistent and touches no live or permanent record; a record
  that stays although it is expired does not expire before any record that was removed.
  A limit outside the range is refused without touching the store.
\<close>
theorem cleanup_batch_removes_oldest:
  assumes "index_inv st"
  shows "if 1 \<le> limit \<and> limit \<le> 10000 then
       \<exists>n st'. cleanup_batch undisturbed limit now st = (Inr n, st') \<and> index_inv st' \<and>
         n = min (unat limit) (card (expired_ids now st)) \<and>
         card (expired_ids now st') = card (expired_ids now st) - unat limit \<and>
         (\<forall>i. ms_records st' i \<noteq> ms_records st i \<longrightarrow> ms_records st' i = None \<and> i \<in> expired_ids now st) \<and>
         (\<forall>i j s t e f. i \<in> expired_ids now st' \<and> ms_records st' j = None \<and> ms_records st i = Some s \<and>
            ms_records st j = Some t \<and> s_expiry s = Some e \<and> s_expiry t = Some f \<longrightarrow> f \<le> e)
     else cleanup_batch undisturbed limit now st = (Inl BatchLimit, st)"
proof (cases "1 \<le> limit \<and> limit \<le> 10000")
  case True
  let ?ids = "expired_candidates now (unat limit) st"
  let ?r = "remove_expired_candidates undisturbed now ?ids st"
  note removed = removed_candidates[OF assms, of now "unat limit"]
  have oldest: "f \<le> e" if "i \<in> expired_ids now (snd ?r)" "ms_records (snd ?r) j = None"
      "ms_records st i = Some s" "ms_records st j = Some t" "s_expiry s = Some e" "s_expiry t = Some f"
    for i j s t e f
  proof (rule candidates_oldest[OF assms])
    show "i \<in> expired_ids now st" "i \<notin> set ?ids" using that(1) removed(4) by auto
    show "j \<in> set ?ids" using that(2,4) by (auto simp: removed(2) split: if_splits)
  qed (use that in auto)
  have call: "cleanup_batch undisturbed limit now st = (Inr (fst ?r), snd ?r)"
    using True by (simp add: cleanup_batch_eq apfst_def map_prod_def split_beta)
  have "\<forall>i. ms_records (snd ?r) i \<noteq> ms_records st i \<longrightarrow> ms_records (snd ?r) i = None \<and> i \<in> expired_ids now st"
    using mem.oldest_expired[OF assms, of now "unat limit"] by (auto simp: removed(2))
  then show ?thesis
    unfolding if_P[OF True] using call removed(1,3,5) oldest by blast
next
  case False
  then show ?thesis by (auto simp: cleanup_batch_def MAX_CLEANUP_LIMIT_def)
qed

subsection \<open>The work of one call\<close>

lemma length_filter_less_iff: "length (filter P xs) < length xs \<longleftrightarrow> (\<exists>x \<in> set xs. \<not> P x)"
  by (induction xs) (auto simp: less_Suc_eq_le)

lemma entries_examined_eq:
  "entries_examined now n es = min n (min (length es) (length (takeWhile (\<lambda>(e, i). e < now) es) + 1))"
  by (induction now n es rule: entries_examined.induct) auto

lemma inspected:
  assumes "index_inv st"
  shows "entries_examined now limit (ms_expiries st) =
      min limit (card (expired_ids now st) +
        (if \<exists>i s e. ms_records st i = Some s \<and> s_expiry s = Some e \<and> now \<le> e then 1 else 0))"
proof -
  let ?expired = "\<lambda>(e, i). e < now"
  have past: "takeWhile ?expired (ms_expiries st) = expired_entries now st"
    using assms by (simp add: takeWhile_sorted_expired index_inv_def expired_entries_def)
  have num: "length (expired_entries now st) = card (expired_ids now st)"
    using distinct_card[OF expired_entries_ids(2)[OF assms, of now]] expired_entries_ids(1)[OF assms, of now] by simp
  have mem: "(e, i) \<in> set (ms_expiries st) \<longleftrightarrow> (\<exists>s. ms_records st i = Some s \<and> s_expiry s = Some e)" for e i
    using assms by (simp add: index_inv_def)
  have "length (expired_entries now st) < length (ms_expiries st) \<longleftrightarrow> (\<exists>x \<in> set (ms_expiries st). now \<le> fst x)"
    by (simp add: expired_entries_def length_filter_less_iff not_less split_beta)
  also have "\<dots> \<longleftrightarrow> (\<exists>i s e. ms_records st i = Some s \<and> s_expiry s = Some e \<and> now \<le> e)"
    unfolding Bex_def split_paired_Ex fst_conv mem by blast
  finally have live: "length (expired_entries now st) < length (ms_expiries st) \<longleftrightarrow>
      (\<exists>i s e. ms_records st i = Some s \<and> s_expiry s = Some e \<and> now \<le> e)" .
  have "length (expired_entries now st) \<le> length (ms_expiries st)"
    by (simp add: expired_entries_def)
  then have "min (length (ms_expiries st)) (length (expired_entries now st) + 1) =
      card (expired_ids now st) +
        (if \<exists>i s e. ms_records st i = Some s \<and> s_expiry s = Some e \<and> now \<le> e then 1 else 0)"
    using live num by (cases "length (expired_entries now st) < length (ms_expiries st)") simp_all
  then show ?thesis by (simp add: entries_examined_eq past)
qed

text \<open>
  C33: selecting candidates looks at no more entries of the index than the limit, and reads at
  most one entry that is still live, the one that ends the scan: the work is bounded by the
  limit and by the number of expired records, however many live and permanent records the
  store holds.
\<close>
theorem cleanup_inspection_bounded:
  assumes "index_inv st"
  shows "entries_examined now limit (ms_expiries st) =
      min limit (card (expired_ids now st) +
        (if \<exists>i s e. ms_records st i = Some s \<and> s_expiry s = Some e \<and> now \<le> e then 1 else 0)) \<and>
    length (expired_candidates now limit st) = min limit (card (expired_ids now st))"
  using inspected[OF assms] mem.oldest_length[OF assms] by simp

definition example_record :: "datetime \<Rightarrow> session" where
  "example_record e = example_session\<lparr>s_expiry := Some e\<rparr>"

definition example_memory :: memory_state where
  "example_memory = snd (state_insert ''x'' (example_record 1)
     (snd (state_insert ''y'' (example_record 9) memory_state_default)))"

lemma example_memory_inv: "index_inv example_memory"
  by (simp add: example_memory_def index_inv_insert index_inv_default)

lemma example_memory_expired: "expired_ids 5 example_memory = {''x''}"
  by (auto simp: expired_ids_def still_expired_iff example_memory_def memory_state_default_def
      example_record_def split: if_splits)

theorem cleanup_batch_removes_oldest_witness:
  "fst (cleanup_batch undisturbed 10 5 example_memory) = Inr 1 \<and>
   fst (cleanup_batch undisturbed 0 5 example_memory) = Inl BatchLimit"
  using cleanup_batch_removes_oldest[OF example_memory_inv, of 10 5]
    cleanup_batch_removes_oldest[OF example_memory_inv, of 0 5]
  by (auto simp: example_memory_expired)

theorem cleanup_inspection_bounded_witness:
  "entries_examined 5 1000 (ms_expiries example_memory) = 2"
proof -
  have "ms_records example_memory ''y'' = Some (example_record 9)" "s_expiry (example_record 9) = Some 9"
    by (simp_all add: example_memory_def example_record_def)
  then have "\<exists>i s e. ms_records example_memory i = Some s \<and> s_expiry s = Some e \<and> 5 \<le> e"
    by (intro exI[of _ "''y''"] exI[of _ "example_record 9"] exI[of _ 9]) simp
  then show ?thesis
    using cleanup_inspection_bounded[OF example_memory_inv, of 5 1000] by (simp add: example_memory_expired)
qed

subsection \<open>Cleanup beside other requests\<close>

text \<open>
  The locked steps of a pass: for every batch the state in which its lock was granted and
  the state in which it was released.
\<close>

fun locked_steps ::
  "memory_state interleaving \<Rightarrow> nat \<Rightarrow> datetime \<Rightarrow> string list list \<Rightarrow> memory_state \<Rightarrow>
   (memory_state \<times> memory_state) list" where
  "locked_steps ij k now [] st = []"
| "locked_steps ij k now (b # bs) st =
     (let x = ij k st; y = snd (remove_batch now b x) in (x, y) # locked_steps ij (k + 1) now bs y)"

lemma locked_steps_result:
  "remove_batches ij k now bs st =
     (\<Sum>(x, y) \<leftarrow> locked_steps ij k now bs st. card (dom (ms_records x) - dom (ms_records y)),
      last (st # map snd (locked_steps ij k now bs st)))"
  by (induction bs arbitrary: k st)
     (simp_all add: Let_def split_beta remove_batch_count remove_batch_gone)

lemma locked_steps_start:
  "n < length (locked_steps ij k now bs st) \<Longrightarrow>
   fst (locked_steps ij k now bs st ! n) =
     ij (k + n) ((st # map snd (locked_steps ij k now bs st)) ! n)"
proof (induction bs arbitrary: k st n)
  case (Cons b bs)
  then show ?case
    by (cases n) (simp_all add: Let_def)
qed simp

lemma locked_steps_batch:
  "(x, y) \<in> set (locked_steps ij k now bs st) \<Longrightarrow> \<exists>b \<in> set bs. y = snd (remove_batch now b x)"
  by (induction bs arbitrary: k st) (auto simp: Let_def)

lemma remove_batches_wf:
  assumes "\<forall>k x. index_inv x \<longrightarrow> index_inv (ij k x)" and "index_inv st"
  shows "index_inv (snd (remove_batches ij k now bs st))"
  using assms(2) by (induction bs arbitrary: k st) (simp_all add: split_beta assms(1) remove_batch_wf)

lemma chunks_subset: "0 < n \<Longrightarrow> b \<in> set (chunks n xs) \<Longrightarrow> set b \<subseteq> set xs"
  using concat_chunks[of n xs] by (metis UN_upper set_concat)

lemma remove_batch_step:
  assumes "b \<in> set (chunks CLEANUP_BATCH_SIZE ids)"
  shows "(\<forall>i. ms_records (snd (remove_batch now b x)) i = ms_records x i \<or>
      ms_records (snd (remove_batch now b x)) i = None \<and> i \<in> set ids \<and> still_expired now x i) \<and>
    card (dom (ms_records x) - dom (ms_records (snd (remove_batch now b x)))) \<le> CLEANUP_BATCH_SIZE"
  using chunks_subset[OF batch_size_pos assms] chunks_length[OF assms] remove_batch_bound[of now b x]
  unfolding remove_batch_gone remove_batch_count by (auto simp: remove_batch_sel)

text \<open>
  C31: cleanup beside other requests, whatever they do while a lock is awaited. A call is a
  selection and then a sequence of locked steps; each step starts in what the other
  requests have made of the state after the step before, and it removes nothing but
  selected records that are expired in the very state in which its lock was granted, at
  most a batch of them: a record that was renewed or replaced by then is left as it is. The
  call reports exactly how many records its steps have removed, which is at most the
  limit, and it keeps the index consistent if the others do.
\<close>
theorem cleanup_batch_rechecks:
  assumes "cleanup_batch ij limit now st = (Inr n, st')"
  shows "(\<exists>steps. st' = last (ij 0 st # map snd steps) \<and>
       (\<forall>k < length steps. fst (steps ! k) = ij (Suc k) ((ij 0 st # map snd steps) ! k)) \<and>
       (\<forall>(x, y) \<in> set steps.
          (\<forall>i. ms_records y i = ms_records x i \<or>
             ms_records y i = None \<and> still_expired now x i \<and>
               i \<in> set (expired_candidates now (unat limit) (ij 0 st))) \<and>
          card (dom (ms_records x) - dom (ms_records y)) \<le> CLEANUP_BATCH_SIZE) \<and>
       n = (\<Sum>(x, y) \<leftarrow> steps. card (dom (ms_records x) - dom (ms_records y)))) \<and>
     n \<le> unat limit \<and> unat limit \<le> 10000 \<and>
     (index_inv st \<and> (\<forall>k x. index_inv x \<longrightarrow> index_inv (ij k x)) \<longrightarrow> index_inv st')"
proof -
  let ?ids = "expired_candidates now (unat limit) (ij 0 st)"
  let ?bs = "chunks CLEANUP_BATCH_SIZE ?ids"
  let ?steps = "locked_steps ij 1 now ?bs (ij 0 st)"
  have lim: "1 \<le> limit" "limit \<le> 10000"
    and res: "n = fst (remove_batches ij 1 now ?bs (ij 0 st))"
      "st' = snd (remove_batches ij 1 now ?bs (ij 0 st))"
    using assms by (auto simp: cleanup_batch_def MAX_CLEANUP_LIMIT_def remove_expired_candidates_def
        Let_def split_beta split: if_splits)
  have "n \<le> length ?ids"
    using remove_batches_bound[of ij 1 now ?bs "ij 0 st"] by (simp add: res concat_chunks)
  also have "length ?ids \<le> unat limit"
    by (simp add: expired_candidates_def scan_expired_takeWhile)
  finally have bound: "n \<le> unat limit" .
  have top: "unat limit \<le> 10000"
    using lim(2) by (simp add: word_le_nat_alt)
  have inv: "index_inv st \<and> (\<forall>k x. index_inv x \<longrightarrow> index_inv (ij k x)) \<longrightarrow> index_inv st'"
    using remove_batches_wf[of ij "ij 0 st" 1 now ?bs] by (simp add: res)
  have result: "st' = last (ij 0 st # map snd ?steps)"
      "n = (\<Sum>(x, y) \<leftarrow> ?steps. card (dom (ms_records x) - dom (ms_records y)))"
    using res by (simp_all add: locked_steps_result)
  have starts: "\<forall>k < length ?steps. fst (?steps ! k) = ij (Suc k) ((ij 0 st # map snd ?steps) ! k)"
    using locked_steps_start[of _ ij 1 now ?bs "ij 0 st"] by simp
  have steps: "\<forall>(x, y) \<in> set ?steps.
      (\<forall>i. ms_records y i = ms_records x i \<or>
         ms_records y i = None \<and> still_expired now x i \<and> i \<in> set ?ids) \<and>
      card (dom (ms_records x) - dom (ms_records y)) \<le> CLEANUP_BATCH_SIZE"
  proof (intro ballI, split prod.split, intro allI impI)
    fix step x y
    assume "step \<in> set ?steps" and "step = (x, y)"
    then obtain b where "b \<in> set ?bs" "y = snd (remove_batch now b x)"
      using locked_steps_batch by blast
    then show "(\<forall>i. ms_records y i = ms_records x i \<or>
         ms_records y i = None \<and> still_expired now x i \<and> i \<in> set ?ids) \<and>
      card (dom (ms_records x) - dom (ms_records y)) \<le> CLEANUP_BATCH_SIZE"
      using remove_batch_step[of b ?ids now x] by auto
  qed
  show ?thesis
    by (intro conjI exI[of _ ?steps] result starts steps bound top inv)
qed

text \<open>Another request renews the record \<open>x\<close> after it was selected: it is not removed.\<close>

definition renewing :: "memory_state interleaving" where
  "renewing k st = (if k = 0 then st else snd (state_insert ''x'' (example_record 99) st))"

theorem cleanup_batch_rechecks_witness:
  "\<exists>n st'. cleanup_batch renewing 10 5 example_memory = (Inr n, st') \<and> ms_records st' ''x'' \<noteq> None"
proof -
  obtain n st' where call: "cleanup_batch renewing 10 5 example_memory = (Inr n, st')"
    by (simp add: cleanup_batch_def MAX_CLEANUP_LIMIT_def split_beta Let_def)
  obtain steps where last: "st' = last (renewing 0 example_memory # map snd steps)"
    and starts: "\<forall>k < length steps. fst (steps ! k) =
      renewing (Suc k) ((renewing 0 example_memory # map snd steps) ! k)"
    and removed: "\<forall>(x, y) \<in> set steps. \<forall>i. ms_records y i = ms_records x i \<or>
      ms_records y i = None \<and> still_expired 5 x i"
    using cleanup_batch_rechecks[OF call] by blast
  have "ms_records st' ''x'' \<noteq> None"
  proof (cases steps rule: rev_cases)
    case Nil
    then show ?thesis by (simp add: last renewing_def example_memory_def)
  next
    case (snoc front step)
    have renewed: "ms_records (fst step) ''x'' = Some (example_record 99)"
      using starts[rule_format, of "length front"] by (simp add: snoc renewing_def nth_append)
    then have "\<not> still_expired 5 (fst step) ''x''"
      by (simp add: still_expired_iff example_record_def)
    moreover have "st' = snd step" using last by (simp add: snoc)
    moreover have "ms_records (snd step) ''x'' = ms_records (fst step) ''x'' \<or> still_expired 5 (fst step) ''x''"
      using removed[rule_format, of "(fst step, snd step)"] by (auto simp: snoc)
    ultimately show ?thesis using renewed by simp
  qed
  with call show ?thesis by blast
qed

end
