(* ===== verification/Memory_Facts.thy ===== *)
theory Memory_Facts
  imports Memory_Cleanup
begin

text \<open>
  The critical section of the in-memory store refines the conditional write of the contract,
  so that the store provides it to the lineage protocol and its deletions are final.
\<close>

subsection \<open>The critical section refines the contract\<close>

definition ms_write ::
  "string option \<Rightarrow> string \<Rightarrow> session \<Rightarrow> memory_state \<Rightarrow> memory_state option" where
  "ms_write origin target snap st =
     (case ms_commit origin target snap st of (ok, st') \<Rightarrow> if ok then Some st' else None)"

definition ms_erase :: "string \<Rightarrow> memory_state \<Rightarrow> memory_state" where
  "ms_erase ident st = snd (state_remove ident st)"

definition ms_ids :: "memory_state \<Rightarrow> string set" where
  "ms_ids st = dom (ms_records st)"

lemma ms_commit_refines:
  "(case ms_commit origin target snap st of
      (True, st') \<Rightarrow> conditional_write origin target snap (ms_records st) = Some (ms_records st')
    | (False, st') \<Rightarrow> conditional_write origin target snap (ms_records st) = None \<and> st' = st)"
  by (auto simp: ms_commit_def conditional_write_def Let_def split_beta fun_upd_twist
      split: option.splits if_splits)

lemma ms_write_refines:
  "map_option ms_records (ms_write origin target snap st) =
     conditional_write origin target snap (ms_records st)"
  using ms_commit_refines[of origin target snap st]
  by (auto simp: ms_write_def split: prod.splits bool.splits)

lemma ms_write_Some:
  "ms_write origin target snap st = Some st' \<Longrightarrow>
   conditional_write origin target snap (ms_records st) = Some (ms_records st')"
  using ms_write_refines[of origin target snap st] by simp

lemma ms_write_inv: "index_inv st \<Longrightarrow> ms_write origin target snap st = Some st' \<Longrightarrow> index_inv st'"
  using index_inv_commit[of st origin target snap]
  by (auto simp: ms_write_def split: prod.splits if_splits)

interpretation memory: conditional_backend ms_write ms_erase ms_ids index_inv
proof unfold_locales
  fix origin :: "string option" and t src r b b'
  show "ms_write None t r b = Some b' \<Longrightarrow> t \<notin> ms_ids b \<and> ms_ids b' = insert t (ms_ids b)"
    using spec.commit_insert[OF ms_write_Some] by (simp add: ms_ids_def)
  show "ms_write (Some t) t r b = Some b' \<Longrightarrow> t \<in> ms_ids b \<and> ms_ids b' = ms_ids b"
    using spec.commit_update[OF ms_write_Some] by (simp add: ms_ids_def)
  show "src \<noteq> t \<Longrightarrow> ms_write (Some src) t r b = Some b' \<Longrightarrow>
      src \<in> ms_ids b \<and> t \<notin> ms_ids b \<and> ms_ids b' = insert t (ms_ids b - {src})"
    using spec.commit_rotate[OF _ ms_write_Some] by (simp add: ms_ids_def)
  show "ms_ids (ms_erase t b) = ms_ids b - {t}"
    by (auto simp: ms_ids_def ms_erase_def)
  show "index_inv b \<Longrightarrow> ms_write origin t r b = Some b' \<Longrightarrow> index_inv b'"
    by (rule ms_write_inv)
  show "index_inv b \<Longrightarrow> index_inv (ms_erase t b)"
    by (simp add: ms_erase_def index_inv_remove)
qed

text \<open>
  C1: a coordinated deletion is final. From the moment a task's deletion of a clone
  family has reported success, no sequence of steps of any of the family's handles
  adds a record to the store: saves that were in flight, saves cancelled before, new
  attempts, rotations and further deletions, in any interleaving, only remove records.
  The index stays consistent throughout.
\<close>
theorem deletion_is_final:
  assumes "session_allocated h s" and "index_inv st"
    and "(lineage_step ms_write ms_erase outlives)\<^sup>*\<^sup>* (lineage_start s h st) w" and "ln_revoked w"
    and "(lineage_step ms_write ms_erase outlives)\<^sup>*\<^sup>* w w'"
  shows "dom (ms_records (ln_store w')) \<subseteq> dom (ms_records (ln_store w)) \<and> index_inv (ln_store w')"
proof -
  have "(lineage_step ms_write ms_erase outlives)\<^sup>*\<^sup>* (lineage_start s h st) w'"
    using assms(3,5) by (rule rtranclp_trans)
  then have "index_inv (ln_store w')"
    by (rule memory.store_wf) (simp add: lineage_start_def assms(2))
  with memory.deletion_final[OF assms(1,3-5)] show ?thesis by (simp add: ms_ids_def)
qed

theorem deletion_is_final_witness:
  "dom (ms_records (ln_store (example_deleted ms_erase example_memory))) \<subseteq> {''x'', ''y''}
   \<and> index_inv (ln_store (example_deleted ms_erase example_memory))"
proof -
  have "ln_revoked (example_deleted ms_erase example_memory)"
    by (simp add: example_deleted_def)
  from deletion_is_final[OF example_allocated example_memory_inv
      example_run(2)[of ms_write ms_erase True] this rtranclp.rtrancl_refl]
  show ?thesis
    by (simp add: example_deleted_def ms_erase_def example_memory_def memory_state_default_def)
qed

end
