(* ===== verification/Memory_Handlers.thy ===== *)
theory Memory_Handlers
  imports Memory_Facts
begin

text \<open>
  The handlers of the in-memory store, for every behaviour of the other tasks at their
  suspension points: what \<open>store_session\<close> leaves behind on each of its exits, what a
  cookie loads after its session was stored, and what remains after a deletion.
\<close>

subsection \<open>The exits of a store\<close>

text \<open>
  The handler has captured a snapshot, holds the lifecycle guard and the store lock, and
  sees the heap \<open>h5\<close> and the store \<open>st5\<close>.
\<close>

definition store_locked ::
  "world interleaving \<Rightarrow> session \<Rightarrow> world \<Rightarrow> string option \<Rightarrow> session \<Rightarrow> save_revision \<Rightarrow>
   write_guard \<Rightarrow> heap \<Rightarrow> memory_state \<Rightarrow> bool" where
  "store_locked ij s w attempt snap token wg h5 st5 \<longleftrightarrow>
     (\<exists>h1 h2 h3 st3 h4. persistence_attempt s (fst w) = (Inr attempt, h1) \<and>
        persistence_snapshot s h1 = ((snap, token), h2) \<and> ij 0 (h2, snd w) = (h3, st3) \<and>
        begin_backend_write s attempt False h3 = (Ready (Inr wg), h4) \<and>
        ij 1 (h4, st3) = (h5, st5))"

lemma persistence_origin_Inr:
  "persistence_origin s h = Inr origin \<longleftrightarrow> origin = h_pid h (s_persisted_id s) \<and>
     (case origin of
        None \<Rightarrow> s_fresh s \<and> \<not> h_claimed h (s_creation_claimed s)
      | Some i \<Rightarrow> i = s_id s \<or> s_rotation_from s = Some i)"
  by (auto simp: persistence_origin_def Let_def split: option.splits)

lemma persistence_origin_Inl: "persistence_origin s h = Inl e \<Longrightarrow> e = SessionConflict"
  by (auto simp: persistence_origin_def Let_def split: if_splits option.splits)

lemma persistence_attempt_Inl:
  "persistence_attempt s h = (Inl e, h') \<Longrightarrow> e = SessionConflict \<and> h' = h"
  by (auto simp: persistence_attempt_def dest: persistence_origin_Inl split: if_splits sum.splits)

lemma ms_store_cases:
  assumes "ms_store_session ij s (h, st) = (Ready r, (h', st'))"
  obtains (early) "persistence_attempt s h = (Inl SessionConflict, h)" "r = Inl SessionConflict"
      "h' = h" "st' = st"
  | (refused) attempt h1 snap token h2 h3 e h4 where "persistence_attempt s h = (Inr attempt, h1)"
      "persistence_snapshot s h1 = ((snap, token), h2)" "ij 0 (h2, st) = (h3, st')"
      "begin_backend_write s attempt False h3 = (Ready (Inl e), h4)"
      "r = Inl e" "h' = revision_drop token h4"
  | (conflict) attempt snap token wg h5 where "store_locked ij s (h, st) attempt snap token wg h5 st'"
      "r = Inl SessionConflict" "h' = revision_drop token (write_guard_drop wg h5)"
  | (compensated) attempt snap token wg h5 st5 origin st6 h7 where
      "store_locked ij s (h, st) attempt snap token wg h5 st5"
      "ms_commit origin (s_id s) snap st5 = (True, st6)"
      "h7 = fst (ij 2 (snd (mark_loaded snap h5), st6))" "guard_is_destroyed wg h7"
      "r = Inl SessionConflict" "st' = snd (state_remove (s_id s) st6)"
      "h' = revision_drop token (write_guard_drop (wg\<lparr>wg_settled := True\<rparr>) h7)"
      "(if attempt = None then Inr None else persistence_origin s h5) = Inr origin"
  | (stored) attempt snap token wg h5 st5 origin st6 h7 h8 where
      "store_locked ij s (h, st) attempt snap token wg h5 st5" "\<not> is_destroyed s h5"
      "(if attempt = None then Inr None else persistence_origin s h5) = Inr origin"
      "ms_commit origin (s_id s) snap st5 = (True, st6)"
      "h7 = fst (ij 2 (snd (mark_loaded snap h5), st6))" "\<not> guard_is_destroyed wg h7"
      "ij 3 (h7, st6) = (h8, st')" "r = Inr (s_cookie_value s)"
      "h' = write_guard_drop (wg\<lparr>wg_settled := True\<rparr>) (acknowledge token (mark_persisted s h8))"
proof -
  obtain ra h1 where att: "persistence_attempt s h = (ra, h1)"
    by fastforce
  show ?thesis
  proof (cases ra)
    case (Inl e)
    then show ?thesis
      using assms att persistence_attempt_Inl[of s h e h1] that(1)
      by (simp add: ms_store_session_def)
  next
    case (Inr attempt)
    obtain snap token h2 where ps: "persistence_snapshot s h1 = ((snap, token), h2)"
      by (metis surj_pair)
    obtain h3 st3 where w3: "ij 0 (h2, st) = (h3, st3)"
      by fastforce
    obtain rb h4 where bg: "begin_backend_write s attempt False h3 = (rb, h4)"
      by fastforce
    obtain h5 st5 where w5: "ij 1 (h4, st3) = (h5, st5)"
      by fastforce
    define or5 where "or5 = (if attempt = None then Inr None else persistence_origin s h5)"
    have or5_err: "or5 = Inl e \<Longrightarrow> e = SessionConflict" for e
      using persistence_origin_Inl by (auto simp: or5_def split: if_splits)
    note att = att[unfolded Inr]
    show ?thesis
    proof (cases rb)
      case Pending
      then show ?thesis
        using assms by (simp add: ms_store_session_def Let_def att ps w3 bg)
    next
      case (Ready rg)
      show ?thesis
      proof (cases rg)
        case (Inl e)
        then show ?thesis
          using assms that(2)[OF att ps _ bg[unfolded Ready Inl]] w3
          by (auto simp: ms_store_session_def Let_def att ps bg Ready)
      next
        case (Inr wg)
        have locked: "store_locked ij s (h, st) attempt snap token wg h5 st5"
          using att ps w3 bg Ready Inr w5 by (auto simp: store_locked_def)
        have pre: "(case or5 of
            Inl e \<Rightarrow> (Ready (Inl e), revision_drop token (write_guard_drop wg h5), st5)
          | Inr origin \<Rightarrow>
              if is_destroyed s h5
              then (Ready (Inl SessionConflict), revision_drop token (write_guard_drop wg h5), st5)
              else (case ms_commit origin (s_id s) snap st5 of
                (False, st6) \<Rightarrow>
                  (Ready (Inl SessionConflict), revision_drop token (write_guard_drop wg h5), st6)
              | (True, st6) \<Rightarrow>
                  (let h6 = snd (mark_loaded snap h5);
                       h7 = fst (ij 2 (h6, st6))
                   in case guard_finish wg h7 of
                     (Inl e, wg1) \<Rightarrow>
                       (Ready (Inl e), revision_drop token (write_guard_drop wg1 h7),
                        snd (state_remove (s_id s) st6))
                   | (Inr _, wg1) \<Rightarrow>
                       (let (h8, st8) = ij 3 (h7, st6);
                            h9 = mark_persisted s h8;
                            (s1, h10) = acknowledge_revision s token h9
                        in (Ready (Inr (into_cookie_value s1)), write_guard_drop wg1 h10, st8)))))
            = (Ready r, h', st')"
          using assms
          by (simp add: ms_store_session_def Let_def att ps w3 bg w5[simplified] or5_def Ready Inr)
        show ?thesis
        proof (cases or5)
          case (Inl e)
          then show ?thesis
            using pre Ready \<open>rg = Inr wg\<close> or5_err[OF Inl] that(3)[of attempt snap token wg h5] locked
            by auto
        next
          case (Inr origin)
          obtain ok st6 where cm: "ms_commit origin (s_id s) snap st5 = (ok, st6)"
            by fastforce
          have same: "st6 = st5" if "\<not> ok"
            using ms_commit_refines[of origin "s_id s" snap st5] cm that by simp
          show ?thesis
          proof (cases "is_destroyed s h5 \<or> \<not> ok")
            case True
            then show ?thesis
              using pre Ready \<open>rg = Inr wg\<close> Inr cm same that(3)[of attempt snap token wg h5] locked
              by (auto split: if_splits)
          next
            case False
            define h7 where "h7 = fst (ij 2 (snd (mark_loaded snap h5), st6))"
            obtain h8 st8 where w8: "ij 3 (h7, st6) = (h8, st8)"
              by fastforce
            show ?thesis
            proof (cases "guard_is_destroyed wg h7")
              case True
              then show ?thesis
                using pre Ready \<open>rg = Inr wg\<close> Inr cm False locked
                  that(4)[of attempt snap token wg h5 st5 origin st6 h7] or5_def
                by (auto simp: h7_def guard_is_destroyed_def guard_finish_def Let_def)
            next
              case alive: False
              then show ?thesis
                using pre Ready \<open>rg = Inr wg\<close> Inr cm False locked w8
                  that(5)[of attempt snap token wg h5 st5 origin st6 h7 h8] or5_def
                by (auto simp: h7_def guard_is_destroyed_def guard_finish_def Let_def
                    acknowledge_revision_def into_cookie_value_def)
            qed
          qed
        qed
      qed
    qed
  qed
qed

subsection \<open>Failure\<close>

lemma begin_backend_write_Inr:
  "begin_backend_write s origin outlives h = (Ready (Inr g), h') \<Longrightarrow>
     wg_state g = s_lifecycle s \<and> wg_destroyed g = s_destroy s \<and> \<not> wg_settled g \<and>
     wg_uncertain_on_drop g = (origin \<noteq> Some (s_id s) \<and> outlives) \<and>
     \<not> ws_locked (h_life h (s_lifecycle s)) \<and> \<not> ws_uncertain (h_life h (s_lifecycle s)) \<and>
     h' = upd_life (s_lifecycle s) (\<lambda>w. w\<lparr>ws_locked := True\<rparr>) h \<and> \<not> is_destroyed s h \<and>
     (origin \<noteq> None \<longrightarrow> persistence_origin s h = Inr origin)"
  by (auto simp: begin_backend_write_def begin_guarded_write_def lifecycle_write_def Let_def
      is_destroyed_def persistence_origin_def split: if_splits sum.splits option.splits)

lemma begin_backend_write_Inl:
  "begin_backend_write s origin outlives h = (Ready (Inl e), h') \<Longrightarrow>
     is_conflict e \<and> \<not> ws_locked (h_life h' (s_lifecycle s))"
  by (auto simp: begin_backend_write_def begin_guarded_write_def lifecycle_write_def Let_def
      split: if_splits sum.splits dest!: persistence_origin_Inl)

lemma persistence_snapshot_token:
  "persistence_snapshot s h = ((snap, token), h') \<Longrightarrow> sr_data token = s_data s \<and> s_id snap = s_id s"
  by (auto simp: persistence_snapshot_def snapshot_values_def capture_def Let_def split_beta)

lemma revision_drop_dirty: "sr_data token = s_data s \<Longrightarrow> data_changed s (revision_drop token h)"
  by (simp add: revision_drop_def data_changed_def data_dirty_def)

lemma revision_drop_life [simp]:
  "h_life (revision_drop token h) = h_life h" "h_destroy (revision_drop token h) = h_destroy h"
  "h_life (acknowledge token h) = h_life h" "h_destroy (acknowledge token h) = h_destroy h"
  by (simp_all add: revision_drop_def acknowledge_def)

lemma store_locked_facts:
  assumes "store_locked ij s w attempt snap token wg h5 st5"
  shows "wg_state wg = s_lifecycle s" "wg_destroyed wg = s_destroy s" "\<not> wg_settled wg"
    "\<not> wg_uncertain_on_drop wg" "sr_data token = s_data s" "s_id snap = s_id s"
  using assms begin_backend_write_Inr[of s attempt False] persistence_snapshot_token[of s]
  unfolding store_locked_def by blast+

lemma ms_commit_True:
  "ms_commit origin target snap st = (True, st') \<Longrightarrow>
   conditional_write origin target snap (ms_records st) = Some (ms_records st')"
  using ms_commit_refines[of origin target snap st] by simp

lemma conditional_write_erased:
  assumes "conditional_write origin target r m = Some m'"
  shows "m'(target := None) =
    (case origin of None \<Rightarrow> m(target := None) | Some src \<Rightarrow> m(src := None, target := None))"
  using assms by (auto simp: conditional_write_def fun_eq_iff split: option.splits if_splits)

text \<open>
  A store that fails, whatever other tasks do meanwhile, reports a conflict and only
  ever removes records: any property of the records that removals and the other tasks
  preserve still holds. Unless it failed before it began, it leaves the lifecycle lock
  free and the session's data reported as changed.
\<close>
theorem failed_store_only_removes:
  assumes call: "ms_store_session ij s (h, st) = (Ready (Inl e), (h', st'))"
    and others: "\<And>n k b. Q (ms_records b) \<Longrightarrow> Q (ms_records (snd (ij n (k, b))))"
    and removal: "\<And>m i. Q m \<Longrightarrow> Q (m(i := None))"
    and start: "Q (ms_records st)"
  shows "is_conflict e \<and> Q (ms_records st') \<and>
    (h' = h \<or> \<not> ws_locked (h_life h' (s_lifecycle s)) \<and> data_changed s h')"
proof -
  have q3: "Q (ms_records st3)" if "ij 0 (k, st) = (h3, st3)" for k h3 st3
    using others[of st 0 k] start that by simp
  have q5: "Q (ms_records st5)"
    if "store_locked ij s (h, st) attempt snap token wg h5 st5" for attempt snap token wg h5 st5
  proof -
    obtain k h3 st3 h4 where "ij 0 (k, st) = (h3, st3)" "ij 1 (h4, st3) = (h5, st5)"
      using \<open>store_locked _ _ _ _ _ _ _ _ _\<close> by (auto simp: store_locked_def)
    then show ?thesis using q3[of k h3 st3] others[of st3 1 h4] by simp
  qed
  from call show ?thesis
  proof (cases rule: ms_store_cases)
    case early
    then show ?thesis using start by simp
  next
    case (refused attempt h1 snap token h2 h3 e' h4)
    then show ?thesis
      using q3[OF refused(3)] begin_backend_write_Inl[OF refused(4)]
        persistence_snapshot_token[OF refused(2)] revision_drop_dirty[of token s h4]
      by simp
  next
    case (conflict attempt snap token wg h5)
    then show ?thesis
      using q5[OF conflict(1)] store_locked_facts[OF conflict(1)] revision_drop_dirty[of token s]
      by simp
  next
    case (compensated attempt snap token wg h5 st5 origin st6 h7)
    have "Q ((ms_records st6)(s_id s := None))"
      using conditional_write_erased[OF ms_commit_True[OF compensated(2)]] q5[OF compensated(1)]
        removal by (simp split: option.splits)
    then show ?thesis
      using compensated store_locked_facts[OF compensated(1)] revision_drop_dirty[of token s]
      by simp
  qed simp
qed

text \<open>
  A session that any handle of its family destroys before its store has finished its
  write is not stored: the call ends in a conflict, no cookie is issued.
\<close>
theorem destroyed_store_fails:
  assumes call: "ms_store_session ij s (h, st) = (Ready r, (h', st'))"
    and destroyed: "n < 3" "\<And>w. is_destroyed s (fst (ij n w))"
  shows "\<exists>e. r = Inl e \<and> is_conflict e"
  using call
proof (cases rule: ms_store_cases)
  case (refused attempt h1 snap token h2 h3 e h4)
  then show ?thesis using begin_backend_write_Inl by auto
next
  case (stored attempt snap token wg h5 st5 origin st6 h7 h8)
  have "is_destroyed s h7"
  proof -
    have flag: "is_destroyed s (snd (mark_loaded snap k)) = is_destroyed s k" for k
      by (simp add: mark_loaded_def is_destroyed_def)
    have up: "is_destroyed s (upd_life l f k) = is_destroyed s k" for l f k
      by (simp add: is_destroyed_def)
    obtain h2 h3 st3 h4 where w: "ij 0 (h2, st) = (h3, st3)"
        "begin_backend_write s attempt False h3 = (Ready (Inr wg), h4)" "ij 1 (h4, st3) = (h5, st5)"
      using stored(1) by (auto simp: store_locked_def)
    have alive: "\<not> is_destroyed s h3" "\<not> is_destroyed s h5"
      using begin_backend_write_Inr[OF w(2)] stored(2) by auto
    have "n \<noteq> 0"
      using alive destroyed(2)[of "(h2, st)"] w by (metis fst_conv)
    moreover have "n \<noteq> 1"
      using alive destroyed(2)[of "(h4, st3)"] w by (metis fst_conv)
    ultimately have "n = 2" using destroyed(1) by simp
    then show ?thesis using destroyed(2) stored(5) by simp
  qed
  then show ?thesis
    using stored(6) store_locked_facts[OF stored(1)]
    by (simp add: guard_is_destroyed_def is_destroyed_def)
qed auto

definition holding_a :: memory_state where
  "holding_a = snd (state_insert ''a'' example_session memory_state_default)"

definition destroying :: "world interleaving" where
  "destroying n w = (if n = 2 then (session_destroy example_session (fst w), snd w) else w)"

theorem failed_store_only_removes_witness:
  "\<exists>e h' st'. ms_store_session undisturbed example_session (example_heap, memory_state_default) =
       (Ready (Inl e), (h', st')) \<and> is_conflict e \<and> ms_records st' = Map.empty"
proof -
  obtain e h' st' where call:
    "ms_store_session undisturbed example_session (example_heap, memory_state_default) =
       (Ready (Inl e), (h', st'))"
    by (simp add: ms_store_session_def persistence_attempt_def session_defs Let_def split_beta
        begin_backend_write_def begin_guarded_write_def lifecycle_write_def persistence_origin_def
        example_session_def ms_commit_def memory_state_default_def)
  show ?thesis
    using failed_store_only_removes[OF call, of "\<lambda>m. m = Map.empty"] call
    by (simp add: memory_state_default_def)
qed

theorem destroyed_store_fails_witness:
  "\<exists>e h' st'. ms_store_session destroying example_session (example_heap, holding_a) =
       (Ready (Inl e), (h', st')) \<and> is_conflict e"
proof -
  obtain r h' st' where call:
    "ms_store_session destroying example_session (example_heap, holding_a) = (Ready r, (h', st'))"
    by (simp add: ms_store_session_def persistence_attempt_def session_defs Let_def split_beta
        begin_backend_write_def begin_guarded_write_def lifecycle_write_def persistence_origin_def
        example_session_def ms_commit_def memory_state_default_def destroying_def holding_a_def
        guard_finish_def guard_is_destroyed_def)
  show ?thesis
    using destroyed_store_fails[OF call, of 2] call
    by (auto simp: destroying_def is_destroyed_def session_destroy_def)
qed

subsection \<open>What a cookie loads after its session was stored\<close>

text \<open>
  The store's critical section refines the conditional write that the documentation
  of \<open>SessionSave::origin\<close> asks of a backend, and leaves the state alone on a conflict.
\<close>
theorem memory_commit_refines_contract:
  "conditional_write origin target snap (ms_records st) =
     (if fst (ms_commit origin target snap st)
      then Some (ms_records (snd (ms_commit origin target snap st))) else None) \<and>
   (fst (ms_commit origin target snap st) \<or> snd (ms_commit origin target snap st) = st)"
  using ms_commit_refines[of origin target snap st]
  by (cases "ms_commit origin target snap st") (auto split: bool.splits)

lemma conditional_write_records:
  "conditional_write origin target r m = Some m' \<Longrightarrow>
   m' i = (if i = target then Some r else if origin = Some i then None else m i)"
  by (auto simp: conditional_write_def split: option.splits if_splits)

text \<open>An undisturbed store that is admitted, with the heap and the store it ends in.\<close>

definition lineage_idle :: "session \<Rightarrow> heap \<Rightarrow> bool" where
  "lineage_idle s h \<longleftrightarrow> \<not> ws_locked (h_life h (s_lifecycle s)) \<and>
     \<not> ws_uncertain (h_life h (s_lifecycle s)) \<and> \<not> is_destroyed s h"

lemma save_begins:
  assumes alloc: "session_allocated h s" and idle: "lineage_idle s h"
    and origin: "persistence_origin s h = Inr origin"
  obtains ha snap token hb hc g where "persistence_attempt s h = (Inr origin, ha)"
    "\<not> is_destroyed s ha" "persistence_snapshot s ha = ((snap, token), hb)"
    "begin_backend_write s origin outlives hb = (Ready (Inr g), hc)"
    "g = \<lparr>wg_state = s_lifecycle s, wg_destroyed = s_destroy s, wg_receipt = None,
       wg_uncertain_on_drop = (origin \<noteq> Some (s_id s) \<and> outlives), wg_settled = False\<rparr>"
    "snap = \<lparr>s_id = s_id s, s_expiry = s_expiry s, s_data = h_next h, s_cookie_value = None,
       s_metadata_changed = False, s_persisted_id = h_next h, s_rotation_from = None,
       s_fresh = False, s_creation_claimed = h_next h, s_lifecycle = h_next h, s_destroy = h_next h\<rparr>"
    "token = \<lparr>sr_data = s_data s, sr_revision = sd_revision (h_data h (s_data s))\<rparr>"
    "origin = None \<or> persistence_origin s hc = Inr origin"
    "h_data hb (h_next h) = session_data_of (sd_values (h_data h (s_data s)))"
    "h_data hc = h_data hb" "h_data hb (s_data s) = capture_data (h_data h (s_data s))"
    "h_pid hc (s_persisted_id s) = h_pid h (s_persisted_id s)" "h_pid hc (h_next h) = None"
    "\<not> h_destroy hc (s_destroy s)" "\<not> h_destroy hc (h_next h)" "h_next hc = Suc (h_next h)"
    "\<not> ws_uncertain (h_life hc (s_lifecycle s))"
proof -
  define ha where "ha = (if origin = None then set_claimed (s_creation_claimed s) True h else h)"
  have att: "persistence_attempt s h = (Inr origin, ha)"
    using idle persistence_origin_Inr[THEN iffD1, OF origin]
    unfolding persistence_attempt_def lineage_idle_def ha_def origin
    by (auto split: option.splits)
  obtain snap token hb where ps: "persistence_snapshot s ha = ((snap, token), hb)"
    by (metis surj_pair)
  have ha: "h_next ha = h_next h" "h_data ha = h_data h" "h_pid ha = h_pid h"
      "h_life ha = h_life h" "h_destroy ha = h_destroy h"
    by (simp_all add: ha_def)
  have snap: "snap = \<lparr>s_id = s_id s, s_expiry = s_expiry s, s_data = h_next h, s_cookie_value = None,
        s_metadata_changed = False, s_persisted_id = h_next h, s_rotation_from = None,
        s_fresh = False, s_creation_claimed = h_next h, s_lifecycle = h_next h, s_destroy = h_next h\<rparr>"
      "token = \<lparr>sr_data = s_data s, sr_revision = sd_revision (h_data h (s_data s))\<rparr>"
      "hb = upd_data (s_data s) capture_data
         (snd (alloc_family (session_data_of (sd_values (h_data h (s_data s)))) None (is_destroyed s h) ha))"
    using ps alloc by (auto simp: persistence_snapshot_def snapshot_values_def capture_def Let_def
        split_beta ha session_allocated_def is_destroyed_def)
  have hb: "h_pid hb (s_persisted_id s) = h_pid h (s_persisted_id s)"
      "h_life hb (s_lifecycle s) = h_life h (s_lifecycle s)"
      "h_destroy hb (s_destroy s) = h_destroy h (s_destroy s)"
      "h_destroy hb (h_next h) = h_destroy h (s_destroy s)"
      "h_pid hb (h_next h) = None" "h_next hb = Suc (h_next h)"
      "h_data hb (h_next h) = session_data_of (sd_values (h_data h (s_data s)))"
      "h_data hb (s_data s) = capture_data (h_data h (s_data s))"
    using alloc by (auto simp: snap ha session_allocated_def is_destroyed_def)
  define hc where "hc = upd_life (s_lifecycle s) (\<lambda>w. w\<lparr>ws_locked := True\<rparr>) hb"
  have origin_hc: "origin = None \<or> persistence_origin s hc = Inr origin"
    using origin hb by (auto simp: persistence_origin_Inr hc_def split: option.splits)
  have bg: "begin_backend_write s origin outlives hb = (Ready (Inr
      \<lparr>wg_state = s_lifecycle s, wg_destroyed = s_destroy s, wg_receipt = None,
       wg_uncertain_on_drop = (origin \<noteq> Some (s_id s) \<and> outlives), wg_settled = False\<rparr>), hc)"
    using idle origin_hc hb
    by (auto simp: begin_backend_write_def begin_guarded_write_def lifecycle_write_def
        lineage_idle_def is_destroyed_def hc_def Let_def)
  show thesis
    by (rule that[OF att _ ps bg refl snap(1,2) origin_hc])
       (use idle hb in \<open>simp_all add: lineage_idle_def is_destroyed_def ha hc_def\<close>)
qed

lemma stored_undisturbed:
  assumes alloc: "session_allocated h s" and idle: "lineage_idle s h"
    and origin: "persistence_origin s h = Inr origin"
    and admitted: "conditional_write origin (s_id s) s (ms_records st) \<noteq> None"
  shows "\<exists>h' st' snap. ms_store_session undisturbed s (h, st) = (Ready (Inr (s_cookie_value s)), (h', st')) \<and>
     s_id snap = s_id s \<and> s_expiry snap = s_expiry s \<and> session_allocated h' snap \<and>
     sd_values (h_data h' (s_data snap)) = sd_values (h_data h (s_data s)) \<and> \<not> is_destroyed snap h' \<and>
     ms_records st' (s_id s) = Some snap \<and>
     (\<forall>i. i \<noteq> s_id s \<longrightarrow> ms_records st' i = (if origin = Some i then None else ms_records st i)) \<and>
     lineage_idle s h' \<and> h_pid h' (s_persisted_id s) = Some (s_id s) \<and>
     (sd_active_saves (h_data h (s_data s)) = 0 \<longrightarrow> \<not> data_dirty (h_data h' (s_data s)))"
proof -
  obtain ha snap token hb hc g where run: "persistence_attempt s h = (Inr origin, ha)"
      "persistence_snapshot s ha = ((snap, token), hb)"
      "begin_backend_write s origin False hb = (Ready (Inr g), hc)"
    and g: "g = \<lparr>wg_state = s_lifecycle s, wg_destroyed = s_destroy s, wg_receipt = None,
       wg_uncertain_on_drop = False, wg_settled = False\<rparr>"
    and snap: "snap = \<lparr>s_id = s_id s, s_expiry = s_expiry s, s_data = h_next h, s_cookie_value = None,
       s_metadata_changed = False, s_persisted_id = h_next h, s_rotation_from = None,
       s_fresh = False, s_creation_claimed = h_next h, s_lifecycle = h_next h, s_destroy = h_next h\<rparr>"
    and token: "token = \<lparr>sr_data = s_data s, sr_revision = sd_revision (h_data h (s_data s))\<rparr>"
    and origin_hc: "origin = None \<or> persistence_origin s hc = Inr origin"
    and data: "h_data hc (h_next h) = session_data_of (sd_values (h_data h (s_data s)))"
      "h_data hc (s_data s) = capture_data (h_data h (s_data s))"
    and hc: "h_pid hc (s_persisted_id s) = h_pid h (s_persisted_id s)" "h_pid hc (h_next h) = None"
      "\<not> h_destroy hc (s_destroy s)" "\<not> h_destroy hc (h_next h)" "h_next hc = Suc (h_next h)"
      "\<not> ws_uncertain (h_life hc (s_lifecycle s))"
    by (rule save_begins[OF alloc idle origin, of False]) auto
  obtain st6 where cm: "ms_commit origin (s_id s) snap st = (True, st6)"
      "conditional_write origin (s_id s) snap (ms_records st) = Some (ms_records st6)"
    using ms_commit_refines[of origin "s_id s" snap st] admitted
    by (cases "ms_commit origin (s_id s) snap st")
       (auto simp: conditional_write_def split: option.splits if_splits bool.splits)
  define hd where "hd = mark_persisted s (mark_persisted snap hc)"
  have recheck: "(if origin = None then Inr None else persistence_origin s hc) = Inr origin"
    using origin_hc by auto
  have call: "ms_store_session undisturbed s (h, st) =
      (Ready (Inr (s_cookie_value s)),
       (write_guard_drop (g\<lparr>wg_settled := True\<rparr>) (acknowledge token hd), st6))"
    by (simp add: ms_store_session_def Let_def run hd_def mark_loaded_def recheck cm(1)
        acknowledge_revision_def into_cookie_value_def guard_finish_def guard_is_destroyed_def
        is_destroyed_def hc g)
  have pid: "h_pid hd (s_persisted_id s) = Some (s_id s)"
    using origin alloc hc
    by (auto simp: hd_def mark_persisted_def snap Let_def session_allocated_def
        persistence_origin_Inr split: option.splits)
  have recs: "ms_records st6 (s_id s) = Some snap"
      "i \<noteq> s_id s \<Longrightarrow> ms_records st6 i = (if origin = Some i then None else ms_records st i)" for i
    using conditional_write_records[OF cm(2)] by simp_all
  have hd: "h_data hd = h_data hc" "h_destroy hd = h_destroy hc" "h_next hd = h_next hc"
      "h_life hd = h_life hc"
    by (simp_all add: hd_def)
  show ?thesis
    using call recs pid alloc hc data
    by (intro exI[of _ "write_guard_drop (g\<lparr>wg_settled := True\<rparr>) (acknowledge token hd)"]
        exI[of _ st6] exI[of _ snap])
       (auto simp: snap token g session_allocated_def acknowledge_def hd is_destroyed_def
        lineage_idle_def data_dirty_def)
qed

lemma load_record:
  assumes "id_from_cookie_value p cookie = Inr (s_id r)" "ms_records st (s_id r) = Some r"
    and "session_allocated h r" "\<not> is_destroyed r h" "\<not> is_expired now1 r" "\<not> is_expired now2 r"
  shows "\<exists>t h'. ms_load_session p now1 now2 cookie (h, st) = (Inr (Some t), (h', st)) \<and>
     s_id t = s_id r \<and> s_expiry t = s_expiry r \<and>
     (\<forall>k. get_raw k t h' = sd_values (h_data h (s_data r)) k) \<and>
     \<not> needs_persist t h' \<and> persistence_origin t h' = Inr (Some (s_id r)) \<and> lineage_idle t h' \<and>
     s_data t \<noteq> s_data r"
  using assms
  by (auto simp: ms_load_session_def session_snapshot_def snapshot_values_def Let_def split_beta
      validate_loaded_def is_expired_def is_destroyed_def session_allocated_def get_raw_def
      needs_persist_def data_changed_def data_dirty_def persistence_origin_def lineage_idle_def)

text \<open>
  C7: a store that is not disturbed and whose write the store admits succeeds with the
  cookie the session carries. Loading the identity's cookie afterwards, while the session
  is live, yields a clean session with its identity, expiry and values, on data of its
  own and with the authority to update its record; once it is expired, it yields none.
  The source of a rotation no longer loads and no other record has changed.
\<close>
theorem stored_session_loads:
  assumes "session_allocated h s" and "lineage_idle s h" and "persistence_origin s h = Inr origin"
    and "conditional_write origin (s_id s) s (ms_records st) \<noteq> None"
    and "id_from_cookie_value p cookie = Inr (s_id s)"
  shows "\<exists>h' st'. ms_store_session undisturbed s (h, st) = (Ready (Inr (s_cookie_value s)), (h', st')) \<and>
     (if is_expired now1 s then fst (ms_load_session p now1 now2 cookie (h', st')) = Inr None
      else \<not> is_expired now2 s \<longrightarrow>
       (\<exists>t h2. ms_load_session p now1 now2 cookie (h', st') = (Inr (Some t), (h2, st')) \<and>
         s_id t = s_id s \<and> s_expiry t = s_expiry s \<and> (\<forall>k. get_raw k t h2 = get_raw k s h) \<and>
         \<not> needs_persist t h2 \<and> persistence_origin t h2 = Inr (Some (s_id s)))) \<and>
     (\<forall>i. i \<noteq> s_id s \<longrightarrow> ms_records st' i = (if origin = Some i then None else ms_records st i)) \<and>
     (sd_active_saves (h_data h (s_data s)) = 0 \<longrightarrow> \<not> data_dirty (h_data h' (s_data s)))"
proof -
  obtain h' st' snap where stored:
      "ms_store_session undisturbed s (h, st) = (Ready (Inr (s_cookie_value s)), (h', st'))"
      "s_id snap = s_id s" "s_expiry snap = s_expiry s" "session_allocated h' snap"
      "sd_values (h_data h' (s_data snap)) = sd_values (h_data h (s_data s))"
      "\<not> is_destroyed snap h'" "ms_records st' (s_id s) = Some snap"
      "\<forall>i. i \<noteq> s_id s \<longrightarrow> ms_records st' i = (if origin = Some i then None else ms_records st i)"
      "sd_active_saves (h_data h (s_data s)) = 0 \<longrightarrow> \<not> data_dirty (h_data h' (s_data s))"
    using stored_undisturbed[OF assms(1-4)] by (elim exE conjE) (rule that)
  have same: "is_expired n snap = is_expired n s" for n
    using stored(3) by (simp add: is_expired_def)
  have expired: "fst (ms_load_session p now1 now2 cookie (h', st')) = Inr None" if "is_expired now1 s"
    using that assms(5) stored(7) same by (simp add: ms_load_session_def)
  have live: "\<exists>t h2. ms_load_session p now1 now2 cookie (h', st') = (Inr (Some t), (h2, st')) \<and>
      s_id t = s_id s \<and> s_expiry t = s_expiry s \<and> (\<forall>k. get_raw k t h2 = get_raw k s h) \<and>
      \<not> needs_persist t h2 \<and> persistence_origin t h2 = Inr (Some (s_id s))"
    if fresh: "\<not> is_expired now1 s" "\<not> is_expired now2 s"
  proof -
    have key: "id_from_cookie_value p cookie = Inr (s_id snap)" "ms_records st' (s_id snap) = Some snap"
      using assms(5) stored(2,7) by simp_all
    obtain t h2 where "ms_load_session p now1 now2 cookie (h', st') = (Inr (Some t), (h2, st'))"
        "s_id t = s_id snap" "s_expiry t = s_expiry snap"
        "\<forall>k. get_raw k t h2 = sd_values (h_data h' (s_data snap)) k"
        "\<not> needs_persist t h2" "persistence_origin t h2 = Inr (Some (s_id snap))"
      using load_record[OF key stored(4,6), of now1 now2] fresh
      by (simp add: same) (elim exE conjE, rule that)
    then show ?thesis
      using stored(2,3,5) by (intro exI[of _ t] exI[of _ h2]) (simp add: get_raw_def)
  qed
  show ?thesis
    using stored(1,8,9) expired live by (intro exI[of _ h'] exI[of _ st']) simp
qed

definition fresh_reference :: session where
  "fresh_reference = fresh_session\<lparr>s_id := reference_id\<rparr>"

theorem stored_session_loads_witness:
  "\<exists>h' st' t h2. ms_store_session undisturbed fresh_reference (fresh_heap, memory_state_default) =
       (Ready (Inr (s_cookie_value fresh_reference)), (h', st')) \<and>
     ms_load_session reference 0 0 reference_cookie (h', st') = (Inr (Some t), (h2, st')) \<and>
     s_id t = reference_id"
proof -
  have live: "\<not> is_expired 0 fresh_reference" "s_id fresh_reference = reference_id"
    by (simp_all add: fresh_reference_def fresh_session_def example_session_def is_expired_def)
  have pre: "session_allocated fresh_heap fresh_reference" "lineage_idle fresh_reference fresh_heap"
      "persistence_origin fresh_reference fresh_heap = Inr None"
      "conditional_write None (s_id fresh_reference) fresh_reference (ms_records memory_state_default) \<noteq> None"
      "id_from_cookie_value reference reference_cookie = Inr (s_id fresh_reference)"
    by (simp_all add: session_allocated_def lineage_idle_def is_destroyed_def persistence_origin_def
        fresh_reference_def fresh_session_def example_session_def conditional_write_def
        memory_state_default_def)
  show ?thesis
    using stored_session_loads[OF pre, of 0 0] live by auto
qed

subsection \<open>Deletion\<close>

text \<open>
  C34: \<open>destroy_session\<close> always leaves the session destroyed, so that no save of its family
  can begin, and the lifecycle lock free. If it succeeds, the record that the family
  persisted, the source of an unsaved rotation included, is gone and its cookie loads
  nothing; it fails only if an earlier write is uncertain, and then it removes nothing.
\<close>
theorem destroy_session_outcomes:
  assumes call: "ms_destroy_session ij s (h, st) = (Ready r, (h', st'))"
    and kept: "\<And>n w. is_destroyed s (fst w) \<Longrightarrow> is_destroyed s (fst (ij n w))"
    and target: "deletion_target s (fst (ij 0 (session_destroy s h, st))) = target"
  shows "is_destroyed s h' \<and> fst (persistence_attempt s h') = Inl SessionConflict \<and>
    \<not> ws_locked (h_life h' (s_lifecycle s)) \<and>
    (case r of
       Inl e \<Rightarrow> e = UncertainWrite \<and> st' = snd (ij 0 (session_destroy s h, st))
     | Inr _ \<Rightarrow> ms_records st' target = None \<and>
         (id_from_cookie_value p cookie = Inr target \<longrightarrow>
            ms_load_session p now1 now2 cookie (h', st') = (Inr None, (h', st'))))"
proof -
  obtain h1 st1 where w1: "ij 0 (session_destroy s h, st) = (h1, st1)"
    by fastforce
  obtain h3 st3 where w3: "ij 1 (upd_life (s_lifecycle s) (\<lambda>w. w\<lparr>ws_locked := True\<rparr>) h1, st1) = (h3, st3)"
    by fastforce
  have d1: "is_destroyed s h1"
    using kept[of "(session_destroy s h, st)" 0] w1 by (simp add: is_destroyed_def session_destroy_def)
  have d3: "is_destroyed s h3"
    using kept[of "(upd_life (s_lifecycle s) (\<lambda>w. w\<lparr>ws_locked := True\<rparr>) h1, st1)" 1] w3 d1
    by (simp add: is_destroyed_def)
  have t: "deletion_target s (upd_life l f h1) = target" for l f
    using target w1 by (simp add: deletion_target_def persistence_origin_def)
  consider (uncertain) "ws_uncertain (h_life h1 (s_lifecycle s))" "\<not> ws_locked (h_life h1 (s_lifecycle s))"
      "r = Inl UncertainWrite" "h' = h1" "st' = st1"
    | (removed) "r = Inr ()" "h' = delete_guard_drop \<lparr>dg_state = s_lifecycle s, dg_id = target\<rparr> h3"
      "st' = snd (state_remove target st3)"
    using call w1 w3 t
    by (auto simp: ms_destroy_session_def Let_def begin_delete_locked_def lifecycle_delete_def
        split: if_splits)
  then show ?thesis
  proof cases
    case uncertain
    then show ?thesis using d1 w1 by (simp add: persistence_attempt_def)
  next
    case removed
    then show ?thesis using d3
      by (auto simp: persistence_attempt_def is_destroyed_def ms_load_session_def)
  qed
qed

theorem destroy_session_outcomes_witness:
  "\<exists>h' st'. ms_destroy_session undisturbed example_session (example_heap, holding_a) =
       (Ready (Inr ()), (h', st')) \<and> ms_records st' ''a'' = None"
proof -
  obtain h' st' where call:
    "ms_destroy_session undisturbed example_session (example_heap, holding_a) = (Ready (Inr ()), (h', st'))"
    by (simp add: ms_destroy_session_def Let_def begin_delete_locked_def lifecycle_delete_def
        session_destroy_def example_session_def)
  have "deletion_target example_session (fst (undisturbed 0 (session_destroy example_session example_heap, holding_a)))
      = ''a''"
    by (simp add: deletion_target_def persistence_origin_def session_destroy_def example_session_def)
  from destroy_session_outcomes[OF call _ this] call show ?thesis
    by simp
qed

end
