(* ===== verification/Wire_Format.thy ===== *)
theory Wire_Format
  imports Memory_Handlers
begin

text \<open>
  Serialized sessions. The codecs of other crates (\<open>postcard\<close> and \<open>serde_json\<close> at the type
  \<open>Session\<close>) are arguments with the laws the stores rely on; what the crate itself decides,
  the wire fields and the values of the skipped ones, is a definition. A concrete codec
  shows that the laws can hold.
\<close>

subsection \<open>Codecs\<close>

text \<open>
  \<open>to_stdvec\<close>, \<open>to_slice\<close> into a buffer of the given length, \<open>from_bytes\<close> and
  \<open>take_from_bytes\<close> of \<open>postcard\<close>; \<open>to_string\<close> and \<open>from_str\<close> of \<open>serde_json\<close>.
\<close>

record codec =
  wc_to_stdvec :: "wire_session \<Rightarrow> error + byte list"
  wc_to_slice :: "wire_session \<Rightarrow> nat \<Rightarrow> error + byte list"
  wc_from_bytes :: "byte list \<Rightarrow> error + wire_session"
  wc_take_from_bytes :: "byte list \<Rightarrow> error + wire_session \<times> byte list"
  wc_to_json :: "wire_session \<Rightarrow> error + string"
  wc_from_json :: "string \<Rightarrow> error + wire_session"

definition codec_laws :: "codec \<Rightarrow> bool" where
  "codec_laws c \<longleftrightarrow>
     (\<forall>w bs rest. wc_to_stdvec c w = Inr bs \<longrightarrow> wc_take_from_bytes c (bs @ rest) = Inr (w, rest)) \<and>
     (\<forall>bs. wc_from_bytes c bs = map_sum id fst (wc_take_from_bytes c bs)) \<and>
     (\<forall>w n bs. wc_to_slice c w n = Inr bs \<longleftrightarrow> wc_to_stdvec c w = Inr bs \<and> length bs \<le> n) \<and>
     (\<forall>w j. wc_to_json c w = Inr j \<longrightarrow> wc_from_json c j = Inr w)"

lemma codec_lawsD:
  assumes "codec_laws c"
  shows "wc_to_stdvec c w = Inr bs \<Longrightarrow> wc_take_from_bytes c (bs @ rest) = Inr (w, rest)"
    "wc_to_stdvec c w = Inr bs \<Longrightarrow> wc_take_from_bytes c bs = Inr (w, [])"
    "wc_to_stdvec c w = Inr bs \<Longrightarrow> wc_from_bytes c bs = Inr w"
    "wc_to_slice c w n = Inr bs \<longleftrightarrow> wc_to_stdvec c w = Inr bs \<and> length bs \<le> n"
    "wc_to_json c w = Inr j \<Longrightarrow> wc_from_json c j = Inr w"
proof -
  note laws = assms[unfolded codec_laws_def]
  show take: "wc_to_stdvec c w = Inr bs \<Longrightarrow> wc_take_from_bytes c (bs @ rest) = Inr (w, rest)" for rest
    using laws by blast
  then show all: "wc_to_stdvec c w = Inr bs \<Longrightarrow> wc_take_from_bytes c bs = Inr (w, [])"
    using take[of "[]"] by simp
  have "wc_from_bytes c bs = map_sum id fst (wc_take_from_bytes c bs)"
    using laws by blast
  then show "wc_to_stdvec c w = Inr bs \<Longrightarrow> wc_from_bytes c bs = Inr w"
    using all by simp
  show "wc_to_slice c w n = Inr bs \<longleftrightarrow> wc_to_stdvec c w = Inr bs \<and> length bs \<le> n"
    using laws by blast
  show "wc_to_json c w = Inr j \<Longrightarrow> wc_from_json c j = Inr w"
    using laws by blast
qed

subsection \<open>The wire fields of a session\<close>

text \<open>What the derived \<open>Serialize\<close> writes of a session: the fields without \<open>serde(skip)\<close>.\<close>

definition wire_of :: "session \<Rightarrow> heap \<Rightarrow> wire_session" where
  "wire_of s h = (s_id s, s_expiry s, sd_values (h_data h (s_data s)))"

text \<open>What the derived \<open>Deserialize\<close> builds: every skipped field has its default.\<close>

definition session_of_wire :: "wire_session \<Rightarrow> heap \<Rightarrow> session \<times> heap" where
  "session_of_wire w h =
     (let (ident, expiry, vs) = w;
          (n, h1) = alloc_family (session_data_of vs) None False h
      in (\<lparr>s_id = ident, s_expiry = expiry, s_data = n, s_cookie_value = None,
           s_metadata_changed = False, s_persisted_id = n, s_rotation_from = None,
           s_fresh = False, s_creation_claimed = n, s_lifecycle = n, s_destroy = n\<rparr>, h1))"

lemma session_of_wire_sel [simp]:
  "s_id (fst (session_of_wire w h)) = fst w"
  "s_expiry (fst (session_of_wire w h)) = fst (snd w)"
  "s_data (fst (session_of_wire w h)) = h_next h"
  "s_cookie_value (fst (session_of_wire w h)) = None"
  "\<not> s_metadata_changed (fst (session_of_wire w h))"
  "s_persisted_id (fst (session_of_wire w h)) = h_next h"
  "s_rotation_from (fst (session_of_wire w h)) = None"
  "\<not> s_fresh (fst (session_of_wire w h))"
  "s_creation_claimed (fst (session_of_wire w h)) = h_next h"
  "s_lifecycle (fst (session_of_wire w h)) = h_next h"
  "s_destroy (fst (session_of_wire w h)) = h_next h"
  by (simp_all add: session_of_wire_def Let_def split_beta)

lemma session_of_wire_heap:
  "snd (session_of_wire w h) = snd (alloc_family (session_data_of (snd (snd w))) None False h)"
  by (simp add: session_of_wire_def Let_def split_beta)

lemma wire_of_session_of_wire:
  "wire_of (fst (session_of_wire w h)) (snd (session_of_wire w h)) = w"
  by (cases w) (simp add: wire_of_def session_of_wire_heap)

lemma persistence_snapshot_wire:
  assumes "persistence_snapshot s h = ((snap, token), h')" and "s_data s < h_next h"
  shows "wire_of snap h' = wire_of s h" "token = \<lparr>sr_data = s_data s, sr_revision = sd_revision (h_data h (s_data s))\<rparr>"
    "s_expiry snap = s_expiry s" "s_id snap = s_id s"
    "h' = upd_data (s_data s) capture_data (snd (alloc_family
       (session_data_of (sd_values (h_data h (s_data s)))) None (is_destroyed s h) h))"
  using assms
  by (auto simp: persistence_snapshot_def snapshot_values_def capture_def Let_def split_beta wire_of_def)

subsection \<open>A concrete codec\<close>

definition byte_of_char :: "char \<Rightarrow> byte" where
  "byte_of_char c = of_char c"

definition char_of_byte :: "byte \<Rightarrow> char" where
  "char_of_byte b = char_of (unat b)"

lemma byte_char [simp]: "char_of_byte (byte_of_char c) = c" "byte_of_char (char_of_byte b) = b"
proof -
  have nat: "byte_of_char c = of_nat (of_char c)" for c
    by (simp add: byte_of_char_def of_nat_of_char)
  have "(of_char c :: nat) < 256"
    by simp
  then show "char_of_byte (byte_of_char c) = c"
    by (simp add: char_of_byte_def nat unat_of_nat)
  have "unat b < 256"
    using unsigned_less[of b] by simp
  then show "byte_of_char (char_of_byte b) = b"
    by (simp add: char_of_byte_def nat)
qed

fun enc_str :: "string \<Rightarrow> byte list" where
  "enc_str [] = [0]"
| "enc_str (c # cs) = 1 # byte_of_char c # enc_str cs"

fun dec_str :: "byte list \<Rightarrow> (string \<times> byte list) option" where
  "dec_str [] = None"
| "dec_str [b] = (if b = 0 then Some ([], []) else None)"
| "dec_str (b # c # bs) =
     (if b = 0 then Some ([], c # bs)
      else map_option (\<lambda>(cs, rest). (char_of_byte c # cs, rest)) (dec_str bs))"

lemma dec_enc_str [simp]: "dec_str (enc_str cs @ rest) = Some (cs, rest)"
proof (induction cs)
  case Nil
  then show ?case by (cases rest) auto
qed simp

fun dec_nat :: "byte list \<Rightarrow> (nat \<times> byte list) option" where
  "dec_nat [] = None"
| "dec_nat (b # bs) = (if b = 0 then Some (0, bs) else map_option (\<lambda>(n, rest). (Suc n, rest)) (dec_nat bs))"

lemma dec_enc_nat [simp]: "dec_nat (replicate n 1 @ 0 # rest) = Some (n, rest)"
  by (induction n) auto

definition enc_expiry :: "datetime option \<Rightarrow> byte list" where
  "enc_expiry e = (case e of
      None \<Rightarrow> [0]
    | Some i \<Rightarrow> (if i < 0 then 1 else 2) # replicate (nat \<bar>i\<bar>) 1 @ [0])"

fun dec_expiry :: "byte list \<Rightarrow> (datetime option \<times> byte list) option" where
  "dec_expiry [] = None"
| "dec_expiry (b # bs) =
     (if b = 0 then Some (None, bs)
      else map_option (\<lambda>(n, rest). (Some (if b = 1 then - int n else int n), rest)) (dec_nat bs))"

lemma dec_enc_expiry [simp]: "dec_expiry (enc_expiry e @ rest) = Some (e, rest)"
  by (simp add: enc_expiry_def split: option.split)

fun enc_pairs :: "(string \<times> string) list \<Rightarrow> byte list" where
  "enc_pairs [] = [0]"
| "enc_pairs ((k, v) # kvs) = 1 # enc_str k @ enc_str v @ enc_pairs kvs"

text \<open>The first argument bounds the number of pairs by the length of the input.\<close>

fun dec_pairs :: "nat \<Rightarrow> byte list \<Rightarrow> ((string \<times> string) list \<times> byte list) option" where
  "dec_pairs 0 bs = None"
| "dec_pairs (Suc n) [] = None"
| "dec_pairs (Suc n) (b # bs) =
     (if b = 0 then Some ([], bs)
      else case dec_str bs of
        None \<Rightarrow> None
      | Some (k, bs1) \<Rightarrow>
          (case dec_str bs1 of
             None \<Rightarrow> None
           | Some (v, bs2) \<Rightarrow> map_option (\<lambda>(kvs, rest). ((k, v) # kvs, rest)) (dec_pairs n bs2)))"

lemma dec_enc_pairs: "length kvs < n \<Longrightarrow> dec_pairs n (enc_pairs kvs @ rest) = Some (kvs, rest)"
proof (induction kvs arbitrary: n)
  case Nil
  then show ?case by (cases n) auto
next
  case (Cons kv kvs)
  then obtain m where "n = Suc m" "length kvs < m" by (cases n) auto
  then show ?case using Cons.IH[of m] by (cases kv) simp
qed

lemma enc_pairs_length: "length kvs < length (enc_pairs kvs)"
  by (induction kvs rule: enc_pairs.induct) auto

definition pairs_of :: "(string \<rightharpoonup> string) \<Rightarrow> (string \<times> string) list" where
  "pairs_of m = map (\<lambda>k. (k, the (m k))) (sorted_list_of_set (dom m))"

lemma map_of_pairs_of:
  assumes "finite (dom m)"
  shows "map_of (pairs_of m) = m"
proof
  fix k
  have "map_of (map (\<lambda>k. (k, the (m k))) ks) k = (if k \<in> set ks then Some (the (m k)) else None)" for ks
    by (induction ks) auto
  then have "map_of (pairs_of m) k = (if k \<in> dom m then Some (the (m k)) else None)"
    using assms by (simp add: pairs_of_def)
  then show "map_of (pairs_of m) k = m k"
    by (cases "m k") (auto simp: dom_def)
qed

definition ref_encode :: "wire_session \<Rightarrow> error + byte list" where
  "ref_encode w = (case w of (ident, expiry, vs) \<Rightarrow>
     if finite (dom vs) then Inr (enc_str ident @ enc_expiry expiry @ enc_pairs (pairs_of vs))
     else Inl CodecFailure)"

definition ref_take :: "byte list \<Rightarrow> error + wire_session \<times> byte list" where
  "ref_take bs =
     (case dec_str bs of
        None \<Rightarrow> Inl CodecFailure
      | Some (ident, bs1) \<Rightarrow>
          (case dec_expiry bs1 of
             None \<Rightarrow> Inl CodecFailure
           | Some (expiry, bs2) \<Rightarrow>
               (case dec_pairs (length bs2) bs2 of
                  None \<Rightarrow> Inl CodecFailure
                | Some (kvs, rest) \<Rightarrow> Inr ((ident, expiry, map_of kvs), rest))))"

lemma ref_take_encode: "ref_encode w = Inr bs \<Longrightarrow> ref_take (bs @ rest) = Inr (w, rest)"
proof (cases w)
  case (fields ident expiry vs)
  assume "ref_encode w = Inr bs"
  then have bs: "bs = enc_str ident @ enc_expiry expiry @ enc_pairs (pairs_of vs)" "finite (dom vs)"
    by (auto simp: fields ref_encode_def split: if_splits)
  have "dec_pairs (length (enc_pairs (pairs_of vs) @ rest)) (enc_pairs (pairs_of vs) @ rest)
      = Some (pairs_of vs, rest)"
    using enc_pairs_length[of "pairs_of vs"] by (intro dec_enc_pairs) simp
  then show ?thesis
    by (simp add: bs(1) ref_take_def fields map_of_pairs_of[OF bs(2)])
qed

definition reference_codec :: codec where
  "reference_codec =
     \<lparr>wc_to_stdvec = ref_encode,
      wc_to_slice = (\<lambda>w n. case ref_encode w of
          Inl e \<Rightarrow> Inl e
        | Inr bs \<Rightarrow> if length bs \<le> n then Inr bs else Inl CodecFailure),
      wc_from_bytes = (\<lambda>bs. map_sum id fst (ref_take bs)),
      wc_take_from_bytes = ref_take,
      wc_to_json = (\<lambda>w. map_sum id (map char_of_byte) (ref_encode w)),
      wc_from_json = (\<lambda>j. map_sum id fst (ref_take (map byte_of_char j)))\<rparr>"

lemma reference_codec_laws: "codec_laws reference_codec"
proof -
  have "map_sum id fst (ref_take (map byte_of_char j)) = Inr w"
    if json: "map_sum id (map char_of_byte) (ref_encode w) = Inr j" for w j
  proof -
    obtain bs where bs: "ref_encode w = Inr bs" "j = map char_of_byte bs"
      using json by (cases "ref_encode w") auto
    have "map byte_of_char j = bs" by (simp add: bs(2) comp_def)
    then show ?thesis using ref_take_encode[OF bs(1), of "[]"] by simp
  qed
  then show ?thesis
    by (auto simp: codec_laws_def reference_codec_def ref_take_encode split: sum.splits if_splits)
qed

end
