(* ===== verification/Cookie_Stores.thy ===== *)
theory Cookie_Stores
  imports Wire_Format
begin

text \<open>
  The client-side stores: the unauthenticated codec of \<open>src/cookie_store.rs\<close> and the
  signed cookies of \<open>src/signed_cookie_store.rs\<close>. Base64, \<open>postcard\<close> and HMAC-SHA256 are
  arguments; \<open>wait\<close> is what other threads do between the capture of a session and its
  acknowledgement.
\<close>

subsection \<open>The unauthenticated codec\<close>

definition cookie_load_session ::
  "primitives \<Rightarrow> codec \<Rightarrow> datetime \<Rightarrow> string \<Rightarrow> heap \<Rightarrow> (error + session option) \<times> heap" where
  "cookie_load_session p c now cookie h =
     (case p_decode p cookie of
        Inl e \<Rightarrow> (Inl (CookieFormat e), h)
      | Inr serialized \<Rightarrow>
          (case wc_from_bytes c serialized of
             Inl e \<Rightarrow> (Inl e, h)
           | Inr w \<Rightarrow> (let (s, h1) = session_of_wire w h in (Inr (session_validate now s), h1))))"

definition cookie_store_session ::
  "primitives \<Rightarrow> codec \<Rightarrow> (heap \<Rightarrow> heap) \<Rightarrow> session \<Rightarrow> heap \<Rightarrow> (error + string option) \<times> heap" where
  "cookie_store_session p c wait s h =
     (let ((snap, token), h1) = persistence_snapshot s h in
      case wc_to_stdvec c (wire_of snap h1) of
        Inl e \<Rightarrow> (Inl e, revision_drop token h1)
      | Inr serialized \<Rightarrow>
          (let cookie = p_encode p serialized;
               (s1, h2) = acknowledge_revision s token (wait h1)
           in (Inr (Some cookie), h2)))"

definition cookie_destroy_session :: "session \<Rightarrow> heap \<Rightarrow> (error + unit) \<times> heap" where
  "cookie_destroy_session s h = (Inr (), h)"

definition cookie_clear_store :: "heap \<Rightarrow> (error + unit) \<times> heap" where
  "cookie_clear_store h = (Inr (), h)"

subsection \<open>Signed cookies\<close>

definition PREFIX :: string where
  "PREFIX = ''s1.''"

definition DOMAIN :: "byte list" where
  "DOMAIN = map byte_of_char ''saysion:signed-cookie:v1:''"

definition TAG_LEN :: nat where
  "TAG_LEN = 32"

definition MAX_VALUE_LEN :: nat where
  "MAX_VALUE_LEN = 3800"

definition MAX_BINARY_LEN :: nat where
  "MAX_BINARY_LEN = (MAX_VALUE_LEN - length PREFIX) div 4 * 3"

lemma signed_lengths [simp]:
  "length PREFIX = 3" "TAG_LEN = 32" "MAX_VALUE_LEN = 3800" "MAX_BINARY_LEN = 2847"
  by (simp_all add: PREFIX_def TAG_LEN_def MAX_VALUE_LEN_def MAX_BINARY_LEN_def)

record signed_store =
  ss_signing_key :: "byte list"
  ss_fallback_keys :: "byte list list"

text \<open>
  \<open>SignedCookieStore::key\<close>. HMAC accepts keys of every length, so that only the crate's
  own check can fail; the keyed state is represented by the key.
\<close>

definition signed_key :: "byte list \<Rightarrow> error + byte list" where
  "signed_key bytes = (if length bytes \<ge> 32 then Inr bytes else Inl WeakKey)"

definition signed_new :: "byte list \<Rightarrow> error + signed_store" where
  "signed_new key =
     (case signed_key key of
        Inl e \<Rightarrow> Inl e
      | Inr k \<Rightarrow> Inr \<lparr>ss_signing_key = k, ss_fallback_keys = []\<rparr>)"

definition with_fallback_key :: "byte list \<Rightarrow> signed_store \<Rightarrow> error + signed_store" where
  "with_fallback_key key st =
     (case signed_key key of
        Inl e \<Rightarrow> Inl e
      | Inr k \<Rightarrow> Inr (st\<lparr>ss_fallback_keys := ss_fallback_keys st @ [k]\<rparr>))"

text \<open>\<open>hmac key message\<close> is the tag of HMAC-SHA256.\<close>

type_synonym hmac = "byte list \<Rightarrow> byte list \<Rightarrow> byte list"

definition hmac_laws :: "hmac \<Rightarrow> bool" where
  "hmac_laws hmac \<longleftrightarrow> (\<forall>key message. length (hmac key message) = 32)"

definition signed_mac :: "hmac \<Rightarrow> byte list \<Rightarrow> byte list \<Rightarrow> byte list" where
  "signed_mac hmac key payload = hmac key (DOMAIN @ payload)"

definition strip_prefix :: "string \<Rightarrow> string \<Rightarrow> string option" where
  "strip_prefix pre s = (if take (length pre) s = pre then Some (drop (length pre) s) else None)"

definition split_at_checked :: "nat \<Rightarrow> 'a list \<Rightarrow> ('a list \<times> 'a list) option" where
  "split_at_checked n xs = (if n \<le> length xs then Some (take n xs, drop n xs) else None)"

definition signed_load_session ::
  "primitives \<Rightarrow> codec \<Rightarrow> hmac \<Rightarrow> datetime \<Rightarrow> signed_store \<Rightarrow> string \<Rightarrow> heap \<Rightarrow>
   (error + session option) \<times> heap" where
  "signed_load_session p c hmac now st cookie h =
     (if length cookie > MAX_VALUE_LEN then (Inr None, h)
      else case strip_prefix PREFIX cookie of
        None \<Rightarrow> (Inr None, h)
      | Some encoded \<Rightarrow>
          (case p_decode p encoded of
             Inl _ \<Rightarrow> (Inr None, h)
           | Inr bytes \<Rightarrow>
               (case split_at_checked TAG_LEN bytes of
                  None \<Rightarrow> (Inr None, h)
                | Some (tag, payload) \<Rightarrow>
                    if \<not> list_ex (\<lambda>key. signed_mac hmac key payload = tag)
                           (ss_signing_key st # ss_fallback_keys st)
                    then (Inr None, h)
                    else (case wc_take_from_bytes c payload of
                            Inl _ \<Rightarrow> (Inr None, h)
                          | Inr (w, rest) \<Rightarrow>
                              (let (s, h1) = session_of_wire w h in
                               if rest \<noteq> [] then (Inr None, h1)
                               else (Inr (session_validate now s), h1))))))"

definition signed_store_session ::
  "primitives \<Rightarrow> codec \<Rightarrow> hmac \<Rightarrow> (heap \<Rightarrow> heap) \<Rightarrow> signed_store \<Rightarrow> session \<Rightarrow> heap \<Rightarrow>
   (error + string option) \<times> heap" where
  "signed_store_session p c hmac wait st s h =
     (case serialize_bounded (wc_to_slice c) (MAX_BINARY_LEN - TAG_LEN) s h of
        (Inl e, h1) \<Rightarrow> (Inl e, h1)
      | (Inr (payload, token), h1) \<Rightarrow>
          (let tag = signed_mac hmac (ss_signing_key st) payload;
               bytes = tag @ payload;
               cookie = PREFIX @ p_encode p bytes;
               (s1, h2) = acknowledge_revision s token (wait h1)
           in (Inr (Some cookie), h2)))"

definition signed_destroy_session :: "session \<Rightarrow> heap \<Rightarrow> (error + unit) \<times> heap" where
  "signed_destroy_session s h = (Inr (), h)"

definition signed_clear_store :: "heap \<Rightarrow> (error + unit) \<times> heap" where
  "signed_clear_store h = (Inr (), h)"

end
