(* ===== verification/Cookie_Facts.thy ===== *)
theory Cookie_Facts
  imports Cookie_Stores
begin

text \<open>
  Properties of the client-side stores: what a stored cookie loads, which cookies a signed
  store accepts, how large its values are, and which keys sign.
\<close>

subsection \<open>Round trip of the unauthenticated codec\<close>

text \<open>A session built from a wire format holds it, is clean, and cannot be saved by a server store.\<close>

lemma session_of_wire_facts:
  "wire_of (fst (session_of_wire w k)) (snd (session_of_wire w k)) = w"
  "\<not> needs_persist (fst (session_of_wire w k)) (snd (session_of_wire w k))"
  "fst (persistence_attempt (fst (session_of_wire w k)) (snd (session_of_wire w k))) = Inl SessionConflict"
  "is_expired now (fst (session_of_wire w k)) = (case fst (snd w) of None \<Rightarrow> False | Some e \<Rightarrow> e < now)"
  using wire_of_session_of_wire[of w k]
  by (simp_all add: session_of_wire_heap needs_persist_def data_changed_def data_dirty_def
      is_destroyed_def persistence_attempt_def persistence_origin_def is_expired_def)

text \<open>
  A cookie of the unauthenticated codec loads as a clean session with the identity,
  expiry and values that the stored session had at the capture, and as none once it is
  expired, on any other heap. The loaded session has no authority in a server-side
  store: a save of it is a conflict.
\<close>
theorem cookie_round_trip:
  assumes "base64_laws p" and "codec_laws c" and "session_allocated h s"
    and "cookie_store_session p c wait s h = (Inr (Some cookie), h')"
  shows "if is_expired now s then fst (cookie_load_session p c now cookie k) = Inr None
    else \<exists>t k'. cookie_load_session p c now cookie k = (Inr (Some t), k') \<and>
      wire_of t k' = wire_of s h \<and> \<not> needs_persist t k' \<and>
      fst (persistence_attempt t k') = Inl SessionConflict"
proof -
  obtain snap token h1 where ps: "persistence_snapshot s h = ((snap, token), h1)"
    by (metis surj_pair)
  note snap = persistence_snapshot_wire[OF ps]
  obtain bs where bs: "wc_to_stdvec c (wire_of snap h1) = Inr bs" "cookie = p_encode p bs"
    using assms(4) ps by (auto simp: cookie_store_session_def Let_def split_beta split: sum.splits)
  have wire: "wire_of snap h1 = wire_of s h"
    using snap(1) assms(3) by (simp add: session_allocated_def)
  have dec: "p_decode p cookie = Inr bs"
    using assms(1) bs(2) by (simp add: base64_laws_def)
  have load: "cookie_load_session p c now cookie k =
      (Inr (session_validate now (fst (session_of_wire (wire_of s h) k))),
       snd (session_of_wire (wire_of s h) k))"
    using codec_lawsD(3)[OF assms(2)] bs(1) wire dec
    by (simp add: cookie_load_session_def split_beta Let_def)
  have exp: "is_expired now (fst (session_of_wire (wire_of s h) k)) = is_expired now s"
    by (simp add: is_expired_def wire_of_def)
  show ?thesis
    using session_of_wire_facts(1-3)[where w = "wire_of s h" and k = k]
    by (simp add: load session_validate_def exp)
qed

theorem cookie_round_trip_witness:
  "\<exists>cookie h' t k'. cookie_store_session reference reference_codec id example_session example_heap =
      (Inr (Some cookie), h') \<and>
    cookie_load_session reference reference_codec 0 cookie heap_empty = (Inr (Some t), k') \<and>
    wire_of t k' = (''a'', None, [''k'' \<mapsto> ''v''])"
proof -
  obtain cookie h' where call:
    "cookie_store_session reference reference_codec id example_session example_heap = (Inr (Some cookie), h')"
    by (simp add: cookie_store_session_def Let_def split_beta persistence_snapshot_def
        snapshot_values_def capture_def wire_of_def reference_codec_def ref_encode_def
        example_session_def)
  show ?thesis
    using cookie_round_trip[OF reference_laws reference_codec_laws example_allocated call, of 0 heap_empty]
      call
    by (auto simp: is_expired_def example_session_def wire_of_def)
qed

subsection \<open>Signed cookies: round trip and size\<close>

lemma signed_store_cases:
  assumes "signed_store_session p c hmac wait st s h = (Inr cookie, h')"
  obtains payload where "wc_to_slice c (wire_of s h) 2815 = Inr payload"
    "cookie = Some (PREFIX @ p_encode p (signed_mac hmac (ss_signing_key st) payload @ payload))"
    "h' = acknowledge \<lparr>sr_data = s_data s, sr_revision = sd_revision (h_data h (s_data s))\<rparr>
            (wait (upd_data (s_data s) capture_data h))"
  using assms
  by (auto simp: signed_store_session_def serialize_bounded_def capture_def wire_of_def Let_def
      acknowledge_revision_def split: sum.splits)

lemma strip_prefix_append [simp]: "strip_prefix pre (pre @ s) = Some s"
  by (simp add: strip_prefix_def)

lemma signed_mac_length: "hmac_laws hmac \<Longrightarrow> length (signed_mac hmac key payload) = 32"
  by (simp add: hmac_laws_def signed_mac_def)

lemma signed_cookie_length:
  assumes "base64_laws p" and "hmac_laws hmac" and "length payload \<le> 2815"
  shows "length (PREFIX @ p_encode p (signed_mac hmac key payload @ payload)) \<le> 3799"
proof -
  have "length (p_encode p (signed_mac hmac key payload @ payload)) =
      4 * ((length payload + 34) div 3)"
    using assms(1) signed_mac_length[OF assms(2)] by (simp add: base64_laws_def add.commute)
  moreover have "(length payload + 34) div 3 \<le> 949"
    using assms(3) by linarith
  ultimately show ?thesis by simp
qed

lemma signed_load_signed:
  assumes laws: "base64_laws p" "codec_laws c" "hmac_laws hmac"
    and payload: "wc_to_slice c w 2815 = Inr payload"
    and key: "key \<in> set (ss_signing_key st # ss_fallback_keys st)"
  shows "signed_load_session p c hmac now st
      (PREFIX @ p_encode p (signed_mac hmac key payload @ payload)) k =
    (Inr (session_validate now (fst (session_of_wire w k))), snd (session_of_wire w k))"
proof -
  have len: "length payload \<le> 2815" and enc: "wc_to_stdvec c w = Inr payload"
    using codec_lawsD(4)[OF laws(2)] payload by auto
  have short: "\<not> 3800 < length (PREFIX @ p_encode p (signed_mac hmac key payload @ payload))"
    using signed_cookie_length[OF laws(1,3) len, of key] by simp
  have dec: "p_decode p (p_encode p (signed_mac hmac key payload @ payload)) =
      Inr (signed_mac hmac key payload @ payload)"
    using laws(1) by (simp add: base64_laws_def)
  have split: "split_at_checked 32 (signed_mac hmac key payload @ payload) =
      Some (signed_mac hmac key payload, payload)"
    using signed_mac_length[OF laws(3)] by (simp add: split_at_checked_def)
  have auth: "list_ex (\<lambda>k. signed_mac hmac k payload = signed_mac hmac key payload)
      (ss_signing_key st # ss_fallback_keys st)"
    using key by (auto simp: list_ex_iff)
  show ?thesis
    using short auth codec_lawsD(2)[OF laws(2) enc]
    by (simp add: signed_load_session_def dec split Let_def split_beta del: list_ex_Cons_iff)
qed

text \<open>
  C35: a signed cookie loads, in every store that signs with or falls back to the key it
  was signed with, as a session with the identity, expiry and values of the session that
  was stored, and as none once it is expired. It is at most 3800 bytes long, so that no
  store refuses the values it has issued itself.
\<close>
theorem signed_round_trip:
  assumes "base64_laws p" and "codec_laws c" and "hmac_laws hmac"
    and "signed_store_session p c hmac wait st s h = (Inr cookie, h')"
    and "ss_signing_key st \<in> set (ss_signing_key st' # ss_fallback_keys st')"
  shows "\<exists>value. cookie = Some value \<and> length value \<le> MAX_VALUE_LEN \<and>
     (if is_expired now s then fst (signed_load_session p c hmac now st' value k) = Inr None
      else \<exists>t k'. signed_load_session p c hmac now st' value k = (Inr (Some t), k') \<and>
        wire_of t k' = wire_of s h \<and> \<not> needs_persist t k')"
proof -
  obtain payload where p: "wc_to_slice c (wire_of s h) 2815 = Inr payload"
      "cookie = Some (PREFIX @ p_encode p (signed_mac hmac (ss_signing_key st) payload @ payload))"
    using assms(4) by (rule signed_store_cases)
  have len: "length payload \<le> 2815"
    using codec_lawsD(4)[OF assms(2)] p(1) by auto
  have exp: "is_expired now (fst (session_of_wire (wire_of s h) k)) = is_expired now s"
    by (simp add: is_expired_def wire_of_def)
  show ?thesis
    using signed_load_signed[OF assms(1-3) p(1) assms(5), of now k] p(2)
      signed_cookie_length[OF assms(1,3) len, of "ss_signing_key st"]
      session_of_wire_facts(1-3)[where w = "wire_of s h" and k = k]
    by (simp add: session_validate_def exp)
qed

text \<open>A stand-in for HMAC-SHA256: the padded start of key and message.\<close>

definition reference_hmac :: hmac where
  "reference_hmac key message = take 32 (take 16 key @ message @ replicate 32 0)"

lemma reference_hmac_laws: "hmac_laws reference_hmac"
  by (auto simp: hmac_laws_def reference_hmac_def min_def)

definition old_store :: signed_store where
  "old_store = \<lparr>ss_signing_key = replicate 32 1, ss_fallback_keys = []\<rparr>"

definition rotated_store :: signed_store where
  "rotated_store = \<lparr>ss_signing_key = replicate 32 2, ss_fallback_keys = [replicate 32 1]\<rparr>"

lemma small_payload: "\<exists>payload. wc_to_slice reference_codec (''a'', None, [''k'' \<mapsto> ''v'']) 2815 = Inr payload"
  by (simp add: reference_codec_def ref_encode_def enc_expiry_def pairs_of_def)

theorem signed_round_trip_witness:
  "\<exists>value h' t k'. signed_store_session reference reference_codec reference_hmac id old_store
      example_session example_heap = (Inr (Some value), h') \<and>
    signed_load_session reference reference_codec reference_hmac 0 rotated_store value heap_empty =
      (Inr (Some t), k') \<and> wire_of t k' = (''a'', None, [''k'' \<mapsto> ''v''])"
proof -
  have wire: "wire_of example_session example_heap = (''a'', None, [''k'' \<mapsto> ''v''])"
    by (simp add: wire_of_def example_session_def)
  obtain cookie h' where call: "signed_store_session reference reference_codec reference_hmac id
      old_store example_session example_heap = (Inr cookie, h')"
    using small_payload
    by (auto simp: signed_store_session_def serialize_bounded_def capture_def Let_def
        example_session_def acknowledge_revision_def)
  have key: "ss_signing_key old_store \<in> set (ss_signing_key rotated_store # ss_fallback_keys rotated_store)"
    by (simp add: old_store_def rotated_store_def)
  have live: "\<not> is_expired 0 example_session"
    by (simp add: is_expired_def example_session_def)
  show ?thesis
    using signed_round_trip[OF reference_laws reference_codec_laws reference_hmac_laws call key, of 0 heap_empty]
      call live
    unfolding wire by auto
qed

subsection \<open>Authenticity\<close>

text \<open>
  C6: loading never fails, and it yields a session only for a value of at most 3800
  bytes with the prefix, whose decoded bytes are the tag, under one of the store's keys
  and the protocol's domain, of exactly the payload that the session was read from, to
  its last byte; an expired session is not handed out.
\<close>
theorem signed_load_authentic:
  "case fst (signed_load_session p c hmac now st cookie h) of
     Inl _ \<Rightarrow> False
   | Inr None \<Rightarrow> True
   | Inr (Some t) \<Rightarrow>
       length cookie \<le> 3800 \<and> \<not> is_expired now t \<and>
       (\<exists>key payload encoded. cookie = PREFIX @ encoded \<and>
          key \<in> set (ss_signing_key st # ss_fallback_keys st) \<and>
          p_decode p encoded = Inr (hmac key (DOMAIN @ payload) @ payload) \<and>
          wc_take_from_bytes c payload =
            Inr (wire_of t (snd (signed_load_session p c hmac now st cookie h)), []))"
proof (cases "fst (signed_load_session p c hmac now st cookie h)")
  case (Inl e)
  then show ?thesis
    by (auto simp: signed_load_session_def Let_def split_beta split: if_splits option.splits sum.splits)
next
  case (Inr r)
  show ?thesis
  proof (cases r)
    case None
    then show ?thesis using Inr by simp
  next
    case (Some t)
    have len: "length cookie \<le> 3800"
      using Inr Some by (auto simp: signed_load_session_def split: if_splits)
    obtain encoded where enc: "strip_prefix PREFIX cookie = Some encoded"
      using Inr Some len by (auto simp: signed_load_session_def split: option.splits)
    obtain bytes where bytes: "p_decode p encoded = Inr bytes"
      using Inr Some len enc by (auto simp: signed_load_session_def split: sum.splits)
    obtain tag payload where sp: "split_at_checked 32 bytes = Some (tag, payload)"
      using Inr Some len enc bytes by (auto simp: signed_load_session_def split: option.splits)
    have auth: "list_ex (\<lambda>key. signed_mac hmac key payload = tag) (ss_signing_key st # ss_fallback_keys st)"
      using Inr Some len enc bytes sp
      by (auto simp: signed_load_session_def simp del: list_ex_Cons_iff split: if_splits)
    have load: "signed_load_session p c hmac now st cookie h =
        (case wc_take_from_bytes c payload of
           Inl _ \<Rightarrow> (Inr None, h)
         | Inr (w, rest) \<Rightarrow>
             (let (s, h1) = session_of_wire w h in
              if rest \<noteq> [] then (Inr None, h1) else (Inr (session_validate now s), h1)))"
      using len auth by (simp add: signed_load_session_def enc bytes sp del: list_ex_Cons_iff)
    obtain w where w: "wc_take_from_bytes c payload = Inr (w, [])"
        "session_validate now (fst (session_of_wire w h)) = Some t"
        "snd (signed_load_session p c hmac now st cookie h) = snd (session_of_wire w h)"
      using Inr Some load by (auto simp: Let_def split_beta split: sum.splits if_splits)
    have t: "t = fst (session_of_wire w h)" "\<not> is_expired now t"
      using w(2) by (auto simp: session_validate_def split: if_splits)
    have cookie: "cookie = PREFIX @ encoded"
    proof -
      have "take 3 cookie = PREFIX" "drop 3 cookie = encoded"
        using enc by (simp_all add: strip_prefix_def split: if_splits)
      then show ?thesis by (metis append_take_drop_id)
    qed
    have split: "bytes = tag @ payload"
      using sp by (auto simp: split_at_checked_def split: if_splits)
    obtain key where "key \<in> set (ss_signing_key st # ss_fallback_keys st)" "tag = hmac key (DOMAIN @ payload)"
      using auth by (auto simp: list_ex_iff signed_mac_def)
    then show ?thesis
      using Inr Some len t cookie bytes split w wire_of_session_of_wire[of w h] by auto
  qed
qed

subsection \<open>Bounded serialization and keys\<close>

text \<open>
  A session whose payload does not fit the bounded buffer, or cannot be encoded, is
  refused before the save begins: nothing in the heap changes, so that no save of it is
  outstanding. An accepted session is acknowledged at the revision of its payload.
\<close>
theorem signed_store_refuses_oversized:
  assumes "codec_laws c"
  shows "(\<exists>payload. wc_to_stdvec c (wire_of s h) = Inr payload \<and> length payload \<le> 2815) \<and>
      (\<exists>cookie. signed_store_session p c hmac wait st s h = (Inr (Some cookie),
         acknowledge \<lparr>sr_data = s_data s, sr_revision = sd_revision (h_data h (s_data s))\<rparr>
           (wait (upd_data (s_data s) capture_data h)))) \<or>
    \<not> (\<exists>payload. wc_to_stdvec c (wire_of s h) = Inr payload \<and> length payload \<le> 2815) \<and>
      (\<exists>e. signed_store_session p c hmac wait st s h = (Inl e, h))"
proof (cases "wc_to_slice c (wire_of s h) 2815")
  case (Inl e)
  then have "\<not> (\<exists>payload. wc_to_stdvec c (wire_of s h) = Inr payload \<and> length payload \<le> 2815)"
    using codec_lawsD(4)[OF assms, of "wire_of s h" 2815] by auto
  then show ?thesis
    using Inl by (simp add: signed_store_session_def serialize_bounded_def wire_of_def)
next
  case (Inr payload)
  then have "wc_to_stdvec c (wire_of s h) = Inr payload" "length payload \<le> 2815"
    using codec_lawsD(4)[OF assms, of "wire_of s h" 2815] by auto
  then show ?thesis
    using Inr by (simp add: signed_store_session_def serialize_bounded_def wire_of_def capture_def
      Let_def acknowledge_revision_def)
qed

definition refusing_codec :: codec where
  "refusing_codec = reference_codec\<lparr>wc_to_slice := \<lambda>w n. Inl CodecFailure,
     wc_to_stdvec := \<lambda>w. Inl CodecFailure, wc_to_json := \<lambda>w. Inl CodecFailure\<rparr>"

theorem signed_store_refuses_oversized_witness:
  "\<exists>e. signed_store_session reference refusing_codec reference_hmac id old_store example_session
     example_heap = (Inl e, example_heap)"
proof -
  have "codec_laws refusing_codec"
    using reference_codec_laws by (simp add: codec_laws_def reference_codec_def refusing_codec_def)
  from signed_store_refuses_oversized[OF this, where s = example_session and h = example_heap and
      p = reference and hmac = reference_hmac and wait = id and st = old_store]
  show ?thesis by (simp add: refusing_codec_def)
qed

text \<open>The keys that a store accepts, after any number of attempts to add fallback keys.\<close>

fun add_fallbacks :: "byte list list \<Rightarrow> signed_store \<Rightarrow> error + signed_store" where
  "add_fallbacks [] st = Inr st"
| "add_fallbacks (key # keys) st =
     (case with_fallback_key key st of Inl e \<Rightarrow> Inl e | Inr st1 \<Rightarrow> add_fallbacks keys st1)"

lemma add_fallbacks_eq:
  "add_fallbacks keys st =
     (if \<forall>key \<in> set keys. 32 \<le> length key
      then Inr (st\<lparr>ss_fallback_keys := ss_fallback_keys st @ keys\<rparr>) else Inl WeakKey)"
  by (induction keys arbitrary: st) (auto simp: with_fallback_key_def signed_key_def)

lemma signed_store_signing_key:
  "ss_signing_key st = ss_signing_key st0 \<Longrightarrow>
   signed_store_session p c hmac wait st s h = signed_store_session p c hmac wait st0 s h"
  unfolding signed_store_session_def by (erule ssubst) (rule refl)

text \<open>
  A store is built exactly when every key given to it has at least 32 bytes. Adding
  fallback keys never changes what the store signs: it issues the same cookies.
\<close>
theorem fallback_keys_never_sign:
  "(case signed_new key of
      Inl e \<Rightarrow> e = WeakKey \<and> length key < 32
    | Inr st0 \<Rightarrow> 32 \<le> length key \<and>
       (case add_fallbacks keys st0 of
          Inl e \<Rightarrow> e = WeakKey \<and> (\<exists>k \<in> set keys. length k < 32)
        | Inr st \<Rightarrow> (\<forall>k \<in> set keys. 32 \<le> length k) \<and>
            ss_signing_key st # ss_fallback_keys st = key # keys \<and>
            signed_store_session p c hmac wait st s h = signed_store_session p c hmac wait st0 s h))"
  by (auto simp: signed_new_def signed_key_def add_fallbacks_eq not_le intro!: signed_store_signing_key)

theorem fallback_keys_never_sign_witness:
  "\<exists>st0 st. signed_new (replicate 32 2) = Inr st0 \<and> add_fallbacks [replicate 32 1] st0 = Inr st \<and>
     ss_signing_key st # ss_fallback_keys st = [replicate 32 2, replicate 32 1]"
proof -
  have "signed_new (replicate 32 2) = Inr \<lparr>ss_signing_key = replicate 32 2, ss_fallback_keys = []\<rparr>"
    by (simp add: signed_new_def signed_key_def)
  then show ?thesis
    using fallback_keys_never_sign[where key = "replicate 32 2" and keys = "[replicate 32 1]"]
    by (auto split: sum.splits)
qed

end
