(* ===== verification/Remote_Store.thy ===== *)
theory Remote_Store
  imports Cookie_Facts
begin

text \<open>
  What the server-side stores of \<open>src/redis_store.rs\<close>, \<open>src/mongodb_store.rs\<close> and
  \<open>src/sqlx_store.rs\<close> have in common. Their handlers differ in the requests they send; the
  steps before the write, after it, and around a deletion are the same code, and are
  defined once with the requests as arguments. Requests can fail, before or after the
  server has carried them out.
\<close>

subsection \<open>Requests\<close>

datatype fault = Delivered | Lost | ReplyLost

text \<open>\<open>f\<close> is what the server does; the client sees an error unless the reply arrives.\<close>

definition transmit :: "fault \<Rightarrow> ('r \<Rightarrow> 'a \<times> 'r) \<Rightarrow> 'r \<Rightarrow> (error + 'a) \<times> 'r" where
  "transmit fault f r =
     (case fault of
        Delivered \<Rightarrow> (Inr (fst (f r)), snd (f r))
      | Lost \<Rightarrow> (Inl BackendFailure, r)
      | ReplyLost \<Rightarrow> (Inl BackendFailure, snd (f r)))"

text \<open>
  The k-th request of a handler: other tasks and other clients act before it arrives.
\<close>

type_synonym 'r remote = "heap \<times> 'r"
type_synonym network = "nat \<Rightarrow> fault"

definition remote_call ::
  "'r remote interleaving \<Rightarrow> network \<Rightarrow> nat \<Rightarrow> ('r \<Rightarrow> 'a \<times> 'r) \<Rightarrow> 'r remote \<Rightarrow> (error + 'a) \<times> 'r remote" where
  "remote_call ij net k f w =
     (let (h, r) = ij k w;
          (res, r1) = transmit (net k) f r
      in (res, (h, r1)))"

lemma remote_call_Inr:
  "remote_call ij net k f w = (Inr x, w') \<longleftrightarrow>
     net k = Delivered \<and> x = fst (f (snd (ij k w))) \<and> w' = (fst (ij k w), snd (f (snd (ij k w))))"
  by (auto simp: remote_call_def transmit_def Let_def split_beta split: fault.splits)

lemma remote_call_quiet [simp]:
  "net k = Delivered \<Longrightarrow>
   remote_call undisturbed net k f w = (Inr (fst (f (snd w))), (fst w, snd (f (snd w))))"
  by (simp add: remote_call_def transmit_def split_beta)

lemma remote_call_state:
  "remote_call ij net k f w = (res, w') \<Longrightarrow>
   snd w' = snd (ij k w) \<or> snd w' = snd (f (snd (ij k w)))"
  by (auto simp: remote_call_def transmit_def Let_def split_beta split: fault.splits)

lemma remote_call_heap: "remote_call ij net k f w = (res, w') \<Longrightarrow> fst w' = fst (ij k w)"
  by (auto simp: remote_call_def Let_def split_beta)

text \<open>The heap, and the server as \<open>view\<close> shows it.\<close>

abbreviation seen :: "('r \<Rightarrow> 'b) \<Rightarrow> 'r remote \<Rightarrow> heap \<times> 'b" where
  "seen view w \<equiv> (fst w, view (snd w))"

subsection \<open>The handlers\<close>

text \<open>
  How the write of a handler ends: with an error, with the record stored, or, for an
  expired session, with the old record removed instead.
\<close>

datatype write_outcome = Failed error | Stored | Revoked

text \<open>\<open>origin.as_deref().filter(|old_id| *old_id != id)\<close>\<close>

definition rotation_source :: "string option \<Rightarrow> string \<Rightarrow> string option" where
  "rotation_source origin ident =
     (case origin of None \<Rightarrow> None | Some old_id \<Rightarrow> if old_id \<noteq> ident then Some old_id else None)"

text \<open>
  \<open>store_session\<close>. \<open>recheck\<close> says whether destruction is checked again before the
  snapshot, as the Redis and MongoDB stores do. Other tasks run at the points 0 to 3 and
  before every request of \<open>put\<close> and \<open>undo\<close>. Every early return drops the guard and then
  the token. A destruction noticed after the write is compensated by \<open>undo\<close>; only its
  confirmed success settles the guard again.
\<close>

definition remote_store_session ::
  "codec \<Rightarrow> bool \<Rightarrow>
   (string option \<Rightarrow> session \<Rightarrow> string \<Rightarrow> 'r remote \<Rightarrow> write_outcome \<times> 'r remote) \<Rightarrow>
   (string \<Rightarrow> 'r remote \<Rightarrow> (error + unit) \<times> 'r remote) \<Rightarrow>
   'r remote interleaving \<Rightarrow> session \<Rightarrow> 'r remote \<Rightarrow> (error + string option) poll \<times> 'r remote" where
  "remote_store_session c recheck put undo ij s w =
     (let (h, r) = w in
      case persistence_attempt s h of
        (Inl e, h1) \<Rightarrow> (Ready (Inl e), (h1, r))
      | (Inr origin, h1) \<Rightarrow>
          (let (h2, r2) = ij 0 (h1, r) in
           if recheck \<and> is_destroyed s h2 then (Ready (Inl SessionConflict), (h2, r2))
           else
             (let ((snap, token), h3) = persistence_snapshot s h2 in
              case wc_to_json c (wire_of snap h3) of
                Inl e \<Rightarrow> (Ready (Inl e), (revision_drop token h3, r2))
              | Inr json \<Rightarrow>
                  (let (h4, r4) = ij 1 (h3, r2) in
                   case begin_backend_write s origin True h4 of
                     (Pending, h5) \<Rightarrow> (Pending, (h5, r4))
                   | (Ready (Inl e), h5) \<Rightarrow> (Ready (Inl e), (revision_drop token h5, r4))
                   | (Ready (Inr g), h5) \<Rightarrow>
                       (case put origin snap json (h5, r4) of
                          (Failed e, (h6, r6)) \<Rightarrow>
                            (Ready (Inl e), (revision_drop token (write_guard_drop g h6), r6))
                        | (Revoked, w6) \<Rightarrow>
                            (let (h7, r7) = ij 2 w6;
                                 (res, g1) = guard_finish g h7;
                                 w7 = (revision_drop token (write_guard_drop g1 h7), r7)
                             in case res of
                                  Inl e \<Rightarrow> (Ready (Inl e), w7)
                                | Inr _ \<Rightarrow> (Ready (Inr None), w7))
                        | (Stored, w6) \<Rightarrow>
                            (let (h7, r7) = ij 2 w6 in
                             case guard_finish g h7 of
                               (Inl e, g1) \<Rightarrow>
                                 (let g2 = guard_require_cleanup g1 in
                                  case undo (s_id s) (h7, r7) of
                                    (Inl e2, (h8, r8)) \<Rightarrow>
                                      (Ready (Inl e2), (revision_drop token (write_guard_drop g2 h8), r8))
                                  | (Inr _, (h8, r8)) \<Rightarrow>
                                      (Ready (Inl e),
                                       (revision_drop token
                                          (write_guard_drop (guard_confirm_removed g2) h8), r8)))
                             | (Inr _, g1) \<Rightarrow>
                                 (let (h8, r8) = ij 3 (h7, r7);
                                      h9 = mark_persisted s h8;
                                      (s1, h10) = acknowledge_revision s token h9
                                  in (Ready (Inr (into_cookie_value s1)),
                                      (write_guard_drop g1 h10, r8)))))))))"

text \<open>
  \<open>load_session\<close>: parse the cookie, look the record up, deserialize and validate it.
\<close>

definition remote_load_session ::
  "primitives \<Rightarrow> codec \<Rightarrow> (string \<Rightarrow> 'r remote \<Rightarrow> (error + string option) \<times> 'r remote) \<Rightarrow> datetime \<Rightarrow>
   string \<Rightarrow> 'r remote \<Rightarrow> (error + session option) \<times> 'r remote" where
  "remote_load_session p c lookup now cookie w =
     (case id_from_cookie_value p cookie of
        Inl e \<Rightarrow> (Inl (CookieFormat e), w)
      | Inr ident \<Rightarrow>
          (case lookup ident w of
             (Inl e, w1) \<Rightarrow> (Inl e, w1)
           | (Inr None, w1) \<Rightarrow> (Inr None, w1)
           | (Inr (Some json), (h1, r1)) \<Rightarrow>
               (case wc_from_json c json of
                  Inl e \<Rightarrow> (Inl e, (h1, r1))
                | Inr wire \<Rightarrow>
                    (let (s, h2) = session_of_wire wire h1;
                         (res, h3) = validate_loaded p 1 now cookie s h2
                     in (res, (h3, r1))))))"

text \<open>\<open>destroy_session\<close>: \<open>erase\<close> is the deletion request, sent while the guard is held.\<close>

definition remote_destroy_session ::
  "(string \<Rightarrow> 'r remote \<Rightarrow> (error + unit) \<times> 'r remote) \<Rightarrow> 'r remote interleaving \<Rightarrow> session \<Rightarrow>
   'r remote \<Rightarrow> (error + unit) poll \<times> 'r remote" where
  "remote_destroy_session erase ij s w =
     (let (h, r) = w;
          (h1, r1) = ij 0 (session_destroy s h, r)
      in case begin_delete_locked s h1 of
        (Pending, h2) \<Rightarrow> (Pending, (h2, r1))
      | (Ready (Inl e), h2) \<Rightarrow> (Ready (Inl e), (h2, r1))
      | (Ready (Inr deletion), h2) \<Rightarrow>
          (case erase (dg_id deletion) (h2, r1) of
             (res, (h3, r3)) \<Rightarrow> (Ready res, (delete_guard_drop deletion h3, r3))))"

end
