(* ===== verification/Remote_Facts.thy ===== *)
theory Remote_Facts
  imports Remote_Store
begin

text \<open>
  Correctness of the handlers that the remote stores share, for every behaviour of other
  tasks and clients and every fault of the network: the exits of a save, the fence around
  unconfirmed creations, and the round trip of an undisturbed save. What a store has to
  provide is stated as locales; each store interprets them.
\<close>

subsection \<open>The exits of a save\<close>

text \<open>The handler holds the lifecycle guard \<open>g\<close> and starts its write in the world \<open>w5\<close>.\<close>

definition save_begun ::
  "codec \<Rightarrow> bool \<Rightarrow> 'r remote interleaving \<Rightarrow> session \<Rightarrow> 'r remote \<Rightarrow> string option \<Rightarrow> session \<Rightarrow>
   save_revision \<Rightarrow> string \<Rightarrow> write_guard \<Rightarrow> 'r remote \<Rightarrow> bool" where
  "save_begun c recheck ij s w origin snap token json g w5 \<longleftrightarrow>
     (\<exists>h1 h2 r2 h3 h4 h5 r4. persistence_attempt s (fst w) = (Inr origin, h1) \<and>
        ij 0 (h1, snd w) = (h2, r2) \<and> \<not> (recheck \<and> is_destroyed s h2) \<and>
        persistence_snapshot s h2 = ((snap, token), h3) \<and>
        wc_to_json c (wire_of snap h3) = Inr json \<and> ij 1 (h3, r2) = (h4, r4) \<and>
        begin_backend_write s origin True h4 = (Ready (Inr g), h5) \<and> w5 = (h5, r4))"

lemma remote_store_cases:
  assumes "remote_store_session c recheck put undo ij s (h, r) = (Ready res, (h', r'))"
  obtains (early) "res = Inl SessionConflict" "h' = h" "r' = r"
  | (destroyed) origin h1 where "persistence_attempt s h = (Inr origin, h1)"
      "ij 0 (h1, r) = (h', r')" "is_destroyed s h'" "res = Inl SessionConflict"
  | (unencoded) origin h1 h2 snap token h3 e where "persistence_attempt s h = (Inr origin, h1)"
      "ij 0 (h1, r) = (h2, r')" "persistence_snapshot s h2 = ((snap, token), h3)" "res = Inl e"
      "h' = revision_drop token h3"
  | (refused) origin h1 h2 r2 snap token h3 h4 e h5 where "persistence_attempt s h = (Inr origin, h1)"
      "ij 0 (h1, r) = (h2, r2)" "persistence_snapshot s h2 = ((snap, token), h3)"
      "ij 1 (h3, r2) = (h4, r')" "begin_backend_write s origin True h4 = (Ready (Inl e), h5)"
      "res = Inl e" "h' = revision_drop token h5"
  | (failed) origin snap token json g w5 e h6 where
      "save_begun c recheck ij s (h, r) origin snap token json g w5"
      "put origin snap json w5 = (Failed e, (h6, r'))" "res = Inl e"
      "h' = revision_drop token (write_guard_drop g h6)"
  | (revoked) origin snap token json g w5 w6 h7 where
      "save_begun c recheck ij s (h, r) origin snap token json g w5"
      "put origin snap json w5 = (Revoked, w6)" "ij 2 w6 = (h7, r')"
      "res = (if guard_is_destroyed g h7 then Inl SessionConflict else Inr None)"
      "h' = revision_drop token (write_guard_drop (g\<lparr>wg_settled := True\<rparr>) h7)"
  | (uncompensated) origin snap token json g w5 w6 w7 e h8 where
      "save_begun c recheck ij s (h, r) origin snap token json g w5"
      "put origin snap json w5 = (Stored, w6)" "ij 2 w6 = w7" "guard_is_destroyed g (fst w7)"
      "undo (s_id s) w7 = (Inl e, (h8, r'))" "res = Inl e"
      "h' = revision_drop token (write_guard_drop (g\<lparr>wg_settled := False\<rparr>) h8)"
  | (compensated) origin snap token json g w5 w6 w7 h8 where
      "save_begun c recheck ij s (h, r) origin snap token json g w5"
      "put origin snap json w5 = (Stored, w6)" "ij 2 w6 = w7" "guard_is_destroyed g (fst w7)"
      "undo (s_id s) w7 = (Inr (), (h8, r'))" "res = Inl SessionConflict"
      "h' = revision_drop token (write_guard_drop (g\<lparr>wg_settled := True\<rparr>) h8)"
  | (stored) origin snap token json g w5 w6 w7 h8 where
      "save_begun c recheck ij s (h, r) origin snap token json g w5"
      "put origin snap json w5 = (Stored, w6)" "ij 2 w6 = w7" "\<not> guard_is_destroyed g (fst w7)"
      "ij 3 w7 = (h8, r')" "res = Inr (s_cookie_value s)"
      "h' = write_guard_drop (g\<lparr>wg_settled := True\<rparr>) (acknowledge token (mark_persisted s h8))"
proof -
  obtain ra h1 where att: "persistence_attempt s h = (ra, h1)"
    by fastforce
  show ?thesis
  proof (cases ra)
    case (Inl e)
    then show ?thesis
      using assms att persistence_attempt_Inl[of s h e h1] early by (simp add: remote_store_session_def)
  next
    case (Inr origin)
    obtain h2 r2 where w2: "ij 0 (h1, r) = (h2, r2)"
      by fastforce
    obtain snap token h3 where ps: "persistence_snapshot s h2 = ((snap, token), h3)"
      by (metis surj_pair)
    obtain h4 r4 where w4: "ij 1 (h3, r2) = (h4, r4)"
      by fastforce
    obtain rb h5 where bg: "begin_backend_write s origin True h4 = (rb, h5)"
      by fastforce
    note att = att[unfolded Inr]
    note run = assms[unfolded remote_store_session_def, simplified Let_def att w2 prod.case sum.case]
    show ?thesis
    proof (cases "recheck \<and> is_destroyed s h2")
      case True
      then show ?thesis using run destroyed[OF att] w2 by auto
    next
      case go: False
      show ?thesis
      proof (cases "wc_to_json c (wire_of snap h3)")
        case (Inl e)
        then show ?thesis using run go ps unencoded[OF att _ ps] w2 by auto
      next
        case (Inr json)
        show ?thesis
        proof (cases rb)
          case Pending
          then show ?thesis using run go ps Inr w4[simplified] bg by simp
        next
          case (Ready rg)
          show ?thesis
          proof (cases rg)
            case (Inl e)
            then show ?thesis
              using run go ps \<open>wc_to_json c (wire_of snap h3) = Inr json\<close> w4 w4[simplified] bg Ready
                refused[OF att w2 ps] by auto
          next
            case (Inr g)
            note json = \<open>wc_to_json c (wire_of snap h3) = Inr json\<close>
            have begun: "save_begun c recheck ij s (h, r) origin snap token json g (h5, r4)"
              using att w2 go ps json w4 bg Ready Inr by (auto simp: save_begun_def)
            obtain outcome h6 r6 where pt: "put origin snap json (h5, r4) = (outcome, (h6, r6))"
              by (metis surj_pair)
            obtain h7 r7 where w7: "ij 2 (h6, r6) = (h7, r7)"
              by fastforce
            obtain ru h8 r8 where un: "undo (s_id s) (h7, r7) = (ru, (h8, r8))"
              by (metis surj_pair)
            obtain h9 r9 where w9: "ij 3 (h7, r7) = (h9, r9)"
              by fastforce
            have run: "(case outcome of
                Failed e \<Rightarrow> (Ready (Inl e), (revision_drop token (write_guard_drop g h6), r6))
              | Revoked \<Rightarrow>
                  (case guard_finish g h7 of
                     (Inl e, g1) \<Rightarrow> (Ready (Inl e), (revision_drop token (write_guard_drop g1 h7), r7))
                   | (Inr _, g1) \<Rightarrow>
                       (Ready (Inr None), (revision_drop token (write_guard_drop g1 h7), r7)))
              | Stored \<Rightarrow>
                  (case guard_finish g h7 of
                     (Inl e, g1) \<Rightarrow>
                       (case ru of
                          Inl e2 \<Rightarrow> (Ready (Inl e2), (revision_drop token
                            (write_guard_drop (guard_require_cleanup g1) h8), r8))
                        | Inr _ \<Rightarrow> (Ready (Inl e), (revision_drop token (write_guard_drop
                            (guard_confirm_removed (guard_require_cleanup g1)) h8), r8)))
                   | (Inr _, g1) \<Rightarrow>
                       (Ready (Inr (s_cookie_value s)),
                        (write_guard_drop g1 (acknowledge token (mark_persisted s h9)), r9))))
              = (Ready res, (h', r'))"
              using run go
              by (cases outcome; cases "guard_is_destroyed g h7"; cases ru)
                 (simp_all add: ps json w4[simplified] bg Ready Inr pt w7 un w9 guard_finish_def
                   guard_is_destroyed_def acknowledge_revision_def into_cookie_value_def Let_def)
            show ?thesis
            proof (cases outcome)
              case (Failed e)
              then show ?thesis using run failed[OF begun] pt by auto
            next
              case Revoked
              then show ?thesis
                using run revoked[OF begun] pt w7
                by (auto simp: guard_finish_def guard_is_destroyed_def Let_def split: if_splits)
            next
              case Stored
              note run = run[unfolded Stored write_outcome.case]
              show ?thesis
              proof (cases "guard_is_destroyed g h7")
                case False
                then show ?thesis
                  using run stored[OF begun pt[unfolded Stored] w7, of h9] w9
                  by (auto simp: guard_finish_def guard_is_destroyed_def Let_def
                      acknowledge_revision_def into_cookie_value_def)
              next
                case dead: True
                show ?thesis
                proof (cases ru)
                  case (Inl e)
                  then show ?thesis
                    using run dead un uncompensated[OF begun pt[unfolded Stored] w7]
                    by (auto simp: guard_finish_def guard_is_destroyed_def guard_require_cleanup_def
                        Let_def)
                next
                  case (Inr u)
                  then show ?thesis
                    using run dead un compensated[OF begun pt[unfolded Stored] w7]
                    by (auto simp: guard_finish_def guard_is_destroyed_def guard_require_cleanup_def
                        guard_confirm_removed_def Let_def)
                qed
              qed
            qed
          qed
        qed
      qed
    qed
  qed
qed

lemma save_begun_facts:
  assumes "save_begun c recheck ij s w origin snap token json g w5"
  shows "wg_state g = s_lifecycle s" "wg_destroyed g = s_destroy s" "\<not> wg_settled g"
    "wg_uncertain_on_drop g \<longleftrightarrow> origin \<noteq> Some (s_id s)" "sr_data token = s_data s" "s_id snap = s_id s"
    "\<exists>k r2. snd w5 = snd (ij 1 (k, r2)) \<and> (\<exists>k0. r2 = snd (ij 0 (k0, snd w)))"
    "fst (persistence_attempt s (fst w)) = Inr origin"
    "s_expiry snap = s_expiry s" "\<exists>k. wc_to_json c (wire_of snap k) = Inr json"
proof -
  obtain h1 h2 r2 h3 h4 h5 r4 where begun: "persistence_attempt s (fst w) = (Inr origin, h1)"
      "ij 0 (h1, snd w) = (h2, r2)" "persistence_snapshot s h2 = ((snap, token), h3)"
      "ij 1 (h3, r2) = (h4, r4)"
      "begin_backend_write s origin True h4 = (Ready (Inr g), h5)" "w5 = (h5, r4)"
      "wc_to_json c (wire_of snap h3) = Inr json"
    using assms unfolding save_begun_def by blast
  show "s_expiry snap = s_expiry s"
    using begun(3) by (auto simp: persistence_snapshot_def snapshot_values_def Let_def split_beta)
  show "\<exists>k. wc_to_json c (wire_of snap k) = Inr json"
    using begun(7) by blast
  show "wg_state g = s_lifecycle s" "wg_destroyed g = s_destroy s" "\<not> wg_settled g"
    "wg_uncertain_on_drop g \<longleftrightarrow> origin \<noteq> Some (s_id s)"
    using begin_backend_write_Inr[OF begun(5)] by auto
  show "sr_data token = s_data s" "s_id snap = s_id s"
    using persistence_snapshot_token[OF begun(3)] by auto
  show "\<exists>k r2. snd w5 = snd (ij 1 (k, r2)) \<and> (\<exists>k0. r2 = snd (ij 0 (k0, snd w)))"
    using begun(2,4,6) by (metis snd_conv)
  show "fst (persistence_attempt s (fst w)) = Inr origin"
    using begun(1) by simp
qed

lemma save_begun_alive:
  "save_begun c recheck ij s w origin snap token json g w5 \<Longrightarrow> guard_is_destroyed g k = is_destroyed s k"
  using save_begun_facts(2)[of c recheck ij s w origin snap token json g w5]
  by (simp add: guard_is_destroyed_def is_destroyed_def)

lemma save_begun_origin:
  "save_begun c recheck ij s w origin snap token json g w5 \<Longrightarrow> persistence_origin s (fst w) = Inr origin"
  using save_begun_facts(8)[of c recheck ij s w origin snap token json g w5]
  by (auto simp: persistence_attempt_def split: if_splits sum.splits)

lemma persistence_attempt_life: "h_life (snd (persistence_attempt s h)) = h_life h"
  by (simp add: persistence_attempt_def split: sum.splits)

lemma persistence_snapshot_unlocked:
  "persistence_snapshot s h = ((snap, token), h') \<Longrightarrow> \<not> ws_locked (h_life h l) \<Longrightarrow>
   \<not> ws_locked (h_life h' l)"
  by (auto simp: persistence_snapshot_def snapshot_values_def capture_def Let_def split_beta
      split: if_splits)

lemma needs_persist_drop: "sr_data token = s_data s \<Longrightarrow> needs_persist s (revision_drop token h)"
  by (simp add: needs_persist_def revision_drop_dirty)

text \<open>
  C30: however a save to a remote store ends, and whatever fails on the way, the lifecycle
  lock is released, unless another task holds it. If the save reports an error, then
  either nothing has happened at all or the session still needs to be persisted. It
  reports success only if the write of the encoded snapshot was answered: as stored, and
  the family was not destroyed by then, so that exactly the captured revision is
  acknowledged and the cookie is the session's own; or as revoked, which is the answer for
  an expired session, and then there is no cookie and the session still needs to be
  persisted. After that answer only other tasks have touched the records.
\<close>
theorem remote_save_outcomes:
  assumes call: "remote_store_session c recheck put undo ij s (h, r) = (Ready res, (h', r'))"
    and others: "\<And>n w. \<not> ws_locked (h_life (fst w) (s_lifecycle s)) \<Longrightarrow>
      \<not> ws_locked (h_life (fst (ij n w)) (s_lifecycle s))"
    and start: "\<not> ws_locked (h_life h (s_lifecycle s))"
  shows "\<not> ws_locked (h_life h' (s_lifecycle s)) \<and>
    (case res of
       Inl e \<Rightarrow> (h' = h \<and> r' = r) \<or> needs_persist s h'
     | Inr cookie \<Rightarrow> \<exists>origin snap token json g w5 w6.
         save_begun c recheck ij s (h, r) origin snap token json g w5 \<and>
         (put origin snap json w5 = (Stored, w6) \<and> cookie = s_cookie_value s \<and>
            \<not> is_destroyed s (fst (ij 2 w6)) \<and> r' = snd (ij 3 (ij 2 w6)) \<and>
            h' = write_guard_drop (g\<lparr>wg_settled := True\<rparr>)
                   (acknowledge token (mark_persisted s (fst (ij 3 (ij 2 w6))))) \<or>
          put origin snap json w5 = (Revoked, w6) \<and> cookie = None \<and>
            \<not> is_destroyed s (fst (ij 2 w6)) \<and> r' = snd (ij 2 w6) \<and> needs_persist s h'))"
proof -
  have first: "\<not> ws_locked (h_life h2 (s_lifecycle s))"
    if "persistence_attempt s h = (Inr origin, h1)" "ij 0 (h1, r) = (h2, r2)" for origin h1 h2 r2
    using others[of "(h1, r)" 0] persistence_attempt_life[of s h] start that by simp
  from call show ?thesis
  proof (cases rule: remote_store_cases)
    case early
    then show ?thesis using start by simp
  next
    case (destroyed origin h1)
    then show ?thesis using first by (simp add: needs_persist_def)
  next
    case (unencoded origin h1 h2 snap token h3 e)
    then show ?thesis
      using persistence_snapshot_unlocked[OF unencoded(3) first[OF unencoded(1,2)]]
        persistence_snapshot_token[OF unencoded(3)] needs_persist_drop by simp
  next
    case (refused origin h1 h2 r2 snap token h3 h4 e h5)
    then show ?thesis
      using begin_backend_write_Inl[OF refused(5)] persistence_snapshot_token[OF refused(3)]
        needs_persist_drop by simp
  next
    case (failed origin snap token json g w5 e h6)
    then show ?thesis
      using save_begun_facts(1,5)[OF failed(1)] needs_persist_drop by simp
  next
    case (revoked origin snap token json g w5 w6 h7)
    have dirty: "needs_persist s h'"
      using save_begun_facts(5)[OF revoked(1)] needs_persist_drop revoked(5) by simp
    have free: "\<not> ws_locked (h_life h' (s_lifecycle s))"
      using save_begun_facts(1)[OF revoked(1)] revoked(5) by simp
    show ?thesis
    proof (cases "is_destroyed s h7")
      case True
      then show ?thesis
        using free dirty revoked(4) save_begun_alive[OF revoked(1)] by simp
    next
      case False
      then have res: "res = Inr None" and alive: "\<not> is_destroyed s (fst (ij 2 w6))" "r' = snd (ij 2 w6)"
        using revoked(3,4) save_begun_alive[OF revoked(1)] by simp_all
      show ?thesis
        unfolding res sum.case using free revoked(1,2) alive dirty by blast
    qed
  next
    case (uncompensated origin snap token json g w5 w6 w7 e h8)
    then show ?thesis
      using save_begun_facts(1,5)[OF uncompensated(1)] needs_persist_drop by simp
  next
    case (compensated origin snap token json g w5 w6 w7 h8)
    then show ?thesis
      using save_begun_facts(1,5)[OF compensated(1)] needs_persist_drop by simp
  next
    case (stored origin snap token json g w5 w6 w7 h8)
    have alive: "\<not> is_destroyed s (fst (ij 2 w6))"
      using stored(3,4) save_begun_alive[OF stored(1)] by simp
    have free: "\<not> ws_locked (h_life h' (s_lifecycle s))"
      using save_begun_facts(1)[OF stored(1)] stored(7) by simp
    have exit: "r' = snd (ij 3 (ij 2 w6))" "h' = write_guard_drop (g\<lparr>wg_settled := True\<rparr>)
        (acknowledge token (mark_persisted s (fst (ij 3 (ij 2 w6)))))"
      using stored(3,5,7) by simp_all
    show ?thesis
      unfolding stored(6) sum.case using free stored(1,2) alive exit by blast
  qed
qed

text \<open>
  What a save does to the records. \<open>Q\<close> holds before it and \<open>R outcome\<close> after the write; the
  other clients keep both. Then \<open>Q\<close>, \<open>R\<close> of the outcome or the compensation of a stored
  record describe the records at the exit.
\<close>

lemma remote_store_outcome:
  assumes call: "remote_store_session c recheck put undo ij s (h, r) = (Ready res, (h', r'))"
    and start: "Q r"
    and others: "\<And>n w. Q (snd w) \<Longrightarrow> Q (snd (ij n w))"
      "\<And>n w outcome. R outcome (snd w) \<Longrightarrow> R outcome (snd (ij n w))"
    and put: "\<And>origin snap json w outcome w'. persistence_origin s h = Inr origin \<Longrightarrow> s_id snap = s_id s \<Longrightarrow>
      s_expiry snap = s_expiry s \<Longrightarrow> \<exists>k. wc_to_json c (wire_of snap k) = Inr json \<Longrightarrow>
      Q (snd w) \<Longrightarrow> put origin snap json w = (outcome, w') \<Longrightarrow> R outcome (snd w')"
  obtains (unwritten) e where "Q r'" "res = Inl e"
  | (failed) e where "R (Failed e) r'" "res = Inl e"
  | (revoked) "R Revoked r'"
  | (undone) w ack h8 e where "R Stored (snd w)" "is_destroyed s (fst w)"
      "undo (s_id s) w = (ack, (h8, r'))" "is_destroyed s h' = is_destroyed s h8" "res = Inl e"
  | (stored) "R Stored r'" "res = Inr (s_cookie_value s)"
proof -
  have early: "Q r2" if "ij n (k, r1) = (k2, r2)" "Q r1" for n k k2 r1 r2
    using others(1)[of "(k, r1)" n] that by simp
  have late: "R outcome (snd w2)" if "ij n w1 = w2" "R outcome (snd w1)" for n w1 w2 outcome
    using others(2)[of outcome w1 n] that by simp
  have written: "R outcome (snd w6)"
    if begun: "save_begun c recheck ij s (h, r) origin snap token json g w5"
      and run: "put origin snap json w5 = (outcome, w6)"
    for origin snap token json g w5 outcome w6
  proof -
    obtain k0 k where "snd w5 = snd (ij 1 (k, snd (ij 0 (k0, r))))"
      using save_begun_facts(7)[OF begun] by auto
    then have "Q (snd w5)"
      using others(1)[of "(k, snd (ij 0 (k0, r)))" 1] others(1)[of "(k0, r)" 0] start by simp
    then show ?thesis
      using put[OF save_begun_origin[OF begun, simplified]] save_begun_facts(6,9,10)[OF begun] run by blast
  qed
  have dead: "is_destroyed s k" if "save_begun c recheck ij s (h, r) origin snap token json g w5"
      "guard_is_destroyed g k" for origin snap token json g w5 k
    using save_begun_facts(2)[OF that(1)] that(2) by (simp add: guard_is_destroyed_def is_destroyed_def)
  from call show ?thesis
  proof (cases rule: remote_store_cases)
    case early
    then show ?thesis using start unwritten by simp
  next
    case (destroyed origin h1)
    then show ?thesis using unwritten[OF early[OF destroyed(2) start]] by simp
  next
    case (unencoded origin h1 h2 snap token h3 e)
    then show ?thesis using unwritten[OF early[OF unencoded(2) start]] by simp
  next
    case (refused origin h1 h2 r2 snap token h3 h4 e h5)
    then show ?thesis using unwritten[OF early[OF refused(4) early[OF refused(2) start]]] by simp
  next
    case (failed origin snap token json g w5 e h6)
    then show ?thesis using written[OF failed(1,2)] that(2) by simp
  next
    case (revoked origin snap token json g w5 w6 h7)
    then show ?thesis using late[OF revoked(3) written[OF revoked(1,2)]] that(3) by simp
  next
    case (uncompensated origin snap token json g w5 w6 w7 e h8)
    then show ?thesis
      using undone[OF late[OF uncompensated(3) written[OF uncompensated(1,2)]]
          dead[OF uncompensated(1,4)] uncompensated(5)] by (simp add: is_destroyed_def)
  next
    case (compensated origin snap token json g w5 w6 w7 h8)
    then show ?thesis
      using undone[OF late[OF compensated(3) written[OF compensated(1,2)]]
          dead[OF compensated(1,4)] compensated(5)] by (simp add: is_destroyed_def)
  next
    case (stored origin snap token json g w5 w6 w7 h8)
    then show ?thesis
      using late[OF stored(5) late[OF stored(3) written[OF stored(1,2)]]] that(5) by simp
  qed
qed

text \<open>
  If \<open>Q\<close> holds before, the other clients keep \<open>Q\<close> and \<open>I\<close>, the write leads from \<open>Q\<close> to \<open>I\<close> and
  the compensation keeps \<open>I\<close>, then \<open>I\<close> holds at every exit.
\<close>

lemma remote_store_preserves:
  assumes call: "remote_store_session c recheck put undo ij s (h, r) = (Ready res, (h', r'))"
    and start: "Q r" and weaken: "\<And>r. Q r \<Longrightarrow> I r"
    and others: "\<And>n w. Q (snd w) \<Longrightarrow> Q (snd (ij n w))" "\<And>n w. I (snd w) \<Longrightarrow> I (snd (ij n w))"
    and put: "\<And>origin snap json w. persistence_origin s h = Inr origin \<Longrightarrow> s_id snap = s_id s \<Longrightarrow>
      s_expiry snap = s_expiry s \<Longrightarrow> \<exists>k. wc_to_json c (wire_of snap k) = Inr json \<Longrightarrow>
      Q (snd w) \<Longrightarrow> I (snd (snd (put origin snap json w)))"
    and undo: "\<And>w. I (snd w) \<Longrightarrow> I (snd (snd (undo (s_id s) w)))"
  shows "I r'"
proof (rule remote_store_outcome[where Q = Q and R = "\<lambda>outcome. I", OF call start others])
  show "I (snd w')" if "persistence_origin s h = Inr origin" "s_id snap = s_id s" "s_expiry snap = s_expiry s"
      "\<exists>k. wc_to_json c (wire_of snap k) = Inr json" "Q (snd w)" "put origin snap json w = (outcome, w')"
    for origin snap json w outcome w'
    using put[OF that(1-5)] that(6) by simp
  show "I r'" if "I (snd w)" "undo (s_id s) w = (ack, (h8, r'))" for w ack h8
    using undo[OF that(1)] that(2) by simp
qed (use weaken in auto)

subsection \<open>The fence around unconfirmed creations\<close>

text \<open>
  What a store has to provide. \<open>sealed sv t\<close>: the server is lawful and nobody else writes a
  record \<open>t\<close>. Then revoking an expired session does not create it, and a confirmed
  compensation has removed it.
\<close>

locale remote_backend =
  fixes put :: "'o \<Rightarrow> string option \<Rightarrow> session \<Rightarrow> string \<Rightarrow> 'r remote \<Rightarrow> write_outcome \<times> 'r remote"
    and undo :: "'o \<Rightarrow> string \<Rightarrow> 'r remote \<Rightarrow> (error + unit) \<times> 'r remote"
    and ids :: "'o \<Rightarrow> 'r \<Rightarrow> string set"
    and sealed :: "'o \<Rightarrow> string \<Rightarrow> bool"
  assumes put_revoked: "sealed sv t \<Longrightarrow> put sv origin snap json w = (Revoked, w') \<Longrightarrow>
      t \<notin> ids sv (snd w) \<Longrightarrow> t \<notin> ids sv (snd w')"
    and undo_done: "sealed sv t \<Longrightarrow> undo sv t w = (Inr (), w') \<Longrightarrow> t \<notin> ids sv (snd w')"
begin

lemma failed_creation_fenced:
  assumes call: "remote_store_session c recheck (put sv) (undo sv) ij s (h, r) = (Ready (Inl e), (h', r'))"
    and sealed: "sealed sv (s_id s)"
    and others: "\<And>n w. s_id s \<notin> ids sv (snd w) \<Longrightarrow> s_id s \<notin> ids sv (snd (ij n w))"
    and start: "s_id s \<notin> ids sv r" and new: "persistence_origin s h \<noteq> Inr (Some (s_id s))"
  shows "s_id s \<notin> ids sv r' \<or> ws_uncertain (h_life h' (s_lifecycle s))"
proof -
  have r5: "s_id s \<notin> ids sv (snd w5) \<and> wg_uncertain_on_drop g \<and> wg_state g = s_lifecycle s \<and> \<not> wg_settled g"
    if begun: "save_begun c recheck ij s (h, r) origin snap token json g w5"
    for origin snap token json g w5
  proof -
    obtain k0 k where "snd w5 = snd (ij 1 (k, snd (ij 0 (k0, r))))"
      using save_begun_facts(7)[OF begun] by auto
    moreover have "origin \<noteq> Some (s_id s)"
      using save_begun_facts(8)[OF begun] new
      by (auto simp: persistence_attempt_def split: if_splits sum.splits)
    ultimately show ?thesis
      using others[of "(k0, r)" 0] others[of "(k, snd (ij 0 (k0, r)))" 1] start
        save_begun_facts(1,3,4)[OF begun] by simp
  qed
  have r2: "s_id s \<notin> ids sv r2" if "ij 0 (k, r) = (k2, r2)" for k k2 r2
    using others[of "(k, r)" 0] start that by simp
  from call show ?thesis
  proof (cases rule: remote_store_cases)
    case early
    then show ?thesis using start by simp
  next
    case (destroyed origin h1)
    then show ?thesis using r2 by simp
  next
    case (unencoded origin h1 h2 snap token h3 e)
    then show ?thesis using r2 by simp
  next
    case (refused origin h1 h2 q2 snap token h3 h4 e h5)
    then show ?thesis using r2[OF refused(2)] others[of "(h3, q2)" 1] by simp
  next
    case (failed origin snap token json g w5 e h6)
    then show ?thesis using r5[OF failed(1)] by simp
  next
    case (revoked origin snap token json g w5 w6 h7)
    then show ?thesis
      using r5[OF revoked(1)] put_revoked[OF sealed revoked(2)] others[of w6 2] by simp
  next
    case (uncompensated origin snap token json g w5 w6 w7 e h8)
    then show ?thesis using r5[OF uncompensated(1)] by simp
  next
    case (compensated origin snap token json g w5 w6 w7 h8)
    then show ?thesis using undo_done[OF sealed compensated(5)] by simp
  qed simp
qed

end

subsection \<open>Undisturbed saves\<close>

text \<open>The text of a session loads as a fresh and clean copy of it.\<close>

lemma saved_text_loads:
  assumes codec: "codec_laws c" and json: "wc_to_json c (wire_of s h) = Inr json"
    and cookie: "id_from_cookie_value p cookie = Inr (s_id s)" and live: "\<not> is_expired now s"
    and found: "lookup (s_id s) (h', r') = (Inr (Some json), (h', r'))"
  obtains t h2 where "remote_load_session p c lookup now cookie (h', r') = (Inr (Some t), (h2, r'))"
    "wire_of t h2 = wire_of s h" "\<not> needs_persist t h2" "persistence_origin t h2 = Inr (Some (s_id s))"
    "session_allocated h2 t" "lineage_idle t h2" "h_pid h2 (s_persisted_id t) = Some (s_id s)"
proof -
  let ?t0 = "fst (session_of_wire (wire_of s h) h')" and ?k = "snd (session_of_wire (wire_of s h) h')"
  have fresh: "s_id ?t0 = s_id s" "\<not> is_expired now ?t0" "\<not> is_destroyed ?t0 ?k"
    using live by (simp_all add: wire_of_def is_expired_def is_destroyed_def session_of_wire_heap)
  then obtain t h2 where v: "validate_loaded p 1 now cookie ?t0 ?k = (Inr (Some t), h2)"
    using cookie by (auto simp: validate_loaded_def Let_def split_beta)
  have facts: "wire_of t h2 = wire_of s h \<and> \<not> needs_persist t h2 \<and>
      persistence_origin t h2 = Inr (Some (s_id s)) \<and> session_allocated h2 t \<and> lineage_idle t h2 \<and>
      h_pid h2 (s_persisted_id t) = Some (s_id s)"
    using v unfolding validate_loaded_Some
    by (auto simp: Let_def wire_of_def session_of_wire_heap needs_persist_def data_changed_def
        data_dirty_def is_destroyed_def persistence_origin_def session_allocated_def lineage_idle_def)
  have load: "remote_load_session p c lookup now cookie (h', r') = (Inr (Some t), (h2, r'))"
    using v cookie found codec_lawsD(5)[OF codec json]
    by (simp add: remote_load_session_def Let_def split_beta)
  show ?thesis by (rule that[OF load]) (use facts in simp_all)
qed

text \<open>
  \<open>quiet sv\<close>: the server is lawful, every request arrives and nobody else is active. Then
  a write that the records admit succeeds, and a lookup finds the text that was written.
\<close>

locale remote_records =
  fixes put :: "'o \<Rightarrow> string option \<Rightarrow> session \<Rightarrow> string \<Rightarrow> 'r remote \<Rightarrow> write_outcome \<times> 'r remote"
    and undo :: "'o \<Rightarrow> string \<Rightarrow> 'r remote \<Rightarrow> (error + unit) \<times> 'r remote"
    and lookup :: "'o \<Rightarrow> string \<Rightarrow> 'r remote \<Rightarrow> (error + string option) \<times> 'r remote"
    and admits :: "'o \<Rightarrow> string option \<Rightarrow> string \<Rightarrow> datetime option \<Rightarrow> 'r \<Rightarrow> bool"
    and quiet :: "'o \<Rightarrow> bool"
  assumes put_lookup: "quiet sv \<Longrightarrow> admits sv origin (s_id snap) (s_expiry snap) r \<Longrightarrow>
      \<exists>r'. put sv origin snap json (h, r) = (Stored, (h, r')) \<and>
        (\<forall>k. lookup sv (s_id snap) (k, r') = (Inr (Some json), (k, r')))"
begin

lemma saved_session_loads:
  assumes quiet: "quiet sv" and codec: "codec_laws c"
    and alloc: "session_allocated h s" and idle: "lineage_idle s h"
    and origin: "persistence_origin s h = Inr origin"
    and json: "wc_to_json c (wire_of s h) = Inr json"
    and admitted: "admits sv origin (s_id s) (s_expiry s) r"
    and cookie: "id_from_cookie_value p cookie = Inr (s_id s)" and live: "\<not> is_expired now s"
  shows "\<exists>h' r' t h2.
     remote_store_session c recheck (put sv) (undo sv) undisturbed s (h, r) =
       (Ready (Inr (s_cookie_value s)), (h', r')) \<and>
     remote_load_session p c (lookup sv) now cookie (h', r') = (Inr (Some t), (h2, r')) \<and>
     wire_of t h2 = wire_of s h \<and> \<not> needs_persist t h2 \<and>
     persistence_origin t h2 = Inr (Some (s_id s)) \<and>
     h_pid h' (s_persisted_id s) = Some (s_id s) \<and> lineage_idle s h' \<and>
     (sd_active_saves (h_data h (s_data s)) = 0 \<longrightarrow> \<not> data_dirty (h_data h' (s_data s))) \<and>
     session_allocated h2 t \<and> lineage_idle t h2 \<and> h_pid h2 (s_persisted_id t) = Some (s_id s) \<and>
     (\<exists>snap k. put sv origin snap json (k, r) = (Stored, (k, r')) \<and> s_id snap = s_id s \<and> s_expiry snap = s_expiry s)"
proof -
  obtain ha snap token hb hc g where run: "persistence_attempt s h = (Inr origin, ha)"
      "\<not> is_destroyed s ha" "persistence_snapshot s ha = ((snap, token), hb)"
      "begin_backend_write s origin True hb = (Ready (Inr g), hc)"
    and g: "g = \<lparr>wg_state = s_lifecycle s, wg_destroyed = s_destroy s, wg_receipt = None,
       wg_uncertain_on_drop = (origin \<noteq> Some (s_id s) \<and> True), wg_settled = False\<rparr>"
    and snap: "snap = \<lparr>s_id = s_id s, s_expiry = s_expiry s, s_data = h_next h, s_cookie_value = None,
       s_metadata_changed = False, s_persisted_id = h_next h, s_rotation_from = None,
       s_fresh = False, s_creation_claimed = h_next h, s_lifecycle = h_next h, s_destroy = h_next h\<rparr>"
    and token: "token = \<lparr>sr_data = s_data s, sr_revision = sd_revision (h_data h (s_data s))\<rparr>"
    and data: "h_data hb (h_next h) = session_data_of (sd_values (h_data h (s_data s)))"
      "h_data hc = h_data hb" "h_data hb (s_data s) = capture_data (h_data h (s_data s))"
    and hc: "h_pid hc (s_persisted_id s) = h_pid h (s_persisted_id s)"
      "\<not> h_destroy hc (s_destroy s)" "\<not> ws_uncertain (h_life hc (s_lifecycle s))"
    by (rule save_begins[OF alloc idle origin, of True]) auto
  have wire: "wire_of snap hb = wire_of s h"
    by (simp add: wire_of_def snap data)
  obtain r' where put: "put sv origin snap json (hc, r) = (Stored, (hc, r'))"
      "\<And>k. lookup sv (s_id s) (k, r') = (Inr (Some json), (k, r'))"
    using put_lookup[OF quiet, of origin snap r json hc] admitted by (auto simp: snap)
  define h' where "h' = write_guard_drop (g\<lparr>wg_settled := True\<rparr>) (acknowledge token (mark_persisted s hc))"
  have call: "remote_store_session c recheck (put sv) (undo sv) undisturbed s (h, r) =
      (Ready (Inr (s_cookie_value s)), (h', r'))"
    using hc(2)
    by (simp add: remote_store_session_def Let_def run wire json put(1) guard_finish_def
        guard_is_destroyed_def g acknowledge_revision_def into_cookie_value_def h'_def)
  have pid: "h_pid h' (s_persisted_id s) = Some (s_id s)"
    using origin hc(1)
    by (auto simp: h'_def acknowledge_def mark_persisted_def Let_def persistence_origin_Inr
        split: option.splits)
  have clean: "sd_active_saves (h_data h (s_data s)) = 0 \<longrightarrow> \<not> data_dirty (h_data h' (s_data s))"
    by (simp add: h'_def acknowledge_def token data data_dirty_def)
  have free: "lineage_idle s h'"
    using hc by (simp add: h'_def lineage_idle_def is_destroyed_def g)
  obtain t h2 where t: "remote_load_session p c (lookup sv) now cookie (h', r') = (Inr (Some t), (h2, r'))"
      "wire_of t h2 = wire_of s h" "\<not> needs_persist t h2" "persistence_origin t h2 = Inr (Some (s_id s))"
      "session_allocated h2 t" "lineage_idle t h2" "h_pid h2 (s_persisted_id t) = Some (s_id s)"
    by (rule saved_text_loads[where lookup = "lookup sv", OF codec json cookie live put(2)])
  show ?thesis
    using call t pid clean free put(1)
    by (intro exI[of _ h'] exI[of _ r'] exI[of _ t] exI[of _ h2] conjI exI[of _ snap] exI[of _ hc])
       (simp_all add: snap)
qed

end

lemma fresh_encodes:
  "\<exists>json. wc_to_json reference_codec (wire_of fresh_reference fresh_heap) = Inr json"
  by (simp add: wire_of_def reference_codec_def ref_encode_def fresh_reference_def
      fresh_session_def example_session_def)

text \<open>An unsaved rotation from \<open>a\<close> to \<open>b\<close>.\<close>

definition rotated_session :: session where
  "rotated_session = example_session\<lparr>s_id := ''b'', s_rotation_from := Some ''a''\<rparr>"

lemma rotated_session_facts:
  "persistence_origin rotated_session example_heap = Inr (Some ''a'')" "''a'' \<noteq> s_id rotated_session"
  "s_id rotated_session = ''b''"
  by (simp_all add: persistence_origin_def rotated_session_def example_session_def)

end
