(* ===== verification/Redis_Store.thy ===== *)
theory Redis_Store
  imports Remote_Facts
begin

text \<open>
  The Redis store (\<open>src/redis_store.rs\<close>). The server's commands are a record of functions
  with the documented behaviour as laws; keys, patterns, lifetimes, the rotation script,
  the order of the commands and the scan loops are the crate's and are defined here.
\<close>

subsection \<open>Patterns and lifetimes\<close>

definition DEFAULT_PREFIX :: string where
  "DEFAULT_PREFIX = ''saysion/''"

definition SCAN_BATCH_SIZE :: nat where
  "SCAN_BATCH_SIZE = 256"

definition is_glob_char :: "char \<Rightarrow> bool" where
  "is_glob_char ch \<longleftrightarrow> ch \<in> {CHR ''*'', CHR ''?'', CHR ''['', CHR '']'', CHR 0x5C}"

fun escape_prefix :: "string \<Rightarrow> string" where
  "escape_prefix [] = []"
| "escape_prefix (ch # cs) =
     (if is_glob_char ch then CHR 0x5C # ch # escape_prefix cs else ch # escape_prefix cs)"

definition prefix_pattern :: "string \<Rightarrow> string" where
  "prefix_pattern pre = escape_prefix pre @ ''*''"

definition ttl_millis :: "duration \<Rightarrow> error + u64" where
  "ttl_millis ttl =
     (let millis = div_ceil ttl 1000000 in
      if millis < 2 ^ 64 then Inr (max (of_nat millis) 1) else Inl OutOfRange)"

subsection \<open>The server\<close>

text \<open>
  \<open>GET\<close>, \<open>EXISTS\<close>, \<open>SET\<close> (with an optional lifetime in milliseconds and a mode; it says
  whether it stored), \<open>DEL\<close>, \<open>SCAN\<close> (cursor, pattern, count) and \<open>UNLINK\<close>.
\<close>

datatype set_mode = Always | NX | XX

record 'r redis_server =
  rd_get :: "string \<Rightarrow> 'r \<Rightarrow> string option"
  rd_exists :: "string \<Rightarrow> 'r \<Rightarrow> bool"
  rd_set :: "string \<Rightarrow> string \<Rightarrow> u64 option \<Rightarrow> set_mode \<Rightarrow> 'r \<Rightarrow> bool \<times> 'r"
  rd_del :: "string \<Rightarrow> 'r \<Rightarrow> 'r"
  rd_scan :: "u64 \<Rightarrow> string \<Rightarrow> nat \<Rightarrow> 'r \<Rightarrow> u64 \<times> string list"
  rd_unlink :: "string list \<Rightarrow> 'r \<Rightarrow> nat \<times> 'r"

text \<open>\<open>view\<close> gives the live keys of a server state, with value and lifetime.\<close>

type_synonym 'r redis_view = "'r \<Rightarrow> string \<rightharpoonup> string \<times> u64 option"

definition set_permitted :: "set_mode \<Rightarrow> bool \<Rightarrow> bool" where
  "set_permitted mode present = (case mode of Always \<Rightarrow> True | NX \<Rightarrow> \<not> present | XX \<Rightarrow> present)"

definition redis_laws :: "'r redis_server \<Rightarrow> 'r redis_view \<Rightarrow> bool" where
  "redis_laws sv view \<longleftrightarrow>
     (\<forall>k r. rd_get sv k r = map_option fst (view r k)) \<and>
     (\<forall>k r. rd_exists sv k r = (view r k \<noteq> None)) \<and>
     (\<forall>k v px mode r. set_permitted mode (view r k \<noteq> None) \<longrightarrow>
        fst (rd_set sv k v px mode r) \<and> view (snd (rd_set sv k v px mode r)) = (view r)(k \<mapsto> (v, px))) \<and>
     (\<forall>k v px mode r. \<not> set_permitted mode (view r k \<noteq> None) \<longrightarrow> rd_set sv k v px mode r = (False, r)) \<and>
     (\<forall>k r. view (rd_del sv k r) = (view r)(k := None)) \<and>
     (\<forall>ks r. view (snd (rd_unlink sv ks r)) = (\<lambda>k. if k \<in> set ks then None else view r k))"

subsection \<open>Saving\<close>

record 'r redis_store =
  rs_server :: "'r redis_server"
  rs_prefix :: string

definition from_connection_manager :: "'r redis_server \<Rightarrow> 'r redis_store" where
  "from_connection_manager conn = \<lparr>rs_server = conn, rs_prefix = DEFAULT_PREFIX\<rparr>"

definition with_prefix :: "string \<Rightarrow> 'r redis_store \<Rightarrow> 'r redis_store" where
  "with_prefix pre st = st\<lparr>rs_prefix := pre\<rparr>"

definition redis_key :: "'r redis_store \<Rightarrow> string \<Rightarrow> string" where
  "redis_key st ident = rs_prefix st @ ident"

text \<open>The script of the rotation, which the server runs as one command.\<close>

definition rotate_script ::
  "'r redis_server \<Rightarrow> string \<Rightarrow> string \<Rightarrow> string \<Rightarrow> u64 \<Rightarrow> 'r \<Rightarrow> int \<times> 'r" where
  "rotate_script sv key1 key2 json ttl r =
     (if \<not> rd_exists sv key1 r \<or> rd_exists sv key2 r then (0, r)
      else
        (let r1 = (if ttl > 0 then snd (rd_set sv key2 json (Some ttl) Always r)
                   else snd (rd_set sv key2 json None Always r))
         in (1, rd_del sv key1 r1)))"

definition redis_delete ::
  "'r redis_store \<Rightarrow> 'r remote interleaving \<Rightarrow> network \<Rightarrow> nat \<Rightarrow> string \<Rightarrow> 'r remote \<Rightarrow>
   (error + unit) \<times> 'r remote" where
  "redis_delete st ij net k ident =
     remote_call ij net k (\<lambda>r. ((), rd_del (rs_server st) (redis_key st ident) r))"

definition redis_rotate ::
  "'r redis_store \<Rightarrow> 'r remote interleaving \<Rightarrow> network \<Rightarrow> string \<Rightarrow> string \<Rightarrow> string \<Rightarrow> u64 \<Rightarrow>
   'r remote \<Rightarrow> write_outcome \<times> 'r remote" where
  "redis_rotate st ij net old_id ident json ttl w =
     (case remote_call ij net 4
             (rotate_script (rs_server st) (redis_key st old_id) (redis_key st ident) json ttl) w of
        (Inl e, w1) \<Rightarrow> (Failed e, w1)
      | (Inr rotated, w1) \<Rightarrow> if rotated = 0 then (Failed SessionConflict, w1) else (Stored, w1))"

definition redis_put ::
  "'r redis_store \<Rightarrow> datetime \<Rightarrow> 'r remote interleaving \<Rightarrow> network \<Rightarrow> string option \<Rightarrow> session \<Rightarrow>
   string \<Rightarrow> 'r remote \<Rightarrow> write_outcome \<times> 'r remote" where
  "redis_put st now ij net origin snap json w =
     (let ident = s_id snap in
      case rotation_source origin ident of
        Some old_id \<Rightarrow>
          (case s_expiry snap of
             Some _ \<Rightarrow>
               (case expires_in now snap of
                  None \<Rightarrow>
                    (case redis_delete st ij net 4 old_id w of
                       (Inl e, w1) \<Rightarrow> (Failed e, w1)
                     | (Inr _, w1) \<Rightarrow> (Revoked, w1))
                | Some ttl \<Rightarrow>
                    (case ttl_millis ttl of
                       Inl e \<Rightarrow> (Failed e, w)
                     | Inr millis \<Rightarrow> redis_rotate st ij net old_id ident json millis w))
           | None \<Rightarrow> redis_rotate st ij net old_id ident json 0 w)
      | None \<Rightarrow>
          (let ttl = expires_in now snap in
           if s_expiry snap \<noteq> None \<and> ttl = None then
             (case redis_delete st ij net 4 ident w of
                (Inl e, w1) \<Rightarrow> (Failed e, w1)
              | (Inr _, w1) \<Rightarrow> (Revoked, w1))
           else
             (case (case ttl of None \<Rightarrow> Inr None | Some d \<Rightarrow> map_sum id Some (ttl_millis d)) of
                Inl e \<Rightarrow> (Failed e, w)
              | Inr px \<Rightarrow>
                  (case remote_call ij net 4
                          (rd_set (rs_server st) (redis_key st ident) json px
                             (if origin \<noteq> None then XX else NX)) w of
                     (Inl e, w1) \<Rightarrow> (Failed e, w1)
                   | (Inr saved, w1) \<Rightarrow>
                       if \<not> saved then (Failed SessionConflict, w1) else (Stored, w1)))))"

definition redis_store_session ::
  "codec \<Rightarrow> 'r redis_store \<Rightarrow> datetime \<Rightarrow> 'r remote interleaving \<Rightarrow> network \<Rightarrow> session \<Rightarrow>
   'r remote \<Rightarrow> (error + string option) poll \<times> 'r remote" where
  "redis_store_session c st now ij net =
     remote_store_session c True (redis_put st now ij net) (redis_delete st ij net 5) ij"

subsection \<open>Loading and deleting\<close>

definition redis_lookup ::
  "'r redis_store \<Rightarrow> 'r remote interleaving \<Rightarrow> network \<Rightarrow> string \<Rightarrow> 'r remote \<Rightarrow>
   (error + string option) \<times> 'r remote" where
  "redis_lookup st ij net ident =
     remote_call ij net 0 (\<lambda>r. (rd_get (rs_server st) (redis_key st ident) r, r))"

definition redis_load_session ::
  "primitives \<Rightarrow> codec \<Rightarrow> 'r redis_store \<Rightarrow> 'r remote interleaving \<Rightarrow> network \<Rightarrow> datetime \<Rightarrow> string \<Rightarrow>
   'r remote \<Rightarrow> (error + session option) \<times> 'r remote" where
  "redis_load_session p c st ij net now cookie =
     remote_load_session p c (redis_lookup st ij net) now cookie"

definition redis_destroy_session ::
  "'r redis_store \<Rightarrow> 'r remote interleaving \<Rightarrow> network \<Rightarrow> session \<Rightarrow> 'r remote \<Rightarrow>
   (error + unit) poll \<times> 'r remote" where
  "redis_destroy_session st ij net = remote_destroy_session (redis_delete st ij net 1) ij"

subsection \<open>Scanning\<close>

definition redis_scan ::
  "'r redis_store \<Rightarrow> 'r remote interleaving \<Rightarrow> network \<Rightarrow> nat \<Rightarrow> u64 \<Rightarrow> 'r remote \<Rightarrow>
   (error + u64 \<times> string list) \<times> 'r remote" where
  "redis_scan st ij net k cursor =
     remote_call ij net k
       (\<lambda>r. (rd_scan (rs_server st) cursor (prefix_pattern (rs_prefix st)) SCAN_BATCH_SIZE r, r))"

definition has_prefix :: "'r redis_store \<Rightarrow> string \<Rightarrow> bool" where
  "has_prefix st key \<longleftrightarrow> take (length (rs_prefix st)) key = rs_prefix st"

partial_function (option) redis_count_from ::
  "'r redis_store \<Rightarrow> 'r remote interleaving \<Rightarrow> network \<Rightarrow> nat \<Rightarrow> u64 \<Rightarrow> nat \<Rightarrow> 'r remote \<Rightarrow>
   ((error + nat) \<times> 'r remote) option" where
  "redis_count_from st ij net k cursor counted w =
     (case redis_scan st ij net k cursor w of
        (Inl e, w1) \<Rightarrow> Some (Inl e, w1)
      | (Inr (next, keys), w1) \<Rightarrow>
          (let counted1 = counted + length (filter (has_prefix st) keys) in
           if next = 0 then Some (Inr counted1, w1)
           else redis_count_from st ij net (k + 1) next counted1 w1))"

definition redis_count ::
  "'r redis_store \<Rightarrow> 'r remote interleaving \<Rightarrow> network \<Rightarrow> 'r remote \<Rightarrow>
   ((error + nat) \<times> 'r remote) option" where
  "redis_count st ij net w = redis_count_from st ij net 0 0 0 w"

text \<open>One \<open>UNLINK\<close> per batch; the first component counts the requests sent so far.\<close>

fun unlink_batches ::
  "'r redis_store \<Rightarrow> 'r remote interleaving \<Rightarrow> network \<Rightarrow> nat \<Rightarrow> string list list \<Rightarrow> 'r remote \<Rightarrow>
   nat \<times> (error + unit) \<times> 'r remote" where
  "unlink_batches st ij net k [] w = (k, Inr (), w)"
| "unlink_batches st ij net k (b # bs) w =
     (case remote_call ij net k (rd_unlink (rs_server st) b) w of
        (Inl e, w1) \<Rightarrow> (k + 1, Inl e, w1)
      | (Inr _, w1) \<Rightarrow> unlink_batches st ij net (k + 1) bs w1)"

partial_function (option) redis_clear_from ::
  "'r redis_store \<Rightarrow> 'r remote interleaving \<Rightarrow> network \<Rightarrow> nat \<Rightarrow> u64 \<Rightarrow> 'r remote \<Rightarrow>
   ((error + unit) \<times> 'r remote) option" where
  "redis_clear_from st ij net k cursor w =
     (case redis_scan st ij net k cursor w of
        (Inl e, w1) \<Rightarrow> Some (Inl e, w1)
      | (Inr (next, keys), w1) \<Rightarrow>
          (case unlink_batches st ij net (k + 1)
                  (chunks SCAN_BATCH_SIZE (filter (has_prefix st) keys)) w1 of
             (k2, Inl e, w2) \<Rightarrow> Some (Inl e, w2)
           | (k2, Inr _, w2) \<Rightarrow>
               if next = 0 then Some (Inr (), w2) else redis_clear_from st ij net k2 next w2))"

definition redis_clear_store ::
  "'r redis_store \<Rightarrow> 'r remote interleaving \<Rightarrow> network \<Rightarrow> 'r remote \<Rightarrow>
   ((error + unit) \<times> 'r remote) option" where
  "redis_clear_store st ij net w = redis_clear_from st ij net 0 0 w"

end
