(* ===== verification/Redis_Facts.thy ===== *)
theory Redis_Facts
  imports Redis_Store
begin

text \<open>
  Correctness of the Redis store: patterns match the prefix literally, lifetimes round up,
  and a write refines the conditional write of the contract.
\<close>

subsection \<open>A concrete server\<close>

type_synonym redis_db = "(string \<times> string \<times> u64 option) list"

definition db_remove :: "string list \<Rightarrow> redis_db \<Rightarrow> redis_db" where
  "db_remove ks db = filter (\<lambda>e. fst e \<notin> set ks) db"

lemma map_of_db_remove [simp]: "map_of (db_remove ks db) k = (if k \<in> set ks then None else map_of db k)"
  by (induction db) (auto simp: db_remove_def)

text \<open>Glob matching without character classes.\<close>

fun ref_glob :: "string \<Rightarrow> string \<Rightarrow> bool" where
  "ref_glob [] s = (s = [])"
| "ref_glob (ch # p) s =
     (if ch = CHR ''*'' then ref_glob p s \<or> (case s of [] \<Rightarrow> False | _ # xs \<Rightarrow> ref_glob (ch # p) xs)
      else if ch = CHR ''?'' then (case s of [] \<Rightarrow> False | _ # xs \<Rightarrow> ref_glob p xs)
      else if ch = CHR 0x5C then
        (case p of [] \<Rightarrow> False
         | lit # q \<Rightarrow> (case s of [] \<Rightarrow> False | x # xs \<Rightarrow> x = lit \<and> ref_glob q xs))
      else if is_glob_char ch then False
      else (case s of [] \<Rightarrow> False | x # xs \<Rightarrow> x = ch \<and> ref_glob p xs))"

definition reference_redis :: "redis_db redis_server" where
  "reference_redis =
     \<lparr>rd_get = (\<lambda>k db. map_option fst (map_of db k)),
      rd_exists = (\<lambda>k db. map_of db k \<noteq> None),
      rd_set = (\<lambda>k v px mode db. if set_permitted mode (map_of db k \<noteq> None)
          then (True, (k, v, px) # db_remove [k] db) else (False, db)),
      rd_del = (\<lambda>k db. db_remove [k] db),
      rd_scan = (\<lambda>cursor pattern n db. (0, filter (ref_glob pattern) (map fst db))),
      rd_unlink = (\<lambda>ks db. (length (filter (\<lambda>e. fst e \<in> set ks) db), db_remove ks db))\<rparr>"

lemma reference_redis_laws: "redis_laws reference_redis map_of"
  by (auto simp: redis_laws_def reference_redis_def fun_eq_iff)

subsection \<open>Patterns\<close>

text \<open>
  The documented parts of glob matching that the crate uses: a final star matches
  everything, an ordinary character and an escaped character match themselves.
\<close>

definition glob_laws :: "(string \<Rightarrow> string \<Rightarrow> bool) \<Rightarrow> bool" where
  "glob_laws g \<longleftrightarrow> (\<forall>s. g ''*'' s) \<and>
     (\<forall>ch p s. \<not> is_glob_char ch \<longrightarrow> g (ch # p) s = (\<exists>t. s = ch # t \<and> g p t)) \<and>
     (\<forall>ch p s. g (CHR 0x5C # ch # p) s = (\<exists>t. s = ch # t \<and> g p t))"

declare ref_glob.simps(2) [simp del]

lemma ref_glob_step:
  "ref_glob ''*'' s"
  "\<not> is_glob_char ch \<Longrightarrow> ref_glob (ch # p) s = (\<exists>t. s = ch # t \<and> ref_glob p t)"
  "ref_glob (CHR 0x5C # ch # p) s = (\<exists>t. s = ch # t \<and> ref_glob p t)"
proof -
  show "ref_glob ''*'' s"
    by (induction s) (subst ref_glob.simps(2), simp)+
  show "ref_glob (ch # p) s = (\<exists>t. s = ch # t \<and> ref_glob p t)" if "\<not> is_glob_char ch"
    using that by (subst ref_glob.simps(2)) (auto simp: is_glob_char_def split: list.split)
  show "ref_glob (CHR 0x5C # ch # p) s = (\<exists>t. s = ch # t \<and> ref_glob p t)"
    by (subst ref_glob.simps(2)) (auto split: list.split)
qed

lemma reference_glob_laws: "glob_laws ref_glob"
  unfolding glob_laws_def by (intro conjI allI impI ref_glob_step)

lemma prefix_matches:
  assumes "glob_laws g"
  shows "g (prefix_pattern pre) key \<longleftrightarrow> take (length pre) key = pre"
proof (induction pre arbitrary: key)
  case Nil
  then show ?case using assms by (simp add: prefix_pattern_def glob_laws_def)
next
  case (Cons ch pre)
  have "g (prefix_pattern (ch # pre)) key = (\<exists>t. key = ch # t \<and> g (prefix_pattern pre) t)"
    using assms by (simp add: prefix_pattern_def glob_laws_def)
  also have "\<dots> = (\<exists>t. key = ch # t \<and> take (length pre) t = pre)"
    using Cons by simp
  also have "\<dots> = (take (length (ch # pre)) key = ch # pre)"
    by (cases key) auto
  finally show ?case .
qed

text \<open>
  Whatever characters the configured prefix contains, the pattern of the scans
  matches exactly the keys that start with it: glob characters in it are literal.
\<close>
theorem prefix_pattern_is_literal:
  assumes "glob_laws g"
  shows "g (prefix_pattern pre) key \<longleftrightarrow> take (length pre) key = pre"
  by (rule prefix_matches[OF assms])

theorem prefix_pattern_is_literal_witness:
  "ref_glob (prefix_pattern ''a*/'') ''a*/x'' \<and> \<not> ref_glob (prefix_pattern ''a*/'') ''ab/x''"
  using prefix_pattern_is_literal[OF reference_glob_laws, of "''a*/''"] by simp

subsection \<open>Lifetimes\<close>

text \<open>
  A lifetime sent to the server is at least one millisecond, never ends before the
  session does and less than a millisecond after it, unless it is the one millisecond
  minimum; only lifetimes beyond \<open>2 ^ 64\<close> milliseconds are refused.
\<close>
theorem ttl_millis_rounds_up:
  "case ttl_millis ttl of
     Inl e \<Rightarrow> e = OutOfRange \<and> (2 ^ 64 - 1) * 1000000 < ttl
   | Inr millis \<Rightarrow> 1 \<le> unat millis \<and> ttl \<le> unat millis * 1000000 \<and>
       (millis = 1 \<or> (unat millis - 1) * 1000000 < ttl)"
proof -
  define m where "m = div_ceil ttl 1000000"
  have m: "ttl \<le> m * 1000000" "m = 0 \<or> (m - 1) * 1000000 < ttl"
    using div_ceil_bounds[of 1000000 ttl] by (auto simp: m_def diff_mult_distrib)
  show ?thesis
  proof (cases "m < 2 ^ 64")
    case True
    have u: "unat (of_nat m :: u64) = m"
      using True by (simp add: unat_of_nat)
    have "max (of_nat m) 1 = (if m = 0 then 1 else (of_nat m :: u64))"
    proof (cases "m = 0")
      case False
      then have "(1 :: u64) \<le> of_nat m" by (simp add: word_le_nat_alt u)
      then show ?thesis using False by (simp add: max_def)
    qed simp
    then have "ttl_millis ttl = Inr (if m = 0 then 1 else of_nat m)"
      using True by (simp add: ttl_millis_def m_def[symmetric])
    then show ?thesis using m u by (cases "m = 0") auto
  next
    case False
    then have "ttl_millis ttl = Inl OutOfRange"
      by (simp add: ttl_millis_def m_def[symmetric])
    moreover have "(2 ^ 64 - 1) * 1000000 < ttl"
    proof -
      have "(2 ^ 64 - 1) * 1000000 \<le> (m - 1) * (1000000::nat)"
        using False by (intro mult_right_mono) simp_all
      then show ?thesis using m(2) False by auto
    qed
    ultimately show ?thesis by simp
  qed
qed

subsection \<open>A write refines the contract\<close>

text \<open>The records of a store: the values and lifetimes under its prefix.\<close>

definition redis_records ::
  "'r redis_store \<Rightarrow> 'r redis_view \<Rightarrow> 'r \<Rightarrow> string \<rightharpoonup> string \<times> u64 option" where
  "redis_records st view r ident = view r (redis_key st ident)"

lemma redis_key_inj [simp]: "redis_key st i = redis_key st j \<longleftrightarrow> i = j"
  by (simp add: redis_key_def)

lemma redis_lawsD:
  assumes "redis_laws sv view"
  shows "rd_get sv k r = map_option fst (view r k)" "rd_exists sv k r = (view r k \<noteq> None)"
    "set_permitted mode (view r k \<noteq> None) \<Longrightarrow>
       fst (rd_set sv k v px mode r) \<and> view (snd (rd_set sv k v px mode r)) = (view r)(k \<mapsto> (v, px))"
    "\<not> set_permitted mode (view r k \<noteq> None) \<Longrightarrow> rd_set sv k v px mode r = (False, r)"
    "view (rd_del sv k r) = (view r)(k := None)"
    "view (snd (rd_unlink sv ks r)) = (\<lambda>k. if k \<in> set ks then None else view r k)"
  using assms unfolding redis_laws_def by blast+

text \<open>The write that the server runs for a session that is not expired.\<close>

definition redis_commit ::
  "'r redis_store \<Rightarrow> string option \<Rightarrow> string \<Rightarrow> string \<times> u64 option \<Rightarrow> 'r \<Rightarrow> bool \<times> 'r" where
  "redis_commit st origin ident entry r =
     (case rotation_source origin ident of
        Some old_id \<Rightarrow>
          (let (n, r1) = rotate_script (rs_server st) (redis_key st old_id) (redis_key st ident)
                           (fst entry) (case snd entry of None \<Rightarrow> 0 | Some ms \<Rightarrow> ms) r
           in (n \<noteq> 0, r1))
      | None \<Rightarrow> rd_set (rs_server st) (redis_key st ident) (fst entry) (snd entry)
                  (if origin \<noteq> None then XX else NX) r)"

lemma redis_commit_refines:
  assumes laws: "redis_laws (rs_server st) view" and ms: "snd entry \<noteq> Some 0"
  shows "(case redis_commit st origin ident entry r of
      (True, r') \<Rightarrow> conditional_write origin ident entry (redis_records st view r) =
          Some (redis_records st view r') \<and>
        (\<forall>k. \<not> has_prefix st k \<longrightarrow> view r' k = view r k)
    | (False, r') \<Rightarrow> conditional_write origin ident entry (redis_records st view r) = None \<and> r' = r)"
proof -
  have key: "has_prefix st (redis_key st i)" for i
    by (simp add: has_prefix_def redis_key_def)
  have rec: "redis_records st view r i = view r (redis_key st i)" for r i
    by (simp add: redis_records_def)
  show ?thesis
  proof (cases "rotation_source origin ident")
    case None
    show ?thesis
    proof (cases "set_permitted (if origin \<noteq> None then XX else NX) (view r (redis_key st ident) \<noteq> None)")
      case True
      obtain r' where r': "redis_commit st origin ident entry r = (True, r')"
          "view r' = (view r)(redis_key st ident \<mapsto> entry)"
        using redis_lawsD(3)[OF laws True, of "fst entry" "snd entry"] None
        by (cases "rd_set (rs_server st) (redis_key st ident) (fst entry) (snd entry)
              (if origin \<noteq> None then XX else NX) r") (auto simp: redis_commit_def)
      have "redis_records st view r' = (redis_records st view r)(ident \<mapsto> entry)"
        by (auto simp: fun_eq_iff rec r'(2))
      then show ?thesis
        using r' True None key
        by (auto simp: conditional_write_def rotation_source_def set_permitted_def rec
            split: option.splits if_splits)
    next
      case False
      then show ?thesis
        using redis_lawsD(4)[OF laws False] None
        by (auto simp: redis_commit_def conditional_write_def rotation_source_def set_permitted_def
            rec split: option.splits if_splits)
    qed
  next
    case (Some old_id)
    then have o: "origin = Some old_id" "old_id \<noteq> ident"
      by (auto simp: rotation_source_def split: option.splits if_splits)
    define ttl where "ttl = (case snd entry of None \<Rightarrow> 0 | Some ms \<Rightarrow> ms)"
    define r1 where "r1 = (if ttl > 0
       then snd (rd_set (rs_server st) (redis_key st ident) (fst entry) (Some ttl) Always r)
       else snd (rd_set (rs_server st) (redis_key st ident) (fst entry) None Always r))"
    have px: "(fst entry, if ttl > 0 then Some ttl else None) = entry"
      using ms by (cases entry; cases "snd entry") (auto simp: ttl_def word_gt_0)
    have v1: "view r1 = (view r)(redis_key st ident \<mapsto> entry)"
      using redis_lawsD(3)[OF laws, of Always r "redis_key st ident" "fst entry"
          "if ttl > 0 then Some ttl else None"]
      unfolding px by (simp add: r1_def set_permitted_def split: if_splits)
    have commit: "redis_commit st origin ident entry r =
        (if view r (redis_key st old_id) = None \<or> view r (redis_key st ident) \<noteq> None then (False, r)
         else (True, rd_del (rs_server st) (redis_key st old_id) r1))"
      by (simp add: redis_commit_def Some rotate_script_def redis_lawsD(2)[OF laws] ttl_def[symmetric]
          r1_def[symmetric])
    have "redis_records st view (rd_del (rs_server st) (redis_key st old_id) r1) =
        (redis_records st view r)(old_id := None, ident \<mapsto> entry)"
      using o(2) by (auto simp: fun_eq_iff rec redis_lawsD(5)[OF laws] v1)
    then show ?thesis
      using o key commit
      by (simp add: conditional_write_def rec redis_lawsD(5)[OF laws] v1)
  qed
qed

text \<open>\<open>redis_put\<close> is one deletion, or one write of the captured text with its lifetime.\<close>

definition lifetime :: "datetime \<Rightarrow> session \<Rightarrow> error + u64 option" where
  "lifetime now snap =
     (case expires_in now snap of None \<Rightarrow> Inr None | Some d \<Rightarrow> map_sum id Some (ttl_millis d))"

definition put_target :: "string option \<Rightarrow> string \<Rightarrow> string" where
  "put_target origin ident = (case rotation_source origin ident of None \<Rightarrow> ident | Some old_id \<Rightarrow> old_id)"

lemma ttl_millis_pos: "ttl_millis d = Inr ms \<Longrightarrow> ms \<noteq> 0"
  by (auto simp: ttl_millis_def Let_def max_def split: if_splits)

lemma lifetime_pos: "lifetime now snap = Inr px \<Longrightarrow> px \<noteq> Some 0"
  by (cases "expires_in now snap"; cases "ttl_millis (the (expires_in now snap))")
     (auto simp: lifetime_def dest: ttl_millis_pos)

lemma remote_call_map:
  "remote_call ij net k (\<lambda>r. (F (fst (f r)), snd (f r))) w =
     (case remote_call ij net k f w of (Inl e, w1) \<Rightarrow> (Inl e, w1) | (Inr x, w1) \<Rightarrow> (Inr (F x), w1))"
  by (simp add: remote_call_def transmit_def Let_def split_beta split: fault.split)

lemma redis_rotate_eq:
  assumes "rotation_source origin ident = Some old_id"
  shows "redis_rotate st ij net old_id ident json (case px of None \<Rightarrow> 0 | Some ms \<Rightarrow> ms) w =
    (case remote_call ij net 4 (redis_commit st origin ident (json, px)) w of
       (Inl e, w1) \<Rightarrow> (Failed e, w1)
     | (Inr ok, w1) \<Rightarrow> if ok then (Stored, w1) else (Failed SessionConflict, w1))"
proof -
  let ?script = "rotate_script (rs_server st) (redis_key st old_id) (redis_key st ident) json
      (case px of None \<Rightarrow> 0 | Some ms \<Rightarrow> ms)"
  have commit: "redis_commit st origin ident (json, px) = (\<lambda>r. (fst (?script r) \<noteq> 0, snd (?script r)))"
    by (simp add: fun_eq_iff redis_commit_def assms Let_def split_beta)
  obtain res w1 where call: "remote_call ij net 4 ?script w = (res, w1)"
    by (rule prod.exhaust)
  have "remote_call ij net 4 (redis_commit st origin ident (json, px)) w =
      (case res of Inl e \<Rightarrow> (Inl e, w1) | Inr n \<Rightarrow> (Inr (n \<noteq> 0), w1))"
    unfolding commit
    by (subst remote_call_map[where F = "\<lambda>n. n \<noteq> 0" and f = ?script]) (simp add: call)
  then show ?thesis
    by (cases res) (simp_all add: redis_rotate_def call)
qed

lemma redis_put_eq:
  "redis_put st now ij net origin snap json w =
     (if s_expiry snap \<noteq> None \<and> expires_in now snap = None
      then (case redis_delete st ij net 4 (put_target origin (s_id snap)) w of
              (Inl e, w1) \<Rightarrow> (Failed e, w1) | (Inr _, w1) \<Rightarrow> (Revoked, w1))
      else (case lifetime now snap of
              Inl e \<Rightarrow> (Failed e, w)
            | Inr px \<Rightarrow>
                (case remote_call ij net 4 (redis_commit st origin (s_id snap) (json, px)) w of
                   (Inl e, w1) \<Rightarrow> (Failed e, w1)
                 | (Inr ok, w1) \<Rightarrow> if ok then (Stored, w1) else (Failed SessionConflict, w1))))"
proof (cases "rotation_source origin (s_id snap)")
  case None
  have "redis_commit st origin (s_id snap) (json, px) =
      rd_set (rs_server st) (redis_key st (s_id snap)) json px (if origin \<noteq> None then XX else NX)" for px
    by (simp add: fun_eq_iff redis_commit_def None)
  then have commit: "(\<lambda>px. redis_commit st origin (s_id snap) (json, px)) =
      (\<lambda>px. rd_set (rs_server st) (redis_key st (s_id snap)) json px (if origin \<noteq> None then XX else NX))"
    by simp
  show ?thesis
  proof (cases "s_expiry snap \<noteq> None \<and> expires_in now snap = None")
    case True
    then show ?thesis
      by (simp add: redis_put_def None put_target_def Let_def)
  next
    case False
    have put: "redis_put st now ij net origin snap json w =
        (case lifetime now snap of
           Inl e \<Rightarrow> (Failed e, w)
         | Inr px \<Rightarrow>
             (case remote_call ij net 4
                (rd_set (rs_server st) (redis_key st (s_id snap)) json px
                   (if origin \<noteq> None then XX else NX)) w of
                (Inl e, w1) \<Rightarrow> (Failed e, w1)
              | (Inr saved, w1) \<Rightarrow> if \<not> saved then (Failed SessionConflict, w1) else (Stored, w1)))"
      unfolding redis_put_def None Let_def option.case lifetime_def using False by (rule if_not_P)
    show ?thesis
    proof (cases "lifetime now snap")
      case (Inr px)
      obtain res w1 where call: "remote_call ij net 4 (redis_commit st origin (s_id snap) (json, px)) w = (res, w1)"
        by (rule prod.exhaust)
      have "redis_commit st origin (s_id snap) (json, px) = rd_set (rs_server st)
          (redis_key st (s_id snap)) json px (if origin \<noteq> None then XX else NX)"
        using fun_cong[OF commit] by simp
      then show ?thesis
        unfolding put if_not_P[OF False] Inr using call by (cases res) auto
    qed (use put False in auto)
  qed
next
  case (Some old_id)
  note rot = redis_rotate_eq[OF Some]
  show ?thesis
  proof (cases "s_expiry snap")
    case None
    then have "expires_in now snap = None" by (simp add: expires_in_def)
    then show ?thesis
      using rot[of st ij net json None w] None
      by (simp add: redis_put_def Some Let_def lifetime_def)
  next
    case (Some e)
    show ?thesis
    proof (cases "expires_in now snap")
      case None
      then show ?thesis
        using Some \<open>rotation_source origin (s_id snap) = Some old_id\<close>
        by (simp add: redis_put_def put_target_def Let_def split: prod.split sum.split)
    next
      case (Some ttl)
      then show ?thesis
        using \<open>s_expiry snap = Some e\<close> \<open>rotation_source origin (s_id snap) = Some old_id\<close>
          rot[of st ij net json "Some ms" w for ms]
        by (cases "ttl_millis ttl") (simp_all add: redis_put_def Let_def lifetime_def)
    qed
  qed
qed

text \<open>
  C10: when its command arrives, in whatever state other clients have left the server, the
  write of a live session stores the captured text exactly when the documented
  conditional write of the contract is admitted, with exactly its effect on the records,
  and is a conflict without effect otherwise. An expired session only revokes its
  persisted record. Keys outside the prefix are never touched.
\<close>
theorem redis_write_refines_contract:
  assumes "redis_laws (rs_server st) view" and "net 4 = Delivered" and "ij 4 w = (h1, r1)"
    and "redis_put st now ij net origin snap json w = (outcome, (h2, r2))"
    and "lifetime now snap = Inr px"
  shows "(\<forall>k. \<not> has_prefix st k \<longrightarrow> view r2 k = view r1 k) \<and>
    (if s_expiry snap \<noteq> None \<and> expires_in now snap = None
     then outcome = Revoked \<and> redis_records st view r2 =
       (redis_records st view r1)(put_target origin (s_id snap) := None)
     else case conditional_write origin (s_id snap) (json, px) (redis_records st view r1) of
       None \<Rightarrow> outcome = Failed SessionConflict \<and> r2 = r1
     | Some records \<Rightarrow> outcome = Stored \<and> redis_records st view r2 = records)"
proof -
  have key: "has_prefix st (redis_key st i)" for i
    by (simp add: has_prefix_def redis_key_def)
  show ?thesis
  proof (cases "s_expiry snap \<noteq> None \<and> expires_in now snap = None")
    case True
    then have "outcome = Revoked"
        "r2 = rd_del (rs_server st) (redis_key st (put_target origin (s_id snap))) r1"
      using assms(2-4) by (simp_all add: redis_put_eq redis_delete_def remote_call_def transmit_def)
    then show ?thesis
      using True redis_lawsD(5)[OF assms(1)] key by (auto simp: redis_records_def fun_eq_iff)
  next
    case False
    obtain ok r' where c: "redis_commit st origin (s_id snap) (json, px) r1 = (ok, r')"
      by fastforce
    have "(outcome, r2) = (if ok then (Stored, r') else (Failed SessionConflict, r'))"
      using assms(2-5) False c
      by (auto simp: redis_put_eq remote_call_def transmit_def split: if_splits)
    then show ?thesis
      using False redis_commit_refines[OF assms(1), of "(json, px)" origin "s_id snap" r1]
        lifetime_pos[OF assms(5)] c
      by (auto split: bool.splits if_splits)
  qed
qed

definition example_redis :: "redis_db redis_store" where
  "example_redis = \<lparr>rs_server = reference_redis, rs_prefix = ''p/''\<rparr>"

theorem redis_write_refines_contract_witness:
  "\<exists>outcome h2 r2. redis_put example_redis 0 undisturbed (\<lambda>k. Delivered) (Some ''a'') example_session ''t''
      (example_heap, [(''p/a'', ''s'', None)]) = (outcome, (h2, r2)) \<and>
    outcome = Stored \<and> redis_records example_redis map_of r2 ''a'' = Some (''t'', None)"
proof -
  let ?db = "[(''p/a'', ''s'', None)] :: redis_db"
  have laws: "redis_laws (rs_server example_redis) map_of"
    by (simp add: example_redis_def reference_redis_laws)
  have life: "lifetime 0 example_session = Inr None"
    by (simp add: lifetime_def expires_in_def example_session_def)
  obtain outcome h2 r2 where put: "redis_put example_redis 0 undisturbed (\<lambda>k. Delivered) (Some ''a'')
      example_session ''t'' (example_heap, ?db) = (outcome, (h2, r2))"
    by (metis surj_pair)
  have rec: "redis_records example_redis map_of ?db ''a'' = Some (''s'', None)"
    by (simp add: redis_records_def redis_key_def example_redis_def)
  have id: "s_id example_session = ''a''" "s_expiry example_session = None"
    by (simp_all add: example_session_def)
  have "conditional_write (Some ''a'') ''a'' (''t'', None) (redis_records example_redis map_of ?db) =
      Some ((redis_records example_redis map_of ?db)(''a'' \<mapsto> (''t'', None)))"
    by (simp add: conditional_write_def rec)
  then have "outcome = Stored" "redis_records example_redis map_of r2 =
      (redis_records example_redis map_of ?db)(''a'' \<mapsto> (''t'', None))"
    using redis_write_refines_contract[OF laws _ _ put life] by (auto simp: id)
  then show ?thesis using put by simp
qed

end
