(* ===== verification/Redis_Protocol.thy ===== *)
theory Redis_Protocol
  imports Redis_Facts
begin

text \<open>
  The Redis store as a provider of the contracts of the remote stores: fenced creations,
  round trips and final deletions.
\<close>

subsection \<open>The store as a remote backend\<close>

text \<open>A store with the abstraction of its server, a clock reading and its surroundings.\<close>

record 'r redis_client =
  rl_store :: "'r redis_store"
  rl_view :: "'r redis_view"
  rl_now :: datetime
  rl_others :: "'r remote interleaving"
  rl_net :: network

definition client_ids :: "'r redis_client \<Rightarrow> 'r \<Rightarrow> string set" where
  "client_ids cl r = dom (redis_records (rl_store cl) (rl_view cl) r)"

definition client_laws :: "'r redis_client \<Rightarrow> bool" where
  "client_laws cl \<longleftrightarrow> redis_laws (rs_server (rl_store cl)) (rl_view cl)"

text \<open>Nobody else writes the record.\<close>

definition client_sealed :: "'r redis_client \<Rightarrow> string \<Rightarrow> bool" where
  "client_sealed cl t \<longleftrightarrow> client_laws cl \<and>
     (\<forall>n w. t \<notin> client_ids cl (snd w) \<longrightarrow> t \<notin> client_ids cl (snd (rl_others cl n w)))"

lemma client_delete_ids:
  assumes "client_laws cl"
  shows "client_ids cl (rd_del (rs_server (rl_store cl)) (redis_key (rl_store cl) i) r) =
    client_ids cl r - {i}"
  using redis_lawsD(5)[OF assms[unfolded client_laws_def]]
  by (auto simp: client_ids_def redis_records_def dom_def)

lemma client_sealedD:
  "client_sealed cl t \<Longrightarrow> t \<notin> client_ids cl (snd w) \<Longrightarrow> t \<notin> client_ids cl (snd (rl_others cl n w))"
  unfolding client_sealed_def by blast

interpretation redis: remote_backend
  "\<lambda>cl. redis_put (rl_store cl) (rl_now cl) (rl_others cl) (rl_net cl)"
  "\<lambda>cl. redis_delete (rl_store cl) (rl_others cl) (rl_net cl) 5" client_ids client_sealed
proof
  fix cl :: "'r redis_client" and t origin snap json and w w' :: "'r remote"
  assume sealed: "client_sealed cl t"
  then have laws: "client_laws cl" by (simp add: client_sealed_def)
  show "t \<notin> client_ids cl (snd w')"
    if "redis_put (rl_store cl) (rl_now cl) (rl_others cl) (rl_net cl) origin snap json w = (Revoked, w')"
      "t \<notin> client_ids cl (snd w)"
  proof -
    have "\<exists>i. redis_delete (rl_store cl) (rl_others cl) (rl_net cl) 4 i w = (Inr (), w')"
      using that(1) by (auto simp: redis_put_eq split: if_splits sum.splits prod.splits)
    then have "\<exists>i. snd w' = rd_del (rs_server (rl_store cl)) (redis_key (rl_store cl) i) (snd (rl_others cl 4 w))"
      by (auto simp: redis_delete_def remote_call_Inr)
    then show ?thesis
      using client_sealedD[OF sealed that(2), of 4] client_delete_ids[OF laws] by auto
  qed
  show "t \<notin> client_ids cl (snd w')"
    if "redis_delete (rl_store cl) (rl_others cl) (rl_net cl) 5 t w = (Inr (), w')"
    using that client_delete_ids[OF laws] by (auto simp: redis_delete_def remote_call_Inr)
qed

text \<open>
  C4: an unconfirmed creation or rotation is fenced. If a save of an identity that the
  store does not hold reports an error, for whatever reason and after whatever faults,
  then either the store still does not hold it or the lineage is marked uncertain, so
  that no coordinated deletion of it can claim success.
\<close>
theorem redis_failed_creation_is_fenced:
  assumes "redis_store_session c (rl_store cl) (rl_now cl) (rl_others cl) (rl_net cl) s (h, r) =
      (Ready (Inl e), (h', r'))"
    and "client_sealed cl (s_id s)" and "s_id s \<notin> client_ids cl r"
    and "persistence_origin s h \<noteq> Inr (Some (s_id s))"
  shows "s_id s \<notin> client_ids cl r' \<or>
    ws_uncertain (h_life h' (s_lifecycle s)) \<and> fst (begin_delete_locked s h') \<in> {Pending, Ready (Inl UncertainWrite)}"
proof -
  have "s_id s \<notin> client_ids cl r' \<or> ws_uncertain (h_life h' (s_lifecycle s))"
    using client_sealedD[OF assms(2)]
    by (rule redis.failed_creation_fenced[OF assms(1)[unfolded redis_store_session_def] assms(2) _ assms(3,4)])
  then show ?thesis by (auto simp: begin_delete_locked_def lifecycle_delete_def)
qed

definition lossy_client :: "redis_db redis_client" where
  "lossy_client = \<lparr>rl_store = example_redis, rl_view = map_of, rl_now = 0, rl_others = undisturbed,
     rl_net = (\<lambda>k. ReplyLost)\<rparr>"

lemma lossy_client_sealed: "client_sealed lossy_client t"
  by (simp add: client_sealed_def client_laws_def lossy_client_def example_redis_def
      reference_redis_laws)

theorem redis_failed_creation_is_fenced_witness:
  "\<exists>e h' r'. redis_store_session reference_codec (rl_store lossy_client) 0 undisturbed (\<lambda>k. ReplyLost)
      fresh_session (fresh_heap, []) = (Ready (Inl e), (h', r')) \<and>
    (s_id fresh_session \<notin> client_ids lossy_client r' \<or> ws_uncertain (h_life h' (s_lifecycle fresh_session)))"
proof -
  have cl: "rl_store lossy_client = example_redis" "rl_now lossy_client = 0"
      "rl_others lossy_client = undisturbed" "rl_net lossy_client = (\<lambda>k. ReplyLost)"
    by (simp_all add: lossy_client_def)
  have new: "persistence_origin fresh_session fresh_heap \<noteq> Inr (Some (s_id fresh_session))"
    by (simp add: persistence_origin_def fresh_session_def example_session_def)
  have empty: "s_id fresh_session \<notin> client_ids lossy_client []"
    by (simp add: client_ids_def redis_records_def lossy_client_def dom_def)
  obtain e h' r' where call: "redis_store_session reference_codec example_redis 0 undisturbed
      (\<lambda>k. ReplyLost) fresh_session (fresh_heap, []) = (Ready (Inl e), (h', r'))"
    by (simp add: redis_store_session_def remote_store_session_def persistence_attempt_def session_defs
        Let_def split_beta begin_backend_write_def begin_guarded_write_def lifecycle_write_def
        persistence_origin_def fresh_session_def example_session_def wire_of_def reference_codec_def
        ref_encode_def redis_put_eq lifetime_def expires_in_def remote_call_def transmit_def)
  then show ?thesis
    using redis_failed_creation_is_fenced[of reference_codec lossy_client fresh_session fresh_heap "[]" e h' r',
        unfolded cl, OF call lossy_client_sealed empty new]
    unfolding cl by blast
qed

subsection \<open>Round trip\<close>

definition client_quiet :: "'r redis_client \<Rightarrow> bool" where
  "client_quiet cl \<longleftrightarrow> client_laws cl \<and> rl_others cl = undisturbed \<and> (\<forall>k. rl_net cl k = Delivered)"

text \<open>The session is not expired, its lifetime is representable, and the records admit the write.\<close>

definition client_admits ::
  "'r redis_client \<Rightarrow> string option \<Rightarrow> string \<Rightarrow> datetime option \<Rightarrow> 'r \<Rightarrow> bool" where
  "client_admits cl origin ident expiry r \<longleftrightarrow>
     conditional_write origin ident ('''', None) (redis_records (rl_store cl) (rl_view cl) r) \<noteq> None \<and>
     (case expiry of None \<Rightarrow> True
      | Some e \<Rightarrow> rl_now cl \<le> e \<and> (\<exists>ms. ttl_millis (nat (e - rl_now cl)) = Inr ms))"

lemma conditional_write_admits:
  "conditional_write origin target r m \<noteq> None \<longleftrightarrow> conditional_write origin target r' m \<noteq> None"
  by (auto simp: conditional_write_def split: option.splits)

lemma redis_quiet_put:
  assumes quiet: "client_quiet cl" and adm: "client_admits cl origin (s_id snap) (s_expiry snap) r"
  obtains px r' where
    "redis_put (rl_store cl) (rl_now cl) (rl_others cl) (rl_net cl) origin snap json (h, r) = (Stored, (h, r'))"
    "conditional_write origin (s_id snap) (json, px) (redis_records (rl_store cl) (rl_view cl) r) =
       Some (redis_records (rl_store cl) (rl_view cl) r')"
proof -
  have laws: "redis_laws (rs_server (rl_store cl)) (rl_view cl)"
    and others: "rl_others cl = undisturbed" and net: "rl_net cl k = Delivered" for k
    using quiet by (simp_all add: client_quiet_def client_laws_def)
  have live: "\<not> (s_expiry snap \<noteq> None \<and> expires_in (rl_now cl) snap = None)"
    using adm by (auto simp: client_admits_def expires_in_def split: option.splits)
  obtain px where px: "lifetime (rl_now cl) snap = Inr px"
    using adm by (auto simp: client_admits_def lifetime_def expires_in_def split: option.splits if_splits)
  obtain ok r' where c: "redis_commit (rl_store cl) origin (s_id snap) (json, px) r = (ok, r')"
    by (rule prod.exhaust)
  have "conditional_write origin (s_id snap) (json, px) (redis_records (rl_store cl) (rl_view cl) r) \<noteq> None"
    using adm unfolding client_admits_def by (elim conjE) (erule conditional_write_admits[THEN iffD1])
  then have stored: "ok" "conditional_write origin (s_id snap) (json, px)
      (redis_records (rl_store cl) (rl_view cl) r) = Some (redis_records (rl_store cl) (rl_view cl) r')"
    using redis_commit_refines[OF laws, of "(json, px)" origin "s_id snap" r] lifetime_pos[OF px] c
    by (auto split: bool.splits)
  have "redis_put (rl_store cl) (rl_now cl) (rl_others cl) (rl_net cl) origin snap json (h, r) =
      (Stored, (h, r'))"
    unfolding redis_put_eq if_not_P[OF live] by (simp add: px others net c stored(1))
  then show ?thesis using stored(2) by (rule that)
qed

lemma redis_quiet_lookup:
  assumes "client_quiet cl"
  shows "redis_lookup (rl_store cl) (rl_others cl) (rl_net cl) i (h, r) =
    (Inr (map_option fst (redis_records (rl_store cl) (rl_view cl) r i)), (h, r))"
  using assms redis_lawsD(1)[of "rs_server (rl_store cl)" "rl_view cl" "redis_key (rl_store cl) i" r]
  by (simp add: client_quiet_def client_laws_def redis_lookup_def redis_records_def)

interpretation redis_quiet: remote_records
  "\<lambda>cl. redis_put (rl_store cl) (rl_now cl) (rl_others cl) (rl_net cl)"
  "\<lambda>cl. redis_delete (rl_store cl) (rl_others cl) (rl_net cl) 5"
  "\<lambda>cl. redis_lookup (rl_store cl) (rl_others cl) (rl_net cl)" client_admits client_quiet
proof
  fix cl :: "'r redis_client" and origin json h and snap :: session and r :: 'r
  assume quiet: "client_quiet cl" and adm: "client_admits cl origin (s_id snap) (s_expiry snap) r"
  obtain px r' where r': "redis_put (rl_store cl) (rl_now cl) (rl_others cl) (rl_net cl) origin snap json (h, r) =
      (Stored, (h, r'))"
    "conditional_write origin (s_id snap) (json, px) (redis_records (rl_store cl) (rl_view cl) r) =
       Some (redis_records (rl_store cl) (rl_view cl) r')"
    by (rule redis_quiet_put[OF quiet adm])
  then show "\<exists>r'. redis_put (rl_store cl) (rl_now cl) (rl_others cl) (rl_net cl) origin snap json (h, r) =
      (Stored, (h, r')) \<and> (\<forall>k. redis_lookup (rl_store cl) (rl_others cl) (rl_net cl) (s_id snap) (k, r') =
        (Inr (Some json), (k, r')))"
    using conditional_write_records[OF r'(2)] by (auto simp: redis_quiet_lookup[OF quiet])
qed

text \<open>
  With a lawful server and no disturbance, a session whose write the store admits is
  saved, and its cookie then loads a clean session with its identity, expiry and values
  and the authority to update the record; the saved session is clean if no other save of
  it is outstanding, and its lineage is idle again.
\<close>
theorem redis_saved_session_loads:
  assumes "client_quiet cl" and "codec_laws c" and "session_allocated h s" and "lineage_idle s h"
    and "persistence_origin s h = Inr origin" and "wc_to_json c (wire_of s h) = Inr json"
    and "client_admits cl origin (s_id s) (s_expiry s) r"
    and "id_from_cookie_value p cookie = Inr (s_id s)" and "\<not> is_expired now s"
  shows "\<exists>h' r' t h2.
     redis_store_session c (rl_store cl) (rl_now cl) (rl_others cl) (rl_net cl) s (h, r) =
       (Ready (Inr (s_cookie_value s)), (h', r')) \<and>
     redis_load_session p c (rl_store cl) (rl_others cl) (rl_net cl) now cookie (h', r') =
       (Inr (Some t), (h2, r')) \<and>
     wire_of t h2 = wire_of s h \<and> \<not> needs_persist t h2 \<and>
     persistence_origin t h2 = Inr (Some (s_id s)) \<and> lineage_idle s h' \<and>
     (sd_active_saves (h_data h (s_data s)) = 0 \<longrightarrow> \<not> data_dirty (h_data h' (s_data s)))"
proof -
  have others: "rl_others cl = undisturbed" using assms(1) by (simp add: client_quiet_def)
  show ?thesis
    using redis_quiet.saved_session_loads[OF assms(1-4) assms(5-9), where recheck = True]
    unfolding redis_store_session_def redis_load_session_def others
    by (elim exE conjE) (intro exI conjI; assumption)
qed

definition quiet_client :: "redis_db redis_client" where
  "quiet_client = lossy_client\<lparr>rl_net := \<lambda>k. Delivered\<rparr>"

lemma quiet_client_sel [simp]:
  "rl_store quiet_client = example_redis" "rl_now quiet_client = 0"
  "rl_others quiet_client = undisturbed" "rl_net quiet_client = (\<lambda>k. Delivered)"
  by (simp_all add: quiet_client_def lossy_client_def)

lemma quiet_client_ready:
  "client_quiet quiet_client" "session_allocated fresh_heap fresh_reference"
  "lineage_idle fresh_reference fresh_heap" "persistence_origin fresh_reference fresh_heap = Inr None"
  "client_admits quiet_client None (s_id fresh_reference) (s_expiry fresh_reference) []"
  "id_from_cookie_value reference reference_cookie = Inr (s_id fresh_reference)"
  "\<not> is_expired 0 fresh_reference"
  by (simp_all add: client_quiet_def client_laws_def quiet_client_def lossy_client_def
      example_redis_def reference_redis_laws session_allocated_def lineage_idle_def is_destroyed_def
      persistence_origin_def fresh_reference_def fresh_session_def example_session_def
      conditional_write_def client_admits_def redis_records_def is_expired_def)

theorem redis_saved_session_loads_witness:
  "\<exists>h' r' t h2. redis_load_session reference reference_codec example_redis undisturbed (\<lambda>k. Delivered) 0
      reference_cookie (h', r') = (Inr (Some t), (h2, r')) \<and> s_id t = reference_id \<and>
     redis_store_session reference_codec example_redis 0 undisturbed (\<lambda>k. Delivered) fresh_reference
       (fresh_heap, []) = (Ready (Inr (s_cookie_value fresh_reference)), (h', r'))"
proof -
  obtain json where json: "wc_to_json reference_codec (wire_of fresh_reference fresh_heap) = Inr json"
    using fresh_encodes by blast
  obtain h' r' t h2 where run:
    "redis_store_session reference_codec example_redis 0 undisturbed (\<lambda>k. Delivered) fresh_reference
       (fresh_heap, []) = (Ready (Inr (s_cookie_value fresh_reference)), (h', r'))"
    "redis_load_session reference reference_codec example_redis undisturbed (\<lambda>k. Delivered) 0
      reference_cookie (h', r') = (Inr (Some t), (h2, r'))"
    "wire_of t h2 = wire_of fresh_reference fresh_heap"
    using redis_saved_session_loads[OF quiet_client_ready(1) reference_codec_laws
        quiet_client_ready(2-4) json quiet_client_ready(5-7), unfolded quiet_client_sel]
    by (elim exE conjE) (rule that)
  have "s_id t = reference_id"
    using run(3) by (simp add: wire_of_def fresh_reference_def)
  with run(1,2) show ?thesis by blast
qed

lemma redis_rotate_not_revoked: "fst (redis_rotate st ij net old_id ident json ttl w) \<noteq> Revoked"
  by (simp add: redis_rotate_def split_beta split: sum.splits prod.splits)

lemma redis_put_timeless:
  assumes "s_expiry snap = None"
  shows "fst (redis_put st now ij net origin snap json w) \<noteq> Revoked"
proof -
  have "expires_in now snap = None" using assms by (simp add: expires_in_def)
  then show ?thesis
    using assms redis_rotate_not_revoked
    by (cases "rotation_source origin (s_id snap)") (simp_all add: redis_put_def split_beta Let_def split: sum.splits prod.splits)
qed

theorem remote_save_outcomes_witness:
  "\<exists>h' r'. redis_store_session reference_codec example_redis 0 undisturbed (\<lambda>k. Delivered) fresh_reference
      (fresh_heap, []) = (Ready (Inr (s_cookie_value fresh_reference)), (h', r')) \<and>
    \<not> ws_locked (h_life h' (s_lifecycle fresh_reference)) \<and>
    (\<exists>origin snap token json g w5 w6.
      save_begun reference_codec True undisturbed fresh_reference (fresh_heap, []) origin snap token json g w5 \<and>
      redis_put example_redis 0 undisturbed (\<lambda>k. Delivered) origin snap json w5 = (Stored, w6) \<and>
      r' = snd w6 \<and> h' = write_guard_drop (g\<lparr>wg_settled := True\<rparr>) (acknowledge token (mark_persisted fresh_reference (fst w6))))"
proof -
  obtain json where json: "wc_to_json reference_codec (wire_of fresh_reference fresh_heap) = Inr json"
    using fresh_encodes by blast
  obtain h' r' where run:
    "redis_store_session reference_codec example_redis 0 undisturbed (\<lambda>k. Delivered) fresh_reference
       (fresh_heap, []) = (Ready (Inr (s_cookie_value fresh_reference)), (h', r'))"
    using redis_quiet.saved_session_loads[OF quiet_client_ready(1) reference_codec_laws
        quiet_client_ready(2-4) json quiet_client_ready(5-7), of True]
    unfolding quiet_client_sel by (elim exE conjE) (rule that, simp only: redis_store_session_def)
  have free: "\<not> ws_locked (h_life fresh_heap (s_lifecycle fresh_reference))"
    using quiet_client_ready(3) by (simp add: lineage_idle_def)
  have quiet: "\<And>w. undisturbed n w = w" for n :: nat
    by (simp add: undisturbed_def)
  have timeless: "s_expiry fresh_reference = None"
    by (simp add: fresh_reference_def fresh_session_def example_session_def)
  have kept: "redis_put example_redis 0 undisturbed (\<lambda>k. Delivered) origin snap json w5 \<noteq> (Revoked, w6)"
    if "save_begun reference_codec True undisturbed fresh_reference (fresh_heap, []) origin snap token json g w5"
    for origin snap token json g w5 w6
    using save_begun_facts(9)[OF that] timeless redis_put_timeless by (metis fst_conv)
  have others: "\<not> ws_locked (h_life (fst (undisturbed n w)) (s_lifecycle fresh_reference))"
    if "\<not> ws_locked (h_life (fst w) (s_lifecycle fresh_reference))" for n :: nat and w :: "redis_db remote"
    using that by simp
  show ?thesis
    using remote_save_outcomes[OF run[unfolded redis_store_session_def] others free] kept run
    unfolding sum.case quiet by blast
qed

subsection \<open>Deletion is final\<close>

text \<open>The write as an operation that can be refused; a lifetime of zero is never sent.\<close>

definition redis_write ::
  "'r redis_store \<Rightarrow> string option \<Rightarrow> string \<Rightarrow> string \<times> u64 option \<Rightarrow> 'r \<Rightarrow> 'r option" where
  "redis_write st origin ident entry r =
     (if snd entry = Some 0 then None
      else case redis_commit st origin ident entry r of (ok, r') \<Rightarrow> if ok then Some r' else None)"

definition redis_erase :: "'r redis_store \<Rightarrow> string \<Rightarrow> 'r \<Rightarrow> 'r" where
  "redis_erase st ident r = rd_del (rs_server st) (redis_key st ident) r"

lemma redis_write_Some:
  assumes "redis_laws (rs_server st) view" and "redis_write st origin ident entry r = Some r'"
  shows "conditional_write origin ident entry (redis_records st view r) = Some (redis_records st view r')"
  using assms redis_commit_refines[OF assms(1), of entry origin ident r]
  by (auto simp: redis_write_def split: if_splits prod.splits)

lemma redis_conditional_backend:
  assumes "redis_laws (rs_server st) view"
  shows "conditional_backend (redis_write st) (redis_erase st) (\<lambda>r. dom (redis_records st view r)) (\<lambda>_. True)"
proof (rule conditional_backendI)
  show "\<exists>row. conditional_write origin t row (redis_records st view r) = Some (redis_records st view r')"
    if "redis_write st origin t e r = Some r'" for origin t e r r'
    using redis_write_Some[OF assms that] by blast
  show "redis_records st view (redis_erase st t r) = (redis_records st view r)(t := None)" for t r
    using redis_lawsD(5)[OF assms] by (auto simp: redis_erase_def redis_records_def fun_eq_iff)
qed

text \<open>
  Once a coordinated deletion of a clone family has succeeded on the Redis store, no
  interleaving of the family's saves, rotations, cancelled requests that land late,
  compensations and deletions, and no removal by others, adds a record to the store.
\<close>
theorem redis_deletion_is_final:
  assumes "redis_laws (rs_server st) view" and "session_allocated h s"
    and "(lineage_step (redis_write st) (redis_erase st) True)\<^sup>*\<^sup>* (lineage_start s h r) w" and "ln_revoked w"
    and "(lineage_step (redis_write st) (redis_erase st) True)\<^sup>*\<^sup>* w w'"
  shows "dom (redis_records st view (ln_store w')) \<subseteq> dom (redis_records st view (ln_store w))"
proof -
  have contract: "backend_writes (redis_write st) (redis_erase st)
      (\<lambda>r. dom (redis_records st view r)) (\<lambda>_. True)"
    using redis_conditional_backend[OF assms(1)] by (simp add: conditional_backend_def)
  show ?thesis
    by (rule backend_writes.deletion_final[OF contract assms(2-5)])
qed

theorem redis_deletion_is_final_witness:
  "dom (redis_records example_redis map_of
     (ln_store (example_deleted (redis_erase example_redis) [(''p/a'', ''t'', None)]))) = {}"
proof -
  have laws: "redis_laws (rs_server example_redis) map_of"
    by (simp add: example_redis_def reference_redis_laws)
  have revoked: "ln_revoked (example_deleted (redis_erase example_redis) [(''p/a'', ''t'', None)])"
    by (simp add: example_deleted_def)
  have "dom (redis_records example_redis map_of
     (ln_store (example_deleted (redis_erase example_redis) [(''p/a'', ''t'', None)]))) \<subseteq> {}"
    using redis_deletion_is_final[OF laws example_allocated
        example_run(2)[of "redis_write example_redis" "redis_erase example_redis" True] revoked
        rtranclp.rtrancl_refl]
    by (simp add: example_deleted_def redis_erase_def example_redis_def reference_redis_def
        redis_records_def redis_key_def db_remove_def dom_def)
  then show ?thesis by blast
qed

end
