(* ===== verification/Cancellation.thy ===== *)
theory Cancellation
  imports Redis_Protocol
begin

text \<open>
  Handlers whose future is dropped at one of their suspension points, as when a client goes
  away or a timeout fires. Rust then drops the locals that are alive there, last declared
  first: the write guard, if there is one, and the save token. What the interrupted request
  still does, and what others do meanwhile, is an arbitrary function \<open>rest\<close>.
\<close>

subsection \<open>Dropped handlers\<close>

datatype drop_point = While_Locking | While_Writing | While_Compensating

text \<open>
  A save to an external store; \<open>None\<close> if the run does not get to the point. The writing of a
  rotation in MongoDB or SQL takes several requests: \<open>rest\<close> is any part of them.
\<close>

definition remote_store_dropped ::
  "codec \<Rightarrow> bool \<Rightarrow> (string option \<Rightarrow> session \<Rightarrow> string \<Rightarrow> 'r remote \<Rightarrow> write_outcome \<times> 'r remote) \<Rightarrow>
   ('r remote \<Rightarrow> 'r remote) \<Rightarrow> 'r remote interleaving \<Rightarrow> drop_point \<Rightarrow> session \<Rightarrow> 'r remote \<Rightarrow> 'r remote option" where
  "remote_store_dropped c recheck put rest ij pt s w =
     (let (h, r) = w in
      case persistence_attempt s h of
        (Inl _, _) \<Rightarrow> None
      | (Inr origin, h1) \<Rightarrow>
          (let (h2, r2) = ij 0 (h1, r) in
           if recheck \<and> is_destroyed s h2 then None
           else
             (let ((snap, token), h3) = persistence_snapshot s h2 in
              case wc_to_json c (wire_of snap h3) of
                Inl _ \<Rightarrow> None
              | Inr json \<Rightarrow>
                  (let (h4, r4) = ij 1 (h3, r2) in
                   if pt = While_Locking then Some (revision_drop token h4, r4)
                   else case begin_backend_write s origin True h4 of
                     (Pending, _) \<Rightarrow> None
                   | (Ready (Inl _), _) \<Rightarrow> None
                   | (Ready (Inr g), h5) \<Rightarrow>
                       if pt = While_Writing then
                         (let (h6, r6) = rest (h5, r4)
                          in Some (revision_drop token (write_guard_drop g h6), r6))
                       else
                         (case put origin snap json (h5, r4) of
                            (Stored, w6) \<Rightarrow>
                              (let (h7, r7) = ij 2 w6 in
                               case guard_finish g h7 of
                                 (Inr _, _) \<Rightarrow> None
                               | (Inl _, g1) \<Rightarrow>
                                   (let g2 = guard_require_cleanup g1;
                                        (h8, r8) = rest (h7, r7)
                                    in Some (revision_drop token (write_guard_drop g2 h8), r8)))
                          | _ \<Rightarrow> None)))))"

text \<open>A save to the memory store, which waits for the lifecycle lock and for the store's own lock.\<close>

definition ms_store_dropped ::
  "world interleaving \<Rightarrow> drop_point \<Rightarrow> session \<Rightarrow> world \<Rightarrow> world option" where
  "ms_store_dropped ij pt s w =
     (let (h, st) = w in
      case persistence_attempt s h of
        (Inl _, _) \<Rightarrow> None
      | (Inr attempt, h1) \<Rightarrow>
          (let ((snap, token), h2) = persistence_snapshot s h1;
               (h3, st3) = ij 0 (h2, st)
           in if pt = While_Locking then Some (revision_drop token h3, st3)
              else case begin_backend_write s attempt False h3 of
                (Ready (Inr write), h4) \<Rightarrow>
                  (let (h5, st5) = ij 1 (h4, st3) in
                   if pt = While_Writing then Some (revision_drop token (write_guard_drop write h5), st5) else None)
              | _ \<Rightarrow> None))"

text \<open>A deletion, which is dropped while it waits for the lifecycle lock or in its request.\<close>

definition remote_destroy_dropped ::
  "('r remote \<Rightarrow> 'r remote) \<Rightarrow> 'r remote interleaving \<Rightarrow> drop_point \<Rightarrow> session \<Rightarrow> 'r remote \<Rightarrow> 'r remote option" where
  "remote_destroy_dropped rest ij pt s w =
     (let (h, r) = w;
          (h1, r1) = ij 0 (session_destroy s h, r)
      in if pt = While_Locking then Some (h1, r1)
         else case begin_delete_locked s h1 of
           (Ready (Inr deletion), h2) \<Rightarrow>
             if pt = While_Writing
             then (let (h3, r3) = rest (h2, r1) in Some (delete_guard_drop deletion h3, r3)) else None
         | _ \<Rightarrow> None)"

subsection \<open>What a dropped save leaves behind\<close>

text \<open>Other tasks do not take back a creation claim, and addresses stay allocated.\<close>

definition claimed :: "session \<Rightarrow> heap \<Rightarrow> bool" where
  "claimed s h \<longleftrightarrow> session_allocated h s \<and> h_claimed h (s_creation_claimed s)"

definition keeps_claim :: "session \<Rightarrow> (heap \<times> 'b \<Rightarrow> heap \<times> 'b) \<Rightarrow> bool" where
  "keeps_claim s f \<longleftrightarrow> (\<forall>w. claimed s (fst w) \<longrightarrow> claimed s (fst (f w)))"

lemma keeps_claimD: "keeps_claim s f \<Longrightarrow> f w = (h', r') \<Longrightarrow> claimed s (fst w) \<Longrightarrow> claimed s h'"
  unfolding keeps_claim_def by (metis fst_conv)

lemma others_claim: "\<forall>n. keeps_claim s (ij n) \<Longrightarrow> ij n w = (h', r') \<Longrightarrow> claimed s (fst w) \<Longrightarrow> claimed s h'"
  by (rule keeps_claimD[of s "ij n"]) simp_all

lemma attempt_claims:
  "persistence_attempt s h = (Inr None, h1) \<Longrightarrow> session_allocated h s \<Longrightarrow> claimed s h1"
  by (auto simp: persistence_attempt_def claimed_def session_allocated_def split: sum.splits if_splits)

lemma claimed_not_granted: "claimed s h \<Longrightarrow> fst (persistence_attempt s h) \<noteq> Inr None"
  by (auto simp: claimed_def persistence_attempt_def persistence_origin_def Let_def split: if_splits option.splits)

lemma snapshot_claim: "persistence_snapshot s h = (st, h') \<Longrightarrow> claimed s h \<Longrightarrow> claimed s h'"
  by (auto simp: claimed_def persistence_snapshot_def snapshot_values_def capture_def Let_def split_beta
      session_allocated_def)

lemma begin_claim: "begin_backend_write s origin u h = (Ready (Inr g), h') \<Longrightarrow> claimed s h \<Longrightarrow> claimed s h'"
  using begin_backend_write_Inr[of s origin u h g h'] by (auto simp: claimed_def session_allocated_def)

lemma drop_claim [simp]:
  "claimed s (revision_drop token h) = claimed s h" "claimed s (write_guard_drop g h) = claimed s h"
  by (simp_all add: claimed_def session_allocated_def revision_drop_def)

lemma remote_store_dropped_cases:
  assumes "remote_store_dropped c recheck put rest ij pt s (h, r) = Some (h', r')"
  obtains (locking) origin h1 h2 r2 snap token h3 h4 where "pt = While_Locking"
      "persistence_attempt s h = (Inr origin, h1)" "ij 0 (h1, r) = (h2, r2)"
      "persistence_snapshot s h2 = ((snap, token), h3)" "ij 1 (h3, r2) = (h4, r')" "h' = revision_drop token h4"
  | (writing) origin snap token json g w5 h6 where "pt = While_Writing"
      "save_begun c recheck ij s (h, r) origin snap token json g w5" "rest w5 = (h6, r')"
      "h' = revision_drop token (write_guard_drop g h6)"
  | (compensating) origin snap token json g w5 w6 w7 h8 where "pt = While_Compensating"
      "save_begun c recheck ij s (h, r) origin snap token json g w5" "put origin snap json w5 = (Stored, w6)"
      "ij 2 w6 = w7" "rest w7 = (h8, r')"
      "h' = revision_drop token (write_guard_drop (g\<lparr>wg_settled := False\<rparr>) h8)"
proof -
  obtain origin h1 h2 r2 snap token h3 json h4 r4 where go: "persistence_attempt s h = (Inr origin, h1)"
      "ij 0 (h1, r) = (h2, r2)" "\<not> (recheck \<and> is_destroyed s h2)"
      "persistence_snapshot s h2 = ((snap, token), h3)" "wc_to_json c (wire_of snap h3) = Inr json"
      "ij 1 (h3, r2) = (h4, r4)"
    using assms
    by (cases "persistence_attempt s h", cases "fst (persistence_attempt s h)")
       (auto simp: remote_store_dropped_def Let_def split: prod.splits sum.splits if_splits)
  note run = assms[unfolded remote_store_dropped_def Let_def, simplified go prod.case sum.case if_not_P[OF go(3)]]
  show thesis
  proof (cases "pt = While_Locking")
    case True
    then show ?thesis using run go locking by simp
  next
    case later: False
    obtain g h5 where bg: "begin_backend_write s origin True h4 = (Ready (Inr g), h5)"
      using run later by (auto split: prod.splits poll.splits sum.splits)
    have begun: "save_begun c recheck ij s (h, r) origin snap token json g (h5, r4)"
      using go bg by (auto simp: save_begun_def)
    show ?thesis
    proof (cases "pt = While_Writing")
      case True
      then show ?thesis using run bg writing[OF _ begun] by (auto split: prod.splits)
    next
      case False
      then have "pt = While_Compensating" using later by (cases pt) auto
      then show ?thesis
        using run bg compensating[OF _ begun]
        by (auto simp: guard_finish_def guard_require_cleanup_def Let_def
            split: prod.splits sum.splits write_outcome.splits if_splits)
    qed
  qed
qed

lemma save_begun_claim:
  assumes "save_begun c recheck ij s (h, r) None snap token json g w5" and "session_allocated h s"
    and "\<forall>n. keeps_claim s (ij n)"
  shows "claimed s (fst w5)"
proof -
  obtain h1 h2 r2 h3 h4 h5 r4 where begun: "persistence_attempt s h = (Inr None, h1)"
      "ij 0 (h1, r) = (h2, r2)" "persistence_snapshot s h2 = ((snap, token), h3)"
      "ij 1 (h3, r2) = (h4, r4)" "begin_backend_write s None True h4 = (Ready (Inr g), h5)" "w5 = (h5, r4)"
    using assms(1) unfolding save_begun_def by auto
  have "claimed s h2" using others_claim[OF assms(3) begun(2)] attempt_claims[OF begun(1) assms(2)] by simp
  then have "claimed s h4" using others_claim[OF assms(3) begun(4)] snapshot_claim[OF begun(3)] by simp
  then show ?thesis using begin_claim[OF begun(5)] begun(6) by simp
qed

lemma uncertain_refuses:
  assumes "ws_uncertain (h_life h (s_lifecycle s))" and "\<not> ws_locked (h_life h (s_lifecycle s))"
  shows "fst (begin_delete_locked s h) = Ready (Inl UncertainWrite)"
    and "fst (begin_backend_write s origin outlives h) = Ready (Inl UncertainWrite)"
  using assms
  by (simp_all add: begin_delete_locked_def lifecycle_delete_def begin_backend_write_def begin_guarded_write_def
      lifecycle_write_def Let_def)

text \<open>
  C17: when the future of a save to an external store is dropped, at any suspension point and
  whatever the interrupted request still does, the session stays dirty and the authority to
  create a record is not given back. A save that was still waiting for the lifecycle lock has
  sent nothing. One that had the lock has released it, and if it could have created a record
  under a new identity, then every later save and deletion of the lineage is refused as uncertain.
\<close>
theorem dropped_save_outcomes:
  assumes run: "remote_store_dropped c recheck put rest ij pt s (h, r) = Some (h', r')"
    and start: "fst (persistence_attempt s h) = Inr origin" "session_allocated h s"
    and others: "\<forall>n. keeps_claim s (ij n)" "keeps_claim s rest"
      "\<forall>origin snap json. keeps_claim s (\<lambda>w. snd (put origin snap json w))"
  shows "needs_persist s h' \<and> (origin = None \<longrightarrow> fst (persistence_attempt s h') \<noteq> Inr None) \<and>
    (if pt = While_Locking then \<exists>k0 k1. r' = snd (ij 1 (k1, snd (ij 0 (k0, r))))
     else \<not> ws_locked (h_life h' (s_lifecycle s)) \<and>
       (origin \<noteq> Some (s_id s) \<longrightarrow> fst (begin_delete_locked s h') = Ready (Inl UncertainWrite) \<and>
          (\<forall>new u. fst (begin_backend_write s new u h') = Ready (Inl UncertainWrite))))"
  using run
proof (cases rule: remote_store_dropped_cases)
  case (locking origin' h1 h2 r2 snap token h3 h4)
  have "origin' = origin" using locking(2) start(1) by simp
  then have "claimed s h4" if "origin = None"
    using that attempt_claims[of s h h1] others_claim[OF others(1) locking(3)] others_claim[OF others(1) locking(5)]
      snapshot_claim[OF locking(4)] locking(2) start(2) others(1) by simp
  moreover have "\<exists>k0 k1. r' = snd (ij 1 (k1, snd (ij 0 (k0, r))))"
    using locking(3,5) by (metis snd_conv)
  ultimately show ?thesis
    using locking(1,6) needs_persist_drop[of token s] persistence_snapshot_token[OF locking(4)]
      claimed_not_granted[of s h'] by auto
next
  case (writing origin' snap token json g w5 h6)
  note g = save_begun_facts[OF writing(2)]
  have origin: "origin' = origin" using g(8) start(1) by simp
  have "claimed s h6" if "origin = None"
    using save_begun_claim[OF writing(2)[unfolded origin that] start(2) others(1)]
      keeps_claimD[OF others(2) writing(3)] by simp
  then show ?thesis
    using writing(1,4) g(1,3-5) origin needs_persist_drop[of token s] claimed_not_granted[of s h'] uncertain_refuses[of h' s]
    by auto
next
  case (compensating origin' snap token json g w5 w6 w7 h8)
  note g = save_begun_facts[OF compensating(2)]
  have origin: "origin' = origin" using g(8) start(1) by simp
  have "claimed s h8" if "origin = None"
  proof -
    have "claimed s (fst w5)" by (rule save_begun_claim[OF compensating(2)[unfolded origin that] start(2) others(1)])
    then have "claimed s (fst w6)"
      using others(3) compensating(3) unfolding keeps_claim_def by (metis snd_conv)
    then have "claimed s (fst w7)" using others(1) compensating(4) unfolding keeps_claim_def by metis
    then show ?thesis by (rule keeps_claimD[OF others(2) compensating(5)])
  qed
  then show ?thesis
    using compensating(1,6) g(1,4,5) origin needs_persist_drop[of token s] claimed_not_granted[of s h']
      uncertain_refuses[of h' s] by auto
qed

lemma redis_put_claim: "keeps_claim s (\<lambda>w. snd (redis_put st now undisturbed net origin snap json w))"
proof -
  have "fst (snd (redis_put st now undisturbed net origin snap json w)) = fst w" for w
    by (auto simp: redis_put_eq redis_delete_def remote_call_def undisturbed_def Let_def
        split: sum.splits prod.splits if_splits)
  then show ?thesis by (simp add: keeps_claim_def)
qed

theorem dropped_save_outcomes_witness:
  "\<exists>h' r'. remote_store_dropped reference_codec True (redis_put example_redis 0 undisturbed (\<lambda>k. Delivered)) id
      undisturbed While_Writing fresh_reference (fresh_heap, []) = Some (h', r') \<and>
    needs_persist fresh_reference h' \<and> fst (persistence_attempt fresh_reference h') \<noteq> Inr None \<and>
    fst (begin_delete_locked fresh_reference h') = Ready (Inl UncertainWrite)"
proof -
  let ?put = "redis_put example_redis 0 undisturbed (\<lambda>k. Delivered)"
  obtain json where json: "wc_to_json reference_codec (wire_of fresh_reference fresh_heap) = Inr json"
    using fresh_encodes by blast
  obtain ha snap token hb hc g where begun: "persistence_attempt fresh_reference fresh_heap = (Inr None, ha)"
      "\<not> is_destroyed fresh_reference ha" "persistence_snapshot fresh_reference ha = ((snap, token), hb)"
      "begin_backend_write fresh_reference None True hb = (Ready (Inr g), hc)"
      "wire_of snap hb = wire_of fresh_reference fresh_heap"
    by (rule save_begins[OF quiet_client_ready(2-4), of True]) (rule that, assumption+, simp add: wire_of_def)
  have run: "remote_store_dropped reference_codec True ?put id undisturbed While_Writing
      fresh_reference (fresh_heap, []) = Some (revision_drop token (write_guard_drop g hc), [])"
    using begun json by (simp add: remote_store_dropped_def undisturbed_def)
  have others: "\<forall>n. keeps_claim fresh_reference (undisturbed n)" "keeps_claim fresh_reference id"
    "\<forall>origin snap json. keeps_claim fresh_reference (\<lambda>w. snd (?put origin snap json w))"
    by (simp_all add: keeps_claim_def undisturbed_def redis_put_claim[unfolded keeps_claim_def])
  have "fst (persistence_attempt fresh_reference fresh_heap) = Inr None" using begun(1) by simp
  note outcome = dropped_save_outcomes[OF run this quiet_client_ready(2) others]
  show ?thesis
    by (rule exI, rule exI, rule conjI[OF run]) (use outcome in simp)
qed

subsection \<open>The memory store and deletions\<close>

text \<open>
  A dropped save of the memory store has not touched the records and leaves no uncertainty: its
  write is one step that cannot be interrupted.
\<close>

theorem dropped_memory_save_outcomes:
  assumes "ms_store_dropped ij pt s (h, st) = Some (h', st')"
  shows "needs_persist s h' \<and>
    (if pt = While_Locking then \<exists>k. st' = snd (ij 0 (k, st))
     else \<not> ws_locked (h_life h' (s_lifecycle s)) \<and>
       (\<exists>k w. st' = snd (ij 1 (k, snd (ij 0 (w, st)))) \<and>
          ws_uncertain (h_life h' (s_lifecycle s)) = ws_uncertain (h_life (fst (ij 1 (k, snd (ij 0 (w, st))))) (s_lifecycle s))))"
proof -
  obtain attempt h1 snap token h2 h3 st3 where go: "persistence_attempt s h = (Inr attempt, h1)"
      "persistence_snapshot s h1 = ((snap, token), h2)" "ij 0 (h2, st) = (h3, st3)"
    using assms
    by (cases "persistence_attempt s h", cases "fst (persistence_attempt s h)")
       (auto simp: ms_store_dropped_def Let_def split: prod.splits)
  note run = assms[unfolded ms_store_dropped_def Let_def, simplified go prod.case sum.case]
  have dirty: "sr_data token = s_data s" using persistence_snapshot_token[OF go(2)] by simp
  show ?thesis
  proof (cases "pt = While_Locking")
    case True
    then show ?thesis using run go(3) needs_persist_drop[OF dirty] by (auto intro: exI[of _ h2])
  next
    case False
    then obtain g h4 h5 where bg: "begin_backend_write s attempt False h3 = (Ready (Inr g), h4)"
        "ij 1 (h4, st3) = (h5, st')" "h' = revision_drop token (write_guard_drop g h5)"
      using run by (auto split: prod.splits poll.splits sum.splits if_splits)
    have w: "snd (ij 0 (h2, st)) = st3" "st' = snd (ij 1 (h4, st3))" "fst (ij 1 (h4, st3)) = h5"
      using go(3) bg(2) by simp_all
    show ?thesis
      unfolding if_not_P[OF False]
      using begin_backend_write_Inr[OF bg(1)] bg(3) needs_persist_drop[OF dirty] w
      by (intro conjI exI[of _ h4] exI[of _ h2]) simp_all
  qed
qed

text \<open>A dropped deletion keeps the session destroyed: no save of its family can begin again.\<close>

theorem dropped_deletion_outcomes:
  assumes "remote_destroy_dropped rest ij pt s (h, r) = Some (h', r')"
    and "\<And>n w. is_destroyed s (fst w) \<Longrightarrow> is_destroyed s (fst (ij n w))"
    and "\<And>w. is_destroyed s (fst w) \<Longrightarrow> is_destroyed s (fst (rest w))"
  shows "is_destroyed s h' \<and> fst (persistence_attempt s h') = Inl SessionConflict \<and>
    (pt \<noteq> While_Locking \<longrightarrow> \<not> ws_locked (h_life h' (s_lifecycle s)))"
proof -
  obtain h1 r1 where w1: "ij 0 (session_destroy s h, r) = (h1, r1)" by fastforce
  have d1: "is_destroyed s h1"
    using assms(2)[of "(session_destroy s h, r)" 0] w1 by (simp add: is_destroyed_def session_destroy_def)
  have "is_destroyed s h' \<and> (pt \<noteq> While_Locking \<longrightarrow> \<not> ws_locked (h_life h' (s_lifecycle s)))"
  proof (cases "pt = While_Locking")
    case True
    then show ?thesis using assms(1) w1 d1 by (simp add: remote_destroy_dropped_def)
  next
    case False
    then obtain dg h2 h3 where run: "begin_delete_locked s h1 = (Ready (Inr dg), h2)" "rest (h2, r1) = (h3, r')"
        "h' = delete_guard_drop dg h3"
      using assms(1) w1
      by (auto simp: remote_destroy_dropped_def Let_def split: prod.splits poll.splits sum.splits if_splits)
    have "is_destroyed s h2" "dg_state dg = s_lifecycle s"
      using run(1) d1
      by (auto simp: begin_delete_locked_def lifecycle_delete_def is_destroyed_def split: if_splits)
    then show ?thesis using assms(3)[of "(h2, r1)"] run(2,3) by (simp add: is_destroyed_def)
  qed
  then show ?thesis by (simp add: persistence_attempt_def)
qed

end
