(* ===== verification/Handler_Protocol.thy ===== *)
theory Handler_Protocol
  imports Memory_Handlers
begin

text \<open>
  The handlers of the stores as executions of the lineage protocol: what a handler does between
  its suspension points is a sequence of steps of one task, if what happens at the suspension
  points are steps of other tasks. So the claims about the protocol hold of the handlers.
\<close>

subsection \<open>Runs of one task\<close>

abbreviation protocol_steps ::
  "(string option \<Rightarrow> string \<Rightarrow> 'r \<Rightarrow> 'b \<Rightarrow> 'b option) \<Rightarrow> (string \<Rightarrow> 'b \<Rightarrow> 'b) \<Rightarrow> bool \<Rightarrow>
   'b lineage \<Rightarrow> 'b lineage \<Rightarrow> bool" where
  "protocol_steps commit erase outlives \<equiv> (lineage_step commit erase outlives)\<^sup>*\<^sup>*"

text \<open>
  \<open>run_to \<dots> i P W ph (h, b)\<close>: from \<open>W\<close> the protocol can reach a state with heap \<open>h\<close> and store \<open>b\<close>
  in which task \<open>i\<close> is in phase \<open>ph\<close> and \<open>P\<close> holds of the phases of all tasks.
\<close>

definition run_to ::
  "(string option \<Rightarrow> string \<Rightarrow> 'r \<Rightarrow> 'b \<Rightarrow> 'b option) \<Rightarrow> (string \<Rightarrow> 'b \<Rightarrow> 'b) \<Rightarrow> bool \<Rightarrow> nat \<Rightarrow>
   ((nat \<Rightarrow> phase) \<Rightarrow> bool) \<Rightarrow> 'b lineage \<Rightarrow> phase \<Rightarrow> heap \<times> 'b \<Rightarrow> bool" where
  "run_to commit erase outlives i P W ph w \<longleftrightarrow>
     (\<exists>W'. protocol_steps commit erase outlives W W' \<and> ln_tasks W' i = ph \<and> P (ln_tasks W') \<and>
        (ln_heap W', ln_store W') = w)"

text \<open>
  What others do at a suspension point of task \<open>i\<close> are steps that leave its phase alone and lead
  from \<open>P\<close> to \<open>Q\<close>; neither condition is about the phase of task \<open>i\<close>.
\<close>

definition performs ::
  "(string option \<Rightarrow> string \<Rightarrow> 'r \<Rightarrow> 'b \<Rightarrow> 'b option) \<Rightarrow> (string \<Rightarrow> 'b \<Rightarrow> 'b) \<Rightarrow> bool \<Rightarrow> nat \<Rightarrow>
   ((nat \<Rightarrow> phase) \<Rightarrow> bool) \<Rightarrow> (heap \<times> 'b \<Rightarrow> heap \<times> 'b) \<Rightarrow> ((nat \<Rightarrow> phase) \<Rightarrow> bool) \<Rightarrow> bool" where
  "performs commit erase outlives i P f Q \<longleftrightarrow>
     (\<forall>W. P (ln_tasks W) \<longrightarrow> run_to commit erase outlives i Q W (ln_tasks W i) (f (ln_heap W, ln_store W)))"

definition not_about :: "nat \<Rightarrow> ((nat \<Rightarrow> phase) \<Rightarrow> bool) \<Rightarrow> bool" where
  "not_about i P \<longleftrightarrow> (\<forall>f ph. P f \<longrightarrow> P (f(i := ph)))"

definition follows_protocol ::
  "(string option \<Rightarrow> string \<Rightarrow> 'r \<Rightarrow> 'b \<Rightarrow> 'b option) \<Rightarrow> (string \<Rightarrow> 'b \<Rightarrow> 'b) \<Rightarrow> bool \<Rightarrow> nat \<Rightarrow>
   (nat \<Rightarrow> (nat \<Rightarrow> phase) \<Rightarrow> bool) \<Rightarrow> (heap \<times> 'b) interleaving \<Rightarrow> bool" where
  "follows_protocol commit erase outlives i P ij \<longleftrightarrow>
     (\<forall>n. not_about i (P n) \<and> performs commit erase outlives i (P n) (ij n) (P (Suc n)))"

lemma run_to_start:
  "P (ln_tasks W) \<Longrightarrow> run_to commit erase outlives i P W (ln_tasks W i) (ln_heap W, ln_store W)"
  unfolding run_to_def by blast

lemma run_to_others:
  assumes "run_to commit erase outlives i P W ph w" and "performs commit erase outlives i P f Q"
  shows "run_to commit erase outlives i Q W ph (f w)"
proof -
  obtain V where V: "protocol_steps commit erase outlives W V" "ln_tasks V i = ph" "P (ln_tasks V)"
      "(ln_heap V, ln_store V) = w"
    using assms(1) unfolding run_to_def by blast
  then have "run_to commit erase outlives i Q V ph (f w)"
    using assms(2) unfolding performs_def by metis
  then obtain V' where "protocol_steps commit erase outlives V V'" "ln_tasks V' i = ph" "Q (ln_tasks V')"
      "(ln_heap V', ln_store V') = f w"
    unfolding run_to_def by blast
  then show ?thesis
    using rtranclp_trans[OF V(1)] unfolding run_to_def by blast
qed

lemma run_to_step:
  assumes "run_to commit erase outlives i P W ph (h, b)" and "not_about i P"
    and step: "\<And>V. ln_tasks V i = ph \<Longrightarrow> ln_heap V = h \<Longrightarrow> ln_store V = b \<Longrightarrow>
      lineage_step commit erase outlives V (moved i ph' h' b' V)"
  shows "run_to commit erase outlives i P W ph' (h', b')"
proof -
  obtain V where V: "protocol_steps commit erase outlives W V" "ln_tasks V i = ph" "P (ln_tasks V)"
      "ln_heap V = h" "ln_store V = b"
    using assms(1) unfolding run_to_def by auto
  have "ln_tasks (moved i ph' h' b' V) = (ln_tasks V)(i := ph')" by (simp add: moved_def)
  then have "P (ln_tasks (moved i ph' h' b' V))" using V(3) assms(2) by (simp add: not_about_def)
  moreover have "protocol_steps commit erase outlives W (moved i ph' h' b' V)"
    using V(1) step[OF V(2,4,5)] by (rule rtranclp.rtrancl_into_rtrancl)
  ultimately show ?thesis unfolding run_to_def by (intro exI[of _ "moved i ph' h' b' V"]) simp
qed

lemma run_to_local:
  assumes "run_to commit erase outlives i P W ph (h, b)" and "local_change h h'"
  shows "run_to commit erase outlives i P W ph (h', b)"
proof -
  obtain V where V: "protocol_steps commit erase outlives W V" "ln_tasks V i = ph" "P (ln_tasks V)"
      "ln_heap V = h" "ln_store V = b"
    using assms(1) unfolding run_to_def by auto
  have "lineage_step commit erase outlives V (V\<lparr>ln_heap := h'\<rparr>)"
    using assms(2) V(4) by (intro l_local) simp
  with V(1) have "protocol_steps commit erase outlives W (V\<lparr>ln_heap := h'\<rparr>)"
    by (rule rtranclp.rtrancl_into_rtrancl)
  with V show ?thesis unfolding run_to_def by (intro exI[of _ "V\<lparr>ln_heap := h'\<rparr>"]) simp
qed

lemma run_to_erased:
  assumes "run_to commit erase outlives i P W ph (h, b)"
  shows "run_to commit erase outlives i P W ph (h, erase t b)"
proof -
  obtain V where V: "protocol_steps commit erase outlives W V" "ln_tasks V i = ph" "P (ln_tasks V)"
      "ln_heap V = h" "ln_store V = b"
    using assms unfolding run_to_def by auto
  have "protocol_steps commit erase outlives W (V\<lparr>ln_store := erase t (ln_store V)\<rparr>)"
    using V(1) l_erased by (rule rtranclp.rtrancl_into_rtrancl)
  with V show ?thesis unfolding run_to_def by (intro exI[of _ "V\<lparr>ln_store := erase t (ln_store V)\<rparr>"]) simp
qed

lemma follows_protocolD:
  "follows_protocol commit erase outlives i P ij \<Longrightarrow> not_about i (P n)"
  "follows_protocol commit erase outlives i P ij \<Longrightarrow> performs commit erase outlives i (P n) (ij n) (P (Suc n))"
  by (simp_all add: follows_protocol_def)

lemma run_to_point:
  assumes "run_to commit erase outlives i (P n) W ph w" and "follows_protocol commit erase outlives i P ij"
    and "ij n w = w'"
  shows "run_to commit erase outlives i (P (Suc n)) W ph w'"
  using run_to_others[OF assms(1) follows_protocolD(2)[OF assms(2)]] assms(3) by simp

subsection \<open>Steps that save and delete handlers share\<close>

lemma local_changes [simp, intro]:
  "local_change h h" "local_change h (revision_drop token h)" "local_change h (acknowledge token h)"
  "local_change h (mark_persisted s h)" "local_change h (snd (capture r h))"
  using crate_step_flags[OF cs_revision_drop] crate_step_flags[OF cs_acknowledge] crate_step_flags[OF cs_mark]
    crate_step_flags[OF cs_capture]
  by (simp_all add: local_change_def capture_def)

lemma local_change_trans: "local_change h k \<Longrightarrow> local_change k l \<Longrightarrow> local_change h l"
  by (auto simp: local_change_def flags_rise_def)

lemma local_change_snapshot: "persistence_snapshot s h = ((snap, token), h') \<Longrightarrow> local_change h h'"
  by (auto simp: persistence_snapshot_def snapshot_values_def capture_def local_change_def flags_rise_def Let_def
      split_beta)

lemma mark_acknowledge: "mark_persisted s (acknowledge token h) = acknowledge token (mark_persisted s h)"
  by (simp add: mark_persisted_def acknowledge_def set_pid_def upd_data_def Let_def)

text \<open>A handler obtains the authority to write, takes its snapshot, and gets or does not get the lock.\<close>

lemma run_to_prepared:
  "run_to commit erase outlives i P W (Holding s) (h, b) \<Longrightarrow> not_about i P \<Longrightarrow>
   persistence_attempt s h = (Inr origin, h') \<Longrightarrow>
   run_to commit erase outlives i P W (Prepared s origin) (h', b)"
  by (erule run_to_step, assumption) (use l_attempt in metis)

lemma run_to_writing:
  "run_to commit erase outlives i P W (Prepared s origin) (h, b) \<Longrightarrow> not_about i P \<Longrightarrow>
   begin_guarded_write s origin receipt outlives h = (Ready (Inr g), h') \<Longrightarrow>
   run_to commit erase outlives i P W (Writing s origin g) (h', b)"
  by (erule run_to_step, assumption) (use l_acquire in metis)

lemma run_to_refused:
  "run_to commit erase outlives i P W (Prepared s origin) (h, b) \<Longrightarrow> not_about i P \<Longrightarrow>
   begin_guarded_write s origin receipt outlives h = (Ready (Inl e), h') \<Longrightarrow>
   run_to commit erase outlives i P W Gone (h', b)"
  by (erule run_to_step, assumption) (use l_refused in metis)

lemma run_to_dropped:
  "run_to commit erase outlives i P W (Holding s) (h, b) \<Longrightarrow> not_about i P \<Longrightarrow>
   run_to commit erase outlives i P W Gone (h, b)"
  by (erule run_to_step, assumption) (use l_drop in metis)

lemma run_to_rejected:
  "run_to commit erase outlives i P W (Writing s origin g) (h, b) \<Longrightarrow> not_about i P \<Longrightarrow>
   run_to commit erase outlives i P W Gone (write_guard_drop g h, b)"
  by (erule run_to_step, assumption) (use l_reject in metis)

lemma run_to_written:
  "run_to commit erase outlives i P W (Writing s origin g) (h, b) \<Longrightarrow> not_about i P \<Longrightarrow>
   source = origin \<or> persistence_origin s h = Inr source \<Longrightarrow> commit source (s_id s) r b = Some b' \<Longrightarrow>
   run_to commit erase outlives i P W (Written s origin g) (h, b')"
  by (erule run_to_step, assumption) (use l_commit in metis)

lemma run_to_confirmed:
  fixes b :: 'b
  shows "run_to commit erase outlives i P W (Written s origin g) (h, b) \<Longrightarrow> not_about i P \<Longrightarrow>
   \<not> guard_is_destroyed g h \<Longrightarrow>
   run_to commit erase outlives i P W (Confirmed s (g\<lparr>wg_settled := True\<rparr>)) (h, b)"
proof (erule run_to_step, assumption)
  fix V :: "'b lineage" assume V: "ln_tasks V i = Written s origin g" "ln_heap V = h" "ln_store V = b"
    and live: "\<not> guard_is_destroyed g h"
  have "guard_finish g (ln_heap V) = (Inr (), g\<lparr>wg_settled := True\<rparr>)"
    using live V(2) by (simp add: guard_finish_def guard_is_destroyed_def)
  from l_confirm[OF V(1) this] show "lineage_step commit erase outlives V
      (moved i (Confirmed s (g\<lparr>wg_settled := True\<rparr>)) h b V)"
    by (simp add: V)
qed

lemma run_to_finished:
  assumes "run_to commit erase outlives i P W (Confirmed s g) (h, b)" and "not_about i P"
  shows "run_to commit erase outlives i P W Gone (write_guard_drop g (acknowledge token (mark_persisted s h)), b)"
proof -
  have "run_to commit erase outlives i P W (Confirmed s g) (acknowledge token h, b)"
    by (rule run_to_local[OF assms(1)]) simp
  then show ?thesis
    by (rule run_to_step[OF _ assms(2)]) (use l_finish in \<open>metis mark_acknowledge\<close>)
qed

lemma run_to_compensated:
  fixes b :: 'b
  assumes "run_to commit erase outlives i P W (Written s origin g) (h, b)" and "not_about i P"
    and "guard_is_destroyed g h"
  shows "run_to commit erase outlives i P W (Removed s (g\<lparr>wg_settled := True\<rparr>)) (h, erase (s_id s) b)"
proof (rule run_to_step[OF assms(1,2)])
  fix V :: "'b lineage" assume V: "ln_tasks V i = Written s origin g" "ln_heap V = h" "ln_store V = b"
  have "guard_finish g (ln_heap V) = (Inl SessionConflict, g\<lparr>wg_settled := True\<rparr>)"
    using assms(3) V(2) by (simp add: guard_finish_def guard_is_destroyed_def)
  from l_compensate[OF V(1) this] show "lineage_step commit erase outlives V
      (moved i (Removed s (g\<lparr>wg_settled := True\<rparr>)) h (erase (s_id s) b) V)"
    by (simp add: V guard_update_defs)
qed

lemma run_to_removed:
  "run_to commit erase outlives i P W (Removed s g) (h, b) \<Longrightarrow> not_about i P \<Longrightarrow>
   run_to commit erase outlives i P W Gone (write_guard_drop g h, b)"
  by (erule run_to_step, assumption) (use l_removed in metis)

lemma run_to_token_drop:
  "run_to commit erase outlives i P W ph (h, b) \<Longrightarrow>
   run_to commit erase outlives i P W ph (revision_drop token h, b)"
  by (erule run_to_local) (rule local_changes)

lemma undisturbed_follows: "not_about i P \<Longrightarrow> follows_protocol commit erase outlives i (\<lambda>_. P) undisturbed"
  by (simp add: follows_protocol_def performs_def undisturbed_def run_to_start)

subsection \<open>The in-memory store\<close>

text \<open>At point 2 a save holds the lock of the store, so that others only change the heap.\<close>

definition store_lock_held :: "world interleaving \<Rightarrow> world interleaving" where
  "store_lock_held ij = ij(2 := \<lambda>w. (fst (ij 2 w), snd w))"

abbreviation memory_follows ::
  "nat \<Rightarrow> (nat \<Rightarrow> (nat \<Rightarrow> phase) \<Rightarrow> bool) \<Rightarrow> world interleaving \<Rightarrow> bool" where
  "memory_follows \<equiv> follows_protocol ms_write ms_erase False"

abbreviation memory_run_to ::
  "nat \<Rightarrow> ((nat \<Rightarrow> phase) \<Rightarrow> bool) \<Rightarrow> memory_state lineage \<Rightarrow> phase \<Rightarrow> world \<Rightarrow> bool" where
  "memory_run_to \<equiv> run_to ms_write ms_erase False"

lemma memory_run_to_locked:
  assumes "store_locked ij s (ln_heap W, ln_store W) attempt snap token wg h5 st5"
    and "ln_tasks W i = Holding s" "P 0 (ln_tasks W)" and others: "memory_follows i P (store_lock_held ij)"
  shows "memory_run_to i (P 2) W (Writing s attempt wg) (h5, st5)"
proof -
  obtain h1 h2 h3 st3 h4 where run: "persistence_attempt s (ln_heap W) = (Inr attempt, h1)"
      "persistence_snapshot s h1 = ((snap, token), h2)" "ij 0 (h2, ln_store W) = (h3, st3)"
      "begin_backend_write s attempt False h3 = (Ready (Inr wg), h4)" "ij 1 (h4, st3) = (h5, st5)"
    using assms(1) by (auto simp: store_locked_def)
  note P = follows_protocolD(1)[OF others] and point = run_to_point[OF _ others]
  have "memory_run_to i (P 0) W (Holding s) (ln_heap W, ln_store W)"
    using run_to_start[where P = "P 0" and W = W and i = i] assms(2,3) by simp
  then have "memory_run_to i (P 0) W (Prepared s attempt) (h2, ln_store W)"
    by (intro run_to_local[OF run_to_prepared[OF _ P run(1)] local_change_snapshot[OF run(2)]])
  then have "memory_run_to i (P 1) W (Prepared s attempt) (h3, st3)"
    using point[of 0] run(3) by (simp add: store_lock_held_def)
  then have "memory_run_to i (P 1) W (Writing s attempt wg) (h4, st3)"
    by (rule run_to_writing[OF _ P run(4)[unfolded begin_backend_write_def]])
  then show ?thesis
    using point[of 1] run(5) by (simp add: store_lock_held_def numeral_2_eq_2)
qed

lemma begin_guarded_write_Pending: "begin_guarded_write s origin receipt u h = (Pending, h') \<Longrightarrow> h' = h"
  by (auto simp: begin_guarded_write_def lifecycle_write_def Let_def split: if_splits sum.splits)

lemma ms_store_pending:
  assumes "ms_store_session ij s (h, st) = (Pending, w')"
  obtains attempt h1 snap token h2 h3 st3 where "persistence_attempt s h = (Inr attempt, h1)"
    "persistence_snapshot s h1 = ((snap, token), h2)" "ij 0 (h2, st) = (h3, st3)" "w' = (h3, st3)"
proof -
  obtain ra h1 where att: "persistence_attempt s h = (ra, h1)" by fastforce
  obtain snap token h2 where ps: "persistence_snapshot s h1 = ((snap, token), h2)" by (metis surj_pair)
  obtain h3 st3 where w3: "ij 0 (h2, st) = (h3, st3)" by fastforce
  obtain attempt where ra: "ra = Inr attempt"
    using assms att by (cases ra) (auto simp: ms_store_session_def)
  obtain rb h4 where bg: "begin_backend_write s attempt False h3 = (rb, h4)" by fastforce
  obtain h5 st5 where w5: "ij 1 (h4, st3) = (h5, st5)" by fastforce
  note run = assms[unfolded ms_store_session_def Let_def, simplified att ra ps w3 bg prod.case sum.case]
  have "rb = Pending"
  proof (cases rb)
    case (Ready rg)
    then show ?thesis
      using run w5[simplified]
      by (cases rg)
         (auto simp: guard_finish_def Let_def split: prod.splits sum.splits if_splits bool.splits)
  qed simp
  then have "w' = (h3, st3)"
    using run bg begin_guarded_write_Pending[of s attempt None False h3 h4] by (simp add: begin_backend_write_def)
  then show ?thesis using that att ra ps w3 by blast
qed

lemma memory_save_runs:
  assumes call: "ms_store_session ij s (ln_heap W, ln_store W) = (res, w')"
    and start: "ln_tasks W i = Holding s" "P 0 (ln_tasks W)"
    and others: "memory_follows i P (store_lock_held ij)"
  shows "\<exists>n ph. memory_run_to i (P n) W ph w' \<and>
    (case res of Ready r \<Rightarrow> ph = Gone | Pending \<Rightarrow> \<exists>origin. ph = Prepared s origin)"
proof (cases res)
  case Pending
  note P = follows_protocolD(1)[OF others]
  obtain attempt h1 snap token h2 h3 st3 where run: "persistence_attempt s (ln_heap W) = (Inr attempt, h1)"
      "persistence_snapshot s h1 = ((snap, token), h2)" "ij 0 (h2, ln_store W) = (h3, st3)" "w' = (h3, st3)"
    using call[unfolded Pending] by (rule ms_store_pending)
  have "memory_run_to i (P 0) W (Holding s) (ln_heap W, ln_store W)"
    using run_to_start[where P = "P 0" and W = W and i = i] start by simp
  then have "memory_run_to i (P 0) W (Prepared s attempt) (h2, ln_store W)"
    by (intro run_to_local[OF run_to_prepared[OF _ P run(1)] local_change_snapshot[OF run(2)]])
  then have "memory_run_to i (P 1) W (Prepared s attempt) w'"
    using run_to_point[OF _ others, of 0] run(3,4) by (simp add: store_lock_held_def)
  with Pending show ?thesis by auto
next
  case (Ready r)
  obtain h' st' where w': "w' = (h', st')" by fastforce
  note P = follows_protocolD(1)[OF others]
  have here: "memory_run_to i (P 0) W (Holding s) (ln_heap W, ln_store W)"
    using run_to_start[where P = "P 0" and W = W and i = i] start by simp
  have "\<exists>n. memory_run_to i (P n) W Gone (h', st')"
    using call[unfolded w' Ready]
  proof (cases rule: ms_store_cases)
    case early
    then show ?thesis using run_to_dropped[OF here P] by auto
  next
    case (refused attempt h1 snap token h2 h3 e h4)
    have "memory_run_to i (P 0) W (Prepared s attempt) (h2, ln_store W)"
      by (rule run_to_local[OF run_to_prepared[OF here P refused(1)] local_change_snapshot[OF refused(2)]])
    then have "memory_run_to i (P 1) W (Prepared s attempt) (h3, st')"
      using run_to_point[OF _ others, of 0] refused(3) by (simp add: store_lock_held_def)
    from run_to_token_drop[OF run_to_refused[OF this P refused(4)[unfolded begin_backend_write_def]]]
    show ?thesis using refused(6) by auto
  next
    case (conflict attempt snap token wg h5)
    from run_to_token_drop[OF run_to_rejected[OF memory_run_to_locked[OF conflict(1) start others] P]]
    show ?thesis using conflict(3) by auto
  next
    case (compensated attempt snap token wg h5 st5 origin st6 h7)
    have commit: "ms_write origin (s_id s) snap st5 = Some st6"
      by (simp add: ms_write_def compensated(2))
    have source: "origin = attempt \<or> persistence_origin s h5 = Inr origin"
      using compensated(8) by (auto split: if_splits)
    have "memory_run_to i (P 2) W (Written s attempt wg) (snd (mark_loaded snap h5), st6)"
      using run_to_local[OF run_to_written[OF memory_run_to_locked[OF compensated(1) start others] P source commit]]
      by (simp add: mark_loaded_def)
    from run_to_point[OF this others refl]
    have "memory_run_to i (P 3) W (Written s attempt wg) (h7, st6)"
      using compensated(3) by (simp add: store_lock_held_def numeral_3_eq_3)
    from run_to_token_drop[OF run_to_removed[OF run_to_compensated[OF this P compensated(4)] P]]
    show ?thesis using compensated(6,7) by (auto simp: ms_erase_def)
  next
    case (stored attempt snap token wg h5 st5 origin st6 h7 h8)
    have commit: "ms_write origin (s_id s) snap st5 = Some st6"
      by (simp add: ms_write_def stored(4))
    have source: "origin = attempt \<or> persistence_origin s h5 = Inr origin"
      using stored(3) by (auto split: if_splits)
    have "memory_run_to i (P 2) W (Written s attempt wg) (snd (mark_loaded snap h5), st6)"
      using run_to_local[OF run_to_written[OF memory_run_to_locked[OF stored(1) start others] P source commit]]
      by (simp add: mark_loaded_def)
    from run_to_point[OF this others refl]
    have "memory_run_to i (P 3) W (Written s attempt wg) (h7, st6)"
      using stored(5) by (simp add: store_lock_held_def numeral_3_eq_3)
    from run_to_point[OF run_to_confirmed[OF this P stored(6)] others refl]
    have "memory_run_to i (P 4) W (Confirmed s (wg\<lparr>wg_settled := True\<rparr>)) (h8, st')"
      using stored(7) by (simp add: store_lock_held_def)
    from run_to_finished[OF this P] show ?thesis using stored(9) by auto
  qed
  then show ?thesis using w' Ready by auto
qed

text \<open>
  C21: a save of the memory store is an execution of the lineage protocol by one task, whatever
  others do at its suspension points, as long as that is an execution of the protocol too. A
  save that has returned is over, with its lock released; one that has to wait has only
  obtained its authority.
\<close>
theorem memory_save_follows_protocol:
  assumes call: "ms_store_session ij s (ln_heap W, ln_store W) = (res, w')"
    and start: "ln_tasks W i = Holding s" "P 0 (ln_tasks W)"
    and others: "memory_follows i P (store_lock_held ij)"
  shows "\<exists>n ph. memory_run_to i (P n) W ph w' \<and>
    (case res of Ready r \<Rightarrow> ph = Gone | Pending \<Rightarrow> \<exists>origin. ph = Prepared s origin)"
  using memory_save_runs[OF assms] .

theorem memory_save_follows_protocol_witness:
  "\<exists>w'. ms_store_session undisturbed example_session (example_heap, holding_a) = (Ready (Inr None), w') \<and>
     memory_run_to 0 (\<lambda>_. True) (lineage_start example_session example_heap holding_a) Gone w' \<and>
     ms_records (snd w') ''a'' \<noteq> None"
proof -
  obtain h' st' where call: "ms_store_session undisturbed example_session (example_heap, holding_a) =
      (Ready (Inr None), (h', st'))" "ms_records st' ''a'' \<noteq> None"
    by (simp add: ms_store_session_def persistence_attempt_def session_defs Let_def split_beta
        begin_backend_write_def begin_guarded_write_def lifecycle_write_def persistence_origin_def
        example_session_def ms_commit_def memory_state_default_def holding_a_def undisturbed_def
        guard_finish_def guard_is_destroyed_def mark_loaded_def acknowledge_revision_def into_cookie_value_def)
  have "store_lock_held undisturbed = undisturbed"
    by (simp add: store_lock_held_def undisturbed_def fun_eq_iff)
  then have env: "memory_follows 0 (\<lambda>_ _. True) (store_lock_held undisturbed)"
    using undisturbed_follows[of 0 "\<lambda>_. True"] by (simp add: not_about_def)
  show ?thesis
    using memory_save_follows_protocol[where W = "lineage_start example_session example_heap holding_a" and
        P = "\<lambda>_ _. True" and i = 0, OF _ _ _ env] call
    by (auto simp: lineage_start_def)
qed

text \<open>
  What happens at a suspension point may be a save of another task: such saves are instances of
  the condition on the environment, nested to any depth.
\<close>

lemma nested_save_performs:
  assumes "i \<noteq> j" and "memory_follows j (\<lambda>n f. f i = ph \<and> P n f) (store_lock_held ij)" and "not_about i P'"
    and after: "\<And>n f. P n f \<Longrightarrow> f j = Gone \<or> (\<exists>origin. f j = Prepared t origin) \<Longrightarrow> P' f"
    and before: "\<And>f. Q f \<Longrightarrow> f j = Holding t \<and> f i = ph \<and> P 0 f"
  shows "performs ms_write ms_erase False i Q (\<lambda>w. snd (ms_store_session ij t w)) P'"
  unfolding performs_def
proof (intro allI impI)
  fix W :: "memory_state lineage" assume Q: "Q (ln_tasks W)"
  obtain res w' where call: "ms_store_session ij t (ln_heap W, ln_store W) = (res, w')" by (metis surj_pair)
  obtain n p where run: "memory_run_to j (\<lambda>f. f i = ph \<and> P n f) W p w'"
      "case res of Ready r \<Rightarrow> p = Gone | Pending \<Rightarrow> \<exists>origin. p = Prepared t origin"
    using memory_save_runs[OF call _ _ assms(2)] before[OF Q] by auto
  then have "p = Gone \<or> (\<exists>origin. p = Prepared t origin)" by (cases res) auto
  then show "memory_run_to i P' W (ln_tasks W i) (snd (ms_store_session ij t (ln_heap W, ln_store W)))"
    using run(1) call before[OF Q] after unfolding run_to_def by auto
qed

text \<open>A deletion that has returned successfully leaves the family revoked.\<close>

definition revoked_to ::
  "(string option \<Rightarrow> string \<Rightarrow> 'r \<Rightarrow> 'b \<Rightarrow> 'b option) \<Rightarrow> (string \<Rightarrow> 'b \<Rightarrow> 'b) \<Rightarrow> bool \<Rightarrow> nat \<Rightarrow>
   ((nat \<Rightarrow> phase) \<Rightarrow> bool) \<Rightarrow> 'b lineage \<Rightarrow> heap \<times> 'b \<Rightarrow> bool" where
  "revoked_to commit erase outlives i P W w \<longleftrightarrow>
     (\<exists>W'. protocol_steps commit erase outlives W W' \<and> ln_tasks W' i = Gone \<and> P (ln_tasks W') \<and>
        (ln_heap W', ln_store W') = w \<and> ln_revoked W')"

lemma run_to_leaving:
  "run_to commit erase outlives i P W (Holding s) (h, b) \<Longrightarrow> not_about i P \<Longrightarrow>
   run_to commit erase outlives i P W (Leaving s) (session_destroy s h, b)"
  by (erule run_to_step, assumption) (use l_destroy in metis)

lemma run_to_deleting:
  "run_to commit erase outlives i P W (Leaving s) (h, b) \<Longrightarrow> not_about i P \<Longrightarrow>
   begin_delete_locked s h = (Ready (Inr dg), h') \<Longrightarrow>
   run_to commit erase outlives i P W (Deleting s dg) (h', b)"
  by (erule run_to_step, assumption) (use l_delete in metis)

lemma run_to_delete_refused:
  "run_to commit erase outlives i P W (Leaving s) (h, b) \<Longrightarrow> not_about i P \<Longrightarrow>
   begin_delete_locked s h = (Ready (Inl e), h') \<Longrightarrow>
   run_to commit erase outlives i P W Gone (h', b)"
  by (erule run_to_step, assumption) (use l_delete_refused in metis)

lemma run_to_delete_failed:
  "run_to commit erase outlives i P W (Deleting s dg) (h, b) \<Longrightarrow> not_about i P \<Longrightarrow>
   run_to commit erase outlives i P W Gone (delete_guard_drop dg h, b)"
  by (erule run_to_step, assumption) (use l_delete_failed in metis)

lemma run_to_revoked:
  assumes "run_to commit erase outlives i P W (Deleting s dg) (h, b)" and "not_about i P"
  shows "revoked_to commit erase outlives i P W (delete_guard_drop dg h, erase (dg_id dg) b)"
proof -
  obtain V where V: "protocol_steps commit erase outlives W V" "ln_tasks V i = Deleting s dg" "P (ln_tasks V)"
      "ln_heap V = h" "ln_store V = b"
    using assms(1) unfolding run_to_def by auto
  let ?V' = "(moved i Gone (delete_guard_drop dg (ln_heap V)) (erase (dg_id dg) (ln_store V)) V)\<lparr>ln_revoked := True\<rparr>"
  have "P (ln_tasks ?V')" using V(3) assms(2) by (simp add: not_about_def moved_def)
  moreover have "protocol_steps commit erase outlives W ?V'"
    using V(1) l_deleted[OF V(2)] by (rule rtranclp.rtrancl_into_rtrancl)
  ultimately show ?thesis using V(4,5) unfolding revoked_to_def by (intro exI[of _ ?V']) simp
qed

lemma begin_delete_locked_Pending: "begin_delete_locked s h = (Pending, h') \<Longrightarrow> h' = h"
  by (auto simp: begin_delete_locked_def lifecycle_delete_def split: if_splits)

lemma memory_destroy_follows_protocol:
  assumes call: "ms_destroy_session ij s (ln_heap W, ln_store W) = (res, w')"
    and start: "ln_tasks W i = Holding s" "P 0 (ln_tasks W)" and others: "memory_follows i P ij"
  shows "\<exists>n. case res of Pending \<Rightarrow> memory_run_to i (P n) W (Leaving s) w'
    | Ready (Inl e) \<Rightarrow> memory_run_to i (P n) W Gone w'
    | Ready (Inr _) \<Rightarrow> revoked_to ms_write ms_erase False i (P n) W w'"
proof -
  note P = follows_protocolD(1)[OF others]
  have "memory_run_to i (P 0) W (Holding s) (ln_heap W, ln_store W)"
    using run_to_start[where P = "P 0" and W = W and i = i] start by simp
  then have "memory_run_to i (P 0) W (Leaving s) (session_destroy s (ln_heap W), ln_store W)"
    by (rule run_to_leaving[OF _ P])
  moreover obtain h1 st1 where w1: "ij 0 (session_destroy s (ln_heap W), ln_store W) = (h1, st1)"
    by fastforce
  ultimately have leaving: "memory_run_to i (P 1) W (Leaving s) (h1, st1)"
    using run_to_point[OF _ others, of 0] by simp
  obtain rd h2 where bd: "begin_delete_locked s h1 = (rd, h2)" by fastforce
  consider (poll) "rd = Pending" | (no) e where "rd = Ready (Inl e)" | (yes) dg where "rd = Ready (Inr dg)"
    by (cases rd; cases "case rd of Ready x \<Rightarrow> x") (auto split: sum.splits)
  then show ?thesis
  proof cases
    case poll
    then have "res = Pending" "w' = (h1, st1)"
      using call bd w1 begin_delete_locked_Pending[of s h1 h2] by (auto simp: ms_destroy_session_def)
    with leaving show ?thesis by auto
  next
    case (no e)
    then have "res = Ready (Inl e)" "w' = (h2, st1)"
      using call bd w1 by (auto simp: ms_destroy_session_def)
    with run_to_delete_refused[OF leaving P bd[unfolded no]] show ?thesis by auto
  next
    case (yes dg)
    obtain h3 st3 where w3: "ij 1 (h2, st1) = (h3, st3)" by fastforce
    have "memory_run_to i (P 2) W (Deleting s dg) (h3, st3)"
      using run_to_point[OF run_to_deleting[OF leaving P bd[unfolded yes]] others w3] by (simp add: numeral_2_eq_2)
    from run_to_revoked[OF this P]
    have "revoked_to ms_write ms_erase False i (P 2) W (delete_guard_drop dg h3, ms_erase (dg_id dg) st3)" .
    moreover have "res = Ready (Inr ())" "w' = (delete_guard_drop dg h3, ms_erase (dg_id dg) st3)"
      using call bd w1 w3[simplified] yes by (auto simp: ms_destroy_session_def Let_def ms_erase_def split_beta)
    ultimately show ?thesis by auto
  qed
qed

text \<open>
  C18: once \<open>destroy_session\<close> of the memory store has returned successfully, no call of its
  \<open>store_session\<close> by any task of the clone family adds a record any more, at whatever point of
  whatever execution it begins, however it ends, and whatever happens while it is suspended.
\<close>
theorem memory_destroy_stops_saves:
  assumes "session_allocated h0 s0" and "protocol_steps ms_write ms_erase False (lineage_start s0 h0 st0) W"
    and call: "ms_destroy_session ij s (ln_heap W, ln_store W) = (Ready (Inr ()), (h1, st1))"
    and "ln_tasks W i = Holding s" and "P 0 (ln_tasks W)" and "memory_follows i P ij"
  shows "\<exists>W1. protocol_steps ms_write ms_erase False W W1 \<and> (ln_heap W1, ln_store W1) = (h1, st1) \<and>
    (\<exists>n. P n (ln_tasks W1)) \<and>
    (\<forall>W2 j t Q ij2 res w3. protocol_steps ms_write ms_erase False W1 W2 \<and> ln_tasks W2 j = Holding t \<and>
       Q 0 (ln_tasks W2) \<and> memory_follows j Q (store_lock_held ij2) \<and>
       ms_store_session ij2 t (ln_heap W2, ln_store W2) = (res, w3) \<longrightarrow>
       dom (ms_records (snd w3)) \<subseteq> dom (ms_records st1))"
proof -
  obtain n where "revoked_to ms_write ms_erase False i (P n) W (h1, st1)"
    using memory_destroy_follows_protocol[OF call assms(4-6)] by auto
  then obtain W1 where W1: "protocol_steps ms_write ms_erase False W W1" "ln_heap W1 = h1" "ln_store W1 = st1"
      "ln_revoked W1" "P n (ln_tasks W1)"
    unfolding revoked_to_def by auto
  have reached: "protocol_steps ms_write ms_erase False (lineage_start s0 h0 st0) W1"
    using assms(2) W1(1) by (rule rtranclp_trans)
  have "dom (ms_records (snd w3)) \<subseteq> dom (ms_records st1)"
    if later: "protocol_steps ms_write ms_erase False W1 W2" and save: "ln_tasks W2 j = Holding t" "Q 0 (ln_tasks W2)"
      "memory_follows j Q (store_lock_held ij2)" "ms_store_session ij2 t (ln_heap W2, ln_store W2) = (res, w3)"
    for W2 j t Q ij2 res w3
  proof -
    obtain V where V: "protocol_steps ms_write ms_erase False W2 V" "ln_store V = snd w3"
      using memory_save_runs[OF save(4,1,2,3)] unfolding run_to_def by (metis snd_conv)
    have "ms_ids (ln_store V) \<subseteq> ms_ids (ln_store W1)"
      by (rule memory.deletion_final[OF assms(1) reached W1(4) rtranclp_trans[OF later V(1)]])
    then show ?thesis by (simp add: ms_ids_def V(2) W1(3))
  qed
  then show ?thesis using W1(1-3,5) by (intro exI[of _ W1] conjI) blast+
qed

text \<open>A clone of the example session waits in task 1 while task 0 destroys it.\<close>

definition clone_waiting :: "'b \<Rightarrow> 'b lineage" where
  "clone_waiting b = moved 1 (Holding (session_clone example_session)) example_heap b
     (lineage_start example_session example_heap b)"

lemma clone_waiting_reached:
  fixes b :: 'b
  shows "protocol_steps commit erase outlives (lineage_start example_session example_heap b) (clone_waiting b)"
proof -
  let ?W = "lineage_start example_session example_heap b"
  have "lineage_step commit erase outlives ?W
      (moved 1 (Holding (session_clone example_session)) (ln_heap ?W) (ln_store ?W) ?W)"
    by (rule l_clone[of _ 0]) (simp_all add: lineage_start_def)
  then show ?thesis by (simp add: clone_waiting_def lineage_start_def r_into_rtranclp)
qed

lemma clone_waiting_sel [simp]:
  "ln_heap (clone_waiting b) = example_heap" "ln_store (clone_waiting b) = b"
  "ln_tasks (clone_waiting b) 0 = Holding example_session"
  "ln_tasks (clone_waiting b) (Suc 0) = Holding (session_clone example_session)"
  by (simp_all add: clone_waiting_def lineage_start_def)

theorem memory_destroy_stops_saves_witness:
  "\<exists>h1 st1. ms_destroy_session undisturbed example_session (example_heap, holding_a) = (Ready (Inr ()), (h1, st1)) \<and>
     dom (ms_records (snd (snd (ms_store_session undisturbed (session_clone example_session) (h1, st1)))))
       \<subseteq> dom (ms_records st1) \<and> dom (ms_records st1) = {}"
proof -
  let ?P = "\<lambda>f :: nat \<Rightarrow> phase. f 1 = Holding (session_clone example_session)"
  obtain h1 st1 where call: "ms_destroy_session undisturbed example_session (example_heap, holding_a) =
      (Ready (Inr ()), (h1, st1))" "dom (ms_records st1) = {}"
    by (simp add: ms_destroy_session_def Let_def begin_delete_locked_def lifecycle_delete_def session_defs
        deletion_target_def persistence_origin_def example_session_def holding_a_def memory_state_default_def)
  have env: "memory_follows 0 (\<lambda>_. ?P) undisturbed" by (rule undisturbed_follows) (simp add: not_about_def)
  have at: "ln_tasks (clone_waiting holding_a) 0 = Holding example_session" "?P (ln_tasks (clone_waiting holding_a))"
    and call': "ms_destroy_session undisturbed example_session (ln_heap (clone_waiting holding_a),
      ln_store (clone_waiting holding_a)) = (Ready (Inr ()), (h1, st1))"
    using call(1) by simp_all
  obtain W1 where W1: "(ln_heap W1, ln_store W1) = (h1, st1)" "?P (ln_tasks W1)"
    and saves: "\<forall>W2 j t Q ij2 res w3. protocol_steps ms_write ms_erase False W1 W2 \<and> ln_tasks W2 j = Holding t \<and>
       Q (0::nat) (ln_tasks W2) \<and> memory_follows j Q (store_lock_held ij2) \<and>
       ms_store_session ij2 t (ln_heap W2, ln_store W2) = (res, w3) \<longrightarrow>
       dom (ms_records (snd w3)) \<subseteq> dom (ms_records st1)"
    using memory_destroy_stops_saves[OF example_allocated clone_waiting_reached call' at env]
    by (elim exE conjE) (rule that)
  have "store_lock_held undisturbed = undisturbed"
    by (simp add: store_lock_held_def undisturbed_def fun_eq_iff)
  then have "memory_follows 1 (\<lambda>_ _. True) (store_lock_held undisturbed)"
    using undisturbed_follows[of 1 "\<lambda>_. True"] by (simp add: not_about_def)
  moreover obtain res w3 where "ms_store_session undisturbed (session_clone example_session) (h1, st1) = (res, w3)"
    by (metis surj_pair)
  ultimately have "dom (ms_records (snd (snd (ms_store_session undisturbed (session_clone example_session) (h1, st1)))))
       \<subseteq> dom (ms_records st1)"
    using W1 saves[rule_format, of W1 1 "session_clone example_session" "\<lambda>_ _. True" undisturbed res w3] by simp
  with call show ?thesis by blast
qed

end
