(* ===== verification/Mongo_Store.thy ===== *)
theory Mongo_Store
  imports Remote_Facts
begin

text \<open>
  The MongoDB store (\<open>src/mongodb_store.rs\<close>). The driver's operations on a collection are a
  record of functions with their documented behaviour as laws; the expiry dates, the
  documents, the requests of every handler and their order are the crate's.
\<close>

subsection \<open>Documents\<close>

definition DEFAULT_COLLECTION :: string where
  "DEFAULT_COLLECTION = ''saysion_sessions''"

text \<open>A \<open>BsonDateTime\<close> is a signed number of milliseconds.\<close>

definition expiry_datetime :: "datetime \<Rightarrow> i64" where
  "expiry_datetime expiry =
     unix_timestamp expiry * 1000 + of_nat (div_ceil (nanosecond expiry) 1000000)"

record session_doc =
  doc_id :: string
  doc_expires_at :: "i64 option"
  doc_session :: string

subsection \<open>The server\<close>

text \<open>Database and collection.\<close>

type_synonym namespace = "string \<times> string"

text \<open>
  \<open>find_one\<close> and \<open>delete_one\<close> select by \<open>_id\<close>; \<open>insert_one\<close> says whether the server accepted
  the document, \<open>replace_one\<close> how many documents it matched, the deletions how many they
  removed; an index has its keys and the lifetime after the indexed date.
\<close>

record 'r mongo_server =
  md_find_one :: "namespace \<Rightarrow> string \<Rightarrow> 'r \<Rightarrow> session_doc option"
  md_insert_one :: "namespace \<Rightarrow> session_doc \<Rightarrow> 'r \<Rightarrow> bool \<times> 'r"
  md_replace_one :: "namespace \<Rightarrow> string \<Rightarrow> session_doc \<Rightarrow> 'r \<Rightarrow> nat \<times> 'r"
  md_delete_one :: "namespace \<Rightarrow> string \<Rightarrow> 'r \<Rightarrow> nat \<times> 'r"
  md_delete_many :: "namespace \<Rightarrow> 'r \<Rightarrow> nat \<times> 'r"
  md_count_documents :: "namespace \<Rightarrow> 'r \<Rightarrow> nat"
  md_create_index :: "namespace \<Rightarrow> (string \<times> int) list \<Rightarrow> duration option \<Rightarrow> 'r \<Rightarrow> 'r"

text \<open>\<open>view\<close> gives the documents of every collection of a server state.\<close>

type_synonym 'r mongo_view = "'r \<Rightarrow> namespace \<Rightarrow> string \<rightharpoonup> session_doc"

definition mongo_laws :: "'r mongo_server \<Rightarrow> 'r mongo_view \<Rightarrow> bool" where
  "mongo_laws sv view \<longleftrightarrow>
     (\<forall>ns i r. md_find_one sv ns i r = view r ns i) \<and>
     (\<forall>ns d r. view r ns (doc_id d) = None \<longrightarrow> fst (md_insert_one sv ns d r) \<and>
        view (snd (md_insert_one sv ns d r)) = (view r)(ns := (view r ns)(doc_id d \<mapsto> d))) \<and>
     (\<forall>ns d r. view r ns (doc_id d) \<noteq> None \<longrightarrow> md_insert_one sv ns d r = (False, r)) \<and>
     (\<forall>ns d r. view r ns (doc_id d) \<noteq> None \<longrightarrow> fst (md_replace_one sv ns (doc_id d) d r) = 1 \<and>
        view (snd (md_replace_one sv ns (doc_id d) d r)) = (view r)(ns := (view r ns)(doc_id d \<mapsto> d))) \<and>
     (\<forall>ns i d r. view r ns i = None \<longrightarrow> md_replace_one sv ns i d r = (0, r)) \<and>
     (\<forall>ns i r. fst (md_delete_one sv ns i r) = (if view r ns i = None then 0 else 1) \<and>
        view (snd (md_delete_one sv ns i r)) = (view r)(ns := (view r ns)(i := None))) \<and>
     (\<forall>ns r. view (snd (md_delete_many sv ns r)) = (view r)(ns := Map.empty)) \<and>
     (\<forall>ns r. md_count_documents sv ns r = card (dom (view r ns))) \<and>
     (\<forall>ns keys lifetime r. view (md_create_index sv ns keys lifetime r) = view r)"

subsection \<open>The store\<close>

record 'r mongo_store =
  mg_client :: "'r mongo_server"
  mg_db :: string
  mg_coll_name :: string

definition mongo_new :: "'r mongo_server \<Rightarrow> string \<Rightarrow> 'r mongo_store" where
  "mongo_new client db = \<lparr>mg_client = client, mg_db = db, mg_coll_name = DEFAULT_COLLECTION\<rparr>"

definition with_collection :: "string \<Rightarrow> 'r mongo_store \<Rightarrow> 'r mongo_store" where
  "with_collection coll_name st = st\<lparr>mg_coll_name := coll_name\<rparr>"

definition mongo_coll :: "'r mongo_store \<Rightarrow> namespace" where
  "mongo_coll st = (mg_db st, mg_coll_name st)"

definition mongo_initialize ::
  "'r mongo_store \<Rightarrow> 'r remote interleaving \<Rightarrow> network \<Rightarrow> 'r remote \<Rightarrow> (error + unit) \<times> 'r remote" where
  "mongo_initialize st ij net =
     remote_call ij net 0
       (\<lambda>r. ((), md_create_index (mg_client st) (mongo_coll st) [(''expires_at'', 1)] (Some 0) r))"

definition mongo_count ::
  "'r mongo_store \<Rightarrow> 'r remote interleaving \<Rightarrow> network \<Rightarrow> 'r remote \<Rightarrow> (error + nat) \<times> 'r remote" where
  "mongo_count st ij net =
     remote_call ij net 0 (\<lambda>r. (md_count_documents (mg_client st) (mongo_coll st) r, r))"

subsection \<open>Saving\<close>

text \<open>A document that the server rejects is an error of the driver.\<close>

definition mongo_insert ::
  "'r mongo_store \<Rightarrow> 'r remote interleaving \<Rightarrow> network \<Rightarrow> nat \<Rightarrow> session_doc \<Rightarrow> 'r remote \<Rightarrow>
   write_outcome \<times> 'r remote" where
  "mongo_insert st ij net k doc_value w =
     (case remote_call ij net k (md_insert_one (mg_client st) (mongo_coll st) doc_value) w of
        (Inl e, w1) \<Rightarrow> (Failed e, w1)
      | (Inr accepted, w1) \<Rightarrow> if accepted then (Stored, w1) else (Failed BackendFailure, w1))"

definition mongo_delete ::
  "'r mongo_store \<Rightarrow> 'r remote interleaving \<Rightarrow> network \<Rightarrow> nat \<Rightarrow> string \<Rightarrow> 'r remote \<Rightarrow>
   (error + nat) \<times> 'r remote" where
  "mongo_delete st ij net k ident =
     remote_call ij net k (md_delete_one (mg_client st) (mongo_coll st) ident)"

definition session_doc_of :: "session \<Rightarrow> string \<Rightarrow> session_doc" where
  "session_doc_of snap json =
     \<lparr>doc_id = s_id snap, doc_expires_at = map_option expiry_datetime (s_expiry snap), doc_session = json\<rparr>"

definition mongo_put ::
  "'r mongo_store \<Rightarrow> 'r remote interleaving \<Rightarrow> network \<Rightarrow> string option \<Rightarrow> session \<Rightarrow> string \<Rightarrow>
   'r remote \<Rightarrow> write_outcome \<times> 'r remote" where
  "mongo_put st ij net origin snap json w =
     (let ident = s_id snap; doc_value = session_doc_of snap json in
      case rotation_source origin ident of
        Some old_id \<Rightarrow>
          (case mongo_delete st ij net 4 old_id w of
             (Inl e, w1) \<Rightarrow> (Failed e, w1)
           | (Inr deleted_count, w1) \<Rightarrow>
               if deleted_count = 0 then (Failed SessionConflict, w1)
               else mongo_insert st ij net 5 doc_value w1)
      | None \<Rightarrow>
          if origin \<noteq> None then
            (case remote_call ij net 4
                    (md_replace_one (mg_client st) (mongo_coll st) ident doc_value) w of
               (Inl e, w1) \<Rightarrow> (Failed e, w1)
             | (Inr matched_count, w1) \<Rightarrow>
                 if matched_count \<noteq> 1 then (Failed SessionConflict, w1) else (Stored, w1))
          else mongo_insert st ij net 4 doc_value w)"

text \<open>The compensation; the number of removed documents is not looked at.\<close>

definition mongo_undo ::
  "'r mongo_store \<Rightarrow> 'r remote interleaving \<Rightarrow> network \<Rightarrow> nat \<Rightarrow> string \<Rightarrow> 'r remote \<Rightarrow>
   (error + unit) \<times> 'r remote" where
  "mongo_undo st ij net k ident w =
     (case mongo_delete st ij net k ident w of
        (Inl e, w1) \<Rightarrow> (Inl e, w1)
      | (Inr _, w1) \<Rightarrow> (Inr (), w1))"

definition mongo_store_session ::
  "codec \<Rightarrow> 'r mongo_store \<Rightarrow> 'r remote interleaving \<Rightarrow> network \<Rightarrow> session \<Rightarrow> 'r remote \<Rightarrow>
   (error + string option) poll \<times> 'r remote" where
  "mongo_store_session c st ij net =
     remote_store_session c True (mongo_put st ij net) (mongo_undo st ij net 6) ij"

subsection \<open>Loading and deleting\<close>

definition mongo_lookup ::
  "'r mongo_store \<Rightarrow> 'r remote interleaving \<Rightarrow> network \<Rightarrow> string \<Rightarrow> 'r remote \<Rightarrow>
   (error + string option) \<times> 'r remote" where
  "mongo_lookup st ij net ident =
     remote_call ij net 0
       (\<lambda>r. (map_option doc_session (md_find_one (mg_client st) (mongo_coll st) ident r), r))"

definition mongo_load_session ::
  "primitives \<Rightarrow> codec \<Rightarrow> 'r mongo_store \<Rightarrow> 'r remote interleaving \<Rightarrow> network \<Rightarrow> datetime \<Rightarrow> string \<Rightarrow>
   'r remote \<Rightarrow> (error + session option) \<times> 'r remote" where
  "mongo_load_session p c st ij net now cookie =
     remote_load_session p c (mongo_lookup st ij net) now cookie"

definition mongo_destroy_session ::
  "'r mongo_store \<Rightarrow> 'r remote interleaving \<Rightarrow> network \<Rightarrow> session \<Rightarrow> 'r remote \<Rightarrow>
   (error + unit) poll \<times> 'r remote" where
  "mongo_destroy_session st ij net = remote_destroy_session (mongo_undo st ij net 1) ij"

definition mongo_clear_store ::
  "'r mongo_store \<Rightarrow> 'r remote interleaving \<Rightarrow> network \<Rightarrow> 'r remote \<Rightarrow> (error + unit) \<times> 'r remote" where
  "mongo_clear_store st ij net w =
     (case remote_call ij net 0 (md_delete_many (mg_client st) (mongo_coll st)) w of
        (Inl e, w1) \<Rightarrow> (Inl e, w1)
      | (Inr _, w1) \<Rightarrow> (Inr (), w1))"

end
