(* ===== verification/Mongo_Facts.thy ===== *)
theory Mongo_Facts
  imports Mongo_Store
begin

text \<open>
  Correctness of the MongoDB store: expiry dates never let the server delete a live
  session, and a rotation without transactions fails closed.
\<close>

subsection \<open>Expiry dates\<close>

text \<open>
  What the server may remove under the index of \<open>initialize\<close>: the documents whose date has
  been reached.
\<close>

definition ttl_monitor_may_delete :: "datetime \<Rightarrow> session_doc \<Rightarrow> bool" where
  "ttl_monitor_may_delete now d =
     (case doc_expires_at d of None \<Rightarrow> False | Some ms \<Rightarrow> sint ms * 1000000 \<le> now)"

lemma expiry_millis:
  assumes "datetime_min \<le> e" "e \<le> datetime_max"
  shows "e \<le> sint (expiry_datetime e) * 1000000" "sint (expiry_datetime e) * 1000000 < e + 1000000"
proof -
  define s n where "s = e div nanos_per_sec" and "n = e mod nanos_per_sec"
  have e: "e = s * nanos_per_sec + n" and n: "0 \<le> n" "n < nanos_per_sec"
    by (simp_all add: s_def n_def)
  define k where "k = div_ceil (nat n) 1000000"
  have k: "n \<le> int k * 1000000" "int k * 1000000 < n + 1000000" "k \<le> 1000"
    using div_ceil_bounds[of 1000000 "nat n"] n by (simp_all add: k_def)
  have s: "- 377705116800 \<le> s" "s \<le> 253402300799"
    using assms e n by (simp_all add: datetime_min_def datetime_max_def)
  have word: "expiry_datetime e = word_of_int (s * 1000 + int k)"
    by (simp add: expiry_datetime_def unix_timestamp_def nanosecond_def s_def n_def k_def)
  have "sint (expiry_datetime e) = s * 1000 + int k"
    unfolding word using s k(3) by (intro sint_i64) simp_all
  then show "e \<le> sint (expiry_datetime e) * 1000000" "sint (expiry_datetime e) * 1000000 < e + 1000000"
    using e k by simp_all
qed

text \<open>
  Over the whole range of dates the stored date is computed without overflow and is
  the first millisecond that is not before the expiry, before the epoch as well, so that
  the server's monitor only removes documents of sessions that are expired at every later
  instant.
\<close>
theorem mongo_expiry_rounds_up:
  assumes "s_expiry snap = Some e" and "datetime_min \<le> e" and "e \<le> datetime_max"
  shows "\<exists>ms. doc_expires_at (session_doc_of snap json) = Some ms \<and>
    e \<le> sint ms * 1000000 \<and> sint ms * 1000000 < e + 1000000 \<and>
    (\<forall>now. \<not> ttl_monitor_may_delete now (session_doc_of snap json) \<or> is_expired (now + 1) snap)"
  using expiry_millis[OF assms(2,3)]
  by (auto simp: session_doc_of_def ttl_monitor_may_delete_def is_expired_def assms(1))

theorem mongo_expiry_rounds_up_witness:
  "map (\<lambda>e. sint (expiry_datetime e)) [0, 1, 1000000, 1000001, 999999999, - 1, - 1000001] = [0, 1, 1, 2, 1000, 0, - 1] \<and>
   (\<exists>ms. doc_expires_at (session_doc_of (example_session\<lparr>s_expiry := Some (- 1)\<rparr>) []) = Some ms \<and> - 1 \<le> sint ms * 1000000)"
proof
  show "map (\<lambda>e. sint (expiry_datetime e)) [0, 1, 1000000, 1000001, 999999999, - 1, - 1000001] = [0, 1, 1, 2, 1000, 0, - 1]"
    by (simp add: expiry_datetime_def unix_timestamp_def nanosecond_def div_ceil_def)
  show "\<exists>ms. doc_expires_at (session_doc_of (example_session\<lparr>s_expiry := Some (- 1)\<rparr>) []) = Some ms \<and> - 1 \<le> sint ms * 1000000"
    using mongo_expiry_rounds_up[of "example_session\<lparr>s_expiry := Some (- 1)\<rparr>" "- 1" "[]"]
    by (auto simp: datetime_min_def datetime_max_def)
qed

subsection \<open>Documents\<close>

lemma mongo_lawsD:
  assumes "mongo_laws sv view"
  shows "md_find_one sv ns i r = view r ns i"
    "view r ns (doc_id d) = None \<Longrightarrow> fst (md_insert_one sv ns d r) \<and>
        view (snd (md_insert_one sv ns d r)) = (view r)(ns := (view r ns)(doc_id d \<mapsto> d))"
    "view r ns (doc_id d) \<noteq> None \<Longrightarrow> md_insert_one sv ns d r = (False, r)"
    "view r ns (doc_id d) \<noteq> None \<Longrightarrow> fst (md_replace_one sv ns (doc_id d) d r) = 1 \<and>
        view (snd (md_replace_one sv ns (doc_id d) d r)) = (view r)(ns := (view r ns)(doc_id d \<mapsto> d))"
    "view r ns i = None \<Longrightarrow> md_replace_one sv ns i d r = (0, r)"
    "fst (md_delete_one sv ns i r) = (if view r ns i = None then 0 else 1)"
    "view (snd (md_delete_one sv ns i r)) = (view r)(ns := (view r ns)(i := None))"
    "view (snd (md_delete_many sv ns r)) = (view r)(ns := Map.empty)"
    "md_count_documents sv ns r = card (dom (view r ns))"
  using assms unfolding mongo_laws_def by metis+

text \<open>A store with the abstraction of its server and its surroundings.\<close>

record 'r mongo_client =
  mc_store :: "'r mongo_store"
  mc_view :: "'r mongo_view"
  mc_others :: "'r remote interleaving"
  mc_net :: network

definition mongo_docs :: "'r mongo_client \<Rightarrow> 'r \<Rightarrow> string \<rightharpoonup> session_doc" where
  "mongo_docs cl r = mc_view cl r (mongo_coll (mc_store cl))"

definition mongo_lawful :: "'r mongo_client \<Rightarrow> bool" where
  "mongo_lawful cl \<longleftrightarrow> mongo_laws (mg_client (mc_store cl)) (mc_view cl)"

text \<open>Nobody else writes the document.\<close>

definition mongo_sealed :: "'r mongo_client \<Rightarrow> string \<Rightarrow> bool" where
  "mongo_sealed cl t \<longleftrightarrow> mongo_lawful cl \<and>
     (\<forall>n w. mongo_docs cl (snd w) t = None \<longrightarrow> mongo_docs cl (snd (mc_others cl n w)) t = None)"

lemma mongo_sealedD:
  "mongo_sealed cl t \<Longrightarrow> mongo_docs cl (snd w) t = None \<Longrightarrow> mongo_docs cl (snd (mc_others cl n w)) t = None"
  unfolding mongo_sealed_def by blast

abbreviation mongo_putting ::
  "'r mongo_client \<Rightarrow> string option \<Rightarrow> session \<Rightarrow> string \<Rightarrow> 'r remote \<Rightarrow> write_outcome \<times> 'r remote" where
  "mongo_putting cl \<equiv> mongo_put (mc_store cl) (mc_others cl) (mc_net cl)"

abbreviation mongo_undoing ::
  "'r mongo_client \<Rightarrow> string \<Rightarrow> 'r remote \<Rightarrow> (error + unit) \<times> 'r remote" where
  "mongo_undoing cl \<equiv> mongo_undo (mc_store cl) (mc_others cl) (mc_net cl) 6"

text \<open>Requests that remove a document, whether or not their answer arrives.\<close>

lemma mongo_delete_result:
  assumes "mongo_sealed cl t" and "mongo_docs cl (snd w) t = None"
    and "mongo_delete (mc_store cl) (mc_others cl) (mc_net cl) k i w = (res, w')"
  shows "mongo_docs cl (snd w') t = None"
  using remote_call_state[OF assms(3)[unfolded mongo_delete_def]] mongo_sealedD[OF assms(1,2), of k]
    mongo_lawsD(7)[OF assms(1)[unfolded mongo_sealed_def mongo_lawful_def, THEN conjunct1],
      of "mongo_coll (mc_store cl)" i "snd (mc_others cl k w)"]
  by (auto simp: mongo_docs_def)

lemma mongo_delete_done:
  assumes "mongo_lawful cl"
    and "mongo_delete (mc_store cl) (mc_others cl) (mc_net cl) k i w = (Inr n, w')"
  shows "mongo_docs cl (snd w') i = None"
  using assms mongo_lawsD(7)[OF assms(1)[unfolded mongo_lawful_def]]
  by (auto simp: mongo_delete_def remote_call_Inr mongo_docs_def)

lemma mongo_undo_result:
  "mongo_sealed cl t \<Longrightarrow> mongo_docs cl (snd w) t = None \<Longrightarrow> mongo_undoing cl i w = (res, w') \<Longrightarrow>
   mongo_docs cl (snd w') t = None"
  by (auto simp: mongo_undo_def split: prod.splits sum.splits dest: mongo_delete_result)

text \<open>An insertion adds no document but its own.\<close>

lemma mongo_insert_result:
  assumes "mongo_sealed cl t" and "mongo_docs cl (snd w) t = None" and "doc_id d \<noteq> t"
    and "mongo_insert (mc_store cl) (mc_others cl) (mc_net cl) k d w = (outcome, w')"
  shows "mongo_docs cl (snd w') t = None"
proof -
  have laws: "mongo_laws (mg_client (mc_store cl)) (mc_view cl)"
    using assms(1) by (simp add: mongo_sealed_def mongo_lawful_def)
  define r1 where "r1 = snd (mc_others cl k w)"
  have r1: "mongo_docs cl r1 t = None"
    using mongo_sealedD[OF assms(1,2)] by (simp add: r1_def)
  obtain res where call: "remote_call (mc_others cl) (mc_net cl) k
      (md_insert_one (mg_client (mc_store cl)) (mongo_coll (mc_store cl)) d) w = (res, w')"
    using assms(4) by (auto simp: mongo_insert_def split: prod.splits sum.splits if_splits)
  have "mongo_docs cl (snd (md_insert_one (mg_client (mc_store cl)) (mongo_coll (mc_store cl)) d r1)) t = None"
    using r1 assms(3) mongo_lawsD(2,3)[OF laws, of r1 "mongo_coll (mc_store cl)" d]
    by (cases "mc_view cl r1 (mongo_coll (mc_store cl)) (doc_id d) = None") (simp_all add: mongo_docs_def)
  then show ?thesis
    using remote_call_state[OF call] r1 by (auto simp: r1_def)
qed

lemma mongo_insert_done:
  assumes "mongo_lawful cl"
    and "mongo_insert (mc_store cl) (mc_others cl) (mc_net cl) k d w = (Stored, w')"
  shows "mongo_docs cl (snd w') (doc_id d) = Some d"
proof -
  define r1 where "r1 = snd (mc_others cl k w)"
  have "fst (md_insert_one (mg_client (mc_store cl)) (mongo_coll (mc_store cl)) d r1)"
      "snd w' = snd (md_insert_one (mg_client (mc_store cl)) (mongo_coll (mc_store cl)) d r1)"
    using assms(2) by (auto simp: mongo_insert_def remote_call_Inr r1_def split: prod.splits sum.splits if_splits)
  then show ?thesis
    using mongo_lawsD(2,3)[OF assms(1)[unfolded mongo_lawful_def], of r1 "mongo_coll (mc_store cl)" d]
    by (cases "mc_view cl r1 (mongo_coll (mc_store cl)) (doc_id d) = None") (simp_all add: mongo_docs_def)
qed

lemma mongo_put_cases:
  assumes "mongo_put st ij net origin snap json w = (outcome, w')"
  obtains (refused) old_id res where "rotation_source origin (s_id snap) = Some old_id"
      "mongo_delete st ij net 4 old_id w = (res, w')"
      "outcome = Failed (case res of Inl e \<Rightarrow> e | Inr _ \<Rightarrow> SessionConflict)"
      "(\<exists>e. res = Inl e) \<or> res = Inr 0"
  | (rotated) old_id n w1 where "rotation_source origin (s_id snap) = Some old_id"
      "mongo_delete st ij net 4 old_id w = (Inr n, w1)" "n \<noteq> 0"
      "mongo_insert st ij net 5 (session_doc_of snap json) w1 = (outcome, w')"
  | (replaced) res where "origin = Some (s_id snap)"
      "remote_call ij net 4 (md_replace_one (mg_client st) (mongo_coll st) (s_id snap)
         (session_doc_of snap json)) w = (res, w')"
      "outcome = (case res of Inl e \<Rightarrow> Failed e | Inr n \<Rightarrow> if n \<noteq> 1 then Failed SessionConflict else Stored)"
  | (inserted) "origin = None" "mongo_insert st ij net 4 (session_doc_of snap json) w = (outcome, w')"
proof (cases "rotation_source origin (s_id snap)")
  case None
  then have none: "origin = None \<or> origin = Some (s_id snap)"
    by (auto simp: rotation_source_def split: option.splits if_splits)
  show ?thesis
  proof (cases "origin = None")
    case True
    then show ?thesis using assms None inserted by (simp add: mongo_put_def Let_def)
  next
    case False
    obtain res w1 where call: "remote_call ij net 4 (md_replace_one (mg_client st) (mongo_coll st)
        (s_id snap) (session_doc_of snap json)) w = (res, w1)"
      by (rule prod.exhaust)
    have "w1 = w' \<and> outcome = (case res of Inl e \<Rightarrow> Failed e
        | Inr n \<Rightarrow> if n \<noteq> 1 then Failed SessionConflict else Stored)"
      using assms None False call by (auto simp: mongo_put_def Let_def split: sum.splits if_splits)
    then show ?thesis using False none call by (intro replaced) auto
  qed
next
  case (Some old_id)
  obtain res w1 where del: "mongo_delete st ij net 4 old_id w = (res, w1)"
    by (rule prod.exhaust)
  show ?thesis
  proof (cases "\<exists>n. res = Inr n \<and> n \<noteq> 0")
    case True
    then obtain n where n: "res = Inr n" "n \<noteq> 0" by blast
    then show ?thesis
      using assms Some del by (intro rotated[of old_id n w1]) (auto simp: mongo_put_def Let_def)
  next
    case False
    then have "(\<exists>e. res = Inl e) \<or> res = Inr 0"
      by (cases res) auto
    then show ?thesis
      using assms Some del by (intro refused[of old_id res]) (auto simp: mongo_put_def Let_def)
  qed
qed

lemma mongo_put_not_revoked: "mongo_put st ij net origin snap json w \<noteq> (Revoked, w')"
proof
  assume "mongo_put st ij net origin snap json w = (Revoked, w')"
  then show False
    by (cases rule: mongo_put_cases)
       (auto simp: mongo_insert_def split: prod.splits sum.splits if_splits)
qed

subsection \<open>A concrete server\<close>

type_synonym mongo_db = "((namespace \<times> string) \<times> session_doc) list"

definition mdb_remove :: "(namespace \<times> string \<Rightarrow> bool) \<Rightarrow> mongo_db \<Rightarrow> mongo_db" where
  "mdb_remove p db = filter (\<lambda>e. \<not> p (fst e)) db"

lemma map_of_mdb_remove [simp]: "map_of (mdb_remove p db) k = (if p k then None else map_of db k)"
  by (induction db) (auto simp: mdb_remove_def)

definition reference_mongo :: "mongo_db mongo_server" where
  "reference_mongo =
     \<lparr>md_find_one = (\<lambda>ns i db. map_of db (ns, i)),
      md_insert_one = (\<lambda>ns d db. if map_of db (ns, doc_id d) = None
          then (True, ((ns, doc_id d), d) # db) else (False, db)),
      md_replace_one = (\<lambda>ns i d db. if map_of db (ns, i) = None then (0, db)
          else (1, ((ns, i), d) # mdb_remove ((=) (ns, i)) db)),
      md_delete_one = (\<lambda>ns i db. (if map_of db (ns, i) = None then 0 else 1, mdb_remove ((=) (ns, i)) db)),
      md_delete_many = (\<lambda>ns db. (length (filter (\<lambda>e. fst (fst e) = ns) db), mdb_remove (\<lambda>k. fst k = ns) db)),
      md_count_documents = (\<lambda>ns db. length (remdups (map (snd \<circ> fst) (filter (\<lambda>e. fst (fst e) = ns) db)))),
      md_create_index = (\<lambda>ns keys lifetime db. db)\<rparr>"

definition reference_mongo_view :: "mongo_db mongo_view" where
  "reference_mongo_view db ns i = map_of db (ns, i)"

lemma reference_count:
  "length (remdups (map (snd \<circ> fst) (filter (\<lambda>e. fst (fst e) = ns) db))) =
   card (dom (reference_mongo_view db ns))"
proof -
  have "i \<in> dom (reference_mongo_view db ns) \<longleftrightarrow>
      i \<in> set (map (snd \<circ> fst) (filter (\<lambda>e. fst (fst e) = ns) db))" for i
    by (force simp: reference_mongo_view_def domIff map_of_eq_None_iff)
  then have "dom (reference_mongo_view db ns) =
      set (map (snd \<circ> fst) (filter (\<lambda>e. fst (fst e) = ns) db))"
    by blast
  then show ?thesis by (simp add: length_remdups_card_conv)
qed

lemma reference_mongo_laws: "mongo_laws reference_mongo reference_mongo_view"
  unfolding mongo_laws_def
proof (intro conjI allI impI)
  show "md_count_documents reference_mongo ns r = card (dom (reference_mongo_view r ns))" for ns r
    by (simp only: reference_mongo_def mongo_server.select_convs reference_count)
qed (auto simp: reference_mongo_def reference_mongo_view_def fun_eq_iff)

definition example_mongo :: "mongo_db mongo_store" where
  "example_mongo = with_collection ''c'' (mongo_new reference_mongo ''db'')"

definition mongo_example_client :: "network \<Rightarrow> mongo_db mongo_client" where
  "mongo_example_client net =
     \<lparr>mc_store = example_mongo, mc_view = reference_mongo_view, mc_others = undisturbed, mc_net = net\<rparr>"

lemma mongo_example_sel [simp]:
  "mc_store (mongo_example_client net) = example_mongo" "mc_others (mongo_example_client net) = undisturbed"
  "mc_net (mongo_example_client net) = net" "mc_view (mongo_example_client net) = reference_mongo_view"
  "mg_client example_mongo = reference_mongo" "mongo_coll example_mongo = (''db'', ''c'')"
  by (simp_all add: mongo_example_client_def example_mongo_def with_collection_def mongo_new_def mongo_coll_def)

lemma mongo_example_lawful: "mongo_lawful (mongo_example_client net)"
  by (simp add: mongo_lawful_def reference_mongo_laws)

lemma mongo_example_sealed: "mongo_sealed (mongo_example_client net) t"
  by (simp add: mongo_sealed_def mongo_example_lawful)

subsection \<open>Rotation without transactions\<close>

text \<open>
  C5: a rotation fails closed. If nobody else writes the two documents, then however the
  save ends, and whichever requests or answers are lost, the document of the old identity
  is gone or that of the new one has not been created; after a success the old one is
  gone. So the two identities are never both usable.
\<close>
theorem mongo_rotation_fails_closed:
  assumes call: "mongo_store_session c (mc_store cl) (mc_others cl) (mc_net cl) s (h, r) = (Ready res, (h', r'))"
    and rotation: "persistence_origin s h = Inr (Some old_id)" "old_id \<noteq> s_id s"
    and sealed: "mongo_sealed cl old_id" "mongo_sealed cl (s_id s)"
    and start: "mongo_docs cl r (s_id s) = None"
  shows "mongo_docs cl r' old_id = None \<or>
    mongo_docs cl r' (s_id s) = None \<and> (\<exists>e. res = Inl e)"
proof -
  define old new where "old r \<longleftrightarrow> mongo_docs cl r old_id = None" and "new r \<longleftrightarrow> mongo_docs cl r (s_id s) = None" for r
  have keep: "old (snd w) \<Longrightarrow> old (snd (mc_others cl n w))" "new (snd w) \<Longrightarrow> new (snd (mc_others cl n w))" for n w
    using mongo_sealedD[OF sealed(1)] mongo_sealedD[OF sealed(2)] by (simp_all add: old_def new_def)
  have put: "old (snd w') \<or> (\<exists>e. outcome = Failed e) \<and> new (snd w')"
    if snap: "s_id snap = s_id s" and run: "mongo_putting cl (Some old_id) snap json w = (outcome, w')"
      and w: "new (snd w)" for snap :: session and json w outcome w'
    using run
  proof (cases rule: mongo_put_cases)
    case (refused i res)
    then show ?thesis
      using mongo_delete_result[OF sealed(2) _ refused(2)] w by (auto simp: new_def)
  next
    case (rotated i n w1)
    then have "mongo_docs cl (snd w1) old_id = None"
      using mongo_delete_done[of cl 4 i w n w1] sealed(1)
      by (auto simp: mongo_sealed_def rotation_source_def split: if_splits)
    then show ?thesis
      using mongo_insert_result[OF sealed(1) _ _ rotated(4)] rotation(2) snap
      by (simp add: session_doc_of_def old_def)
  qed (use rotation(2) snap in simp_all)
  from call[unfolded mongo_store_session_def] show ?thesis
  proof (rule remote_store_outcome[where Q = new and R = "\<lambda>outcome r. old r \<or> (\<exists>e. outcome = Failed e) \<and> new r"])
    show "new r" using start by (simp add: new_def)
    show "old (snd w') \<or> (\<exists>e. outcome = Failed e) \<and> new (snd w')"
      if "persistence_origin s h = Inr origin" "s_id snap = s_id s" "s_expiry snap = s_expiry s"
        "\<exists>k. wc_to_json c (wire_of snap k) = Inr json" "new (snd w)"
        "mongo_putting cl origin snap json w = (outcome, w')" for origin snap json w outcome w'
      using put[of snap json w outcome w'] that rotation(1) by simp
    show ?thesis if "old (snd w) \<or> (\<exists>e. Stored = Failed e) \<and> new (snd w)"
        "mongo_undoing cl (s_id s) w = (ack, (h8, r'))" for w ack h8
      using mongo_undo_result[OF sealed(1) _ that(2)] that(1) by (simp add: old_def)
  qed (use keep in \<open>auto simp: old_def new_def\<close>)
qed

definition lost_insert :: network where
  "lost_insert k = (if k = 5 then Lost else Delivered)"

theorem mongo_rotation_fails_closed_witness:
  "\<exists>e h' r'. mongo_store_session reference_codec example_mongo undisturbed lost_insert rotated_session
      (example_heap, [(((''db'', ''c''), ''a''), \<lparr>doc_id = ''a'', doc_expires_at = None, doc_session = ''t''\<rparr>)]) =
      (Ready (Inl e), (h', r')) \<and>
    (mongo_docs (mongo_example_client lost_insert) r' ''a'' = None \<or>
     mongo_docs (mongo_example_client lost_insert) r' ''b'' = None)"
proof -
  let ?cl = "mongo_example_client lost_insert"
  let ?db = "[(((''db'', ''c''), ''a''), \<lparr>doc_id = ''a'', doc_expires_at = None, doc_session = ''t''\<rparr>)]"
  note origin = rotated_session_facts(1,2)
  have new: "mongo_docs ?cl ?db (s_id rotated_session) = None"
    by (simp add: mongo_docs_def reference_mongo_view_def rotated_session_def)
  obtain e h' r' where call: "mongo_store_session reference_codec example_mongo undisturbed lost_insert
      rotated_session (example_heap, ?db) = (Ready (Inl e), (h', r'))"
    by (simp add: mongo_store_session_def remote_store_session_def persistence_attempt_def session_defs
        Let_def split_beta begin_backend_write_def begin_guarded_write_def lifecycle_write_def
        persistence_origin_def rotated_session_def example_session_def wire_of_def reference_codec_def
        ref_encode_def mongo_put_def rotation_source_def mongo_delete_def mongo_insert_def
        remote_call_def transmit_def lost_insert_def reference_mongo_def)
  have "mongo_docs ?cl r' ''a'' = None \<or> mongo_docs ?cl r' (s_id rotated_session) = None"
    using mongo_rotation_fails_closed[of reference_codec ?cl rotated_session example_heap ?db "Inl e" h' r' "''a''",
      unfolded mongo_example_sel, OF call origin mongo_example_sealed mongo_example_sealed new] by (rule disjE) simp_all
  with call show ?thesis by (auto simp: rotated_session_def)
qed

end
