(* ===== verification/Mongo_Protocol.thy ===== *)
theory Mongo_Protocol
  imports Mongo_Facts
begin

text \<open>
  The MongoDB store as a provider of the contracts of the remote stores: fenced creations,
  round trips and final deletions. Its rotation is two requests, so that it provides the
  smaller contract \<open>backend_writes\<close> of the lineage protocol.
\<close>

subsection \<open>The store as a remote backend\<close>

definition mongo_ids :: "'r mongo_client \<Rightarrow> 'r \<Rightarrow> string set" where
  "mongo_ids cl r = dom (mongo_docs cl r)"

lemma mongo_undo_done:
  "mongo_lawful cl \<Longrightarrow> mongo_undoing cl t w = (Inr (), w') \<Longrightarrow> mongo_docs cl (snd w') t = None"
  using mongo_delete_done[of cl 6 t w]
  by (auto simp: mongo_undo_def split: prod.splits sum.splits)

interpretation mongo: remote_backend mongo_putting mongo_undoing mongo_ids mongo_sealed
  by unfold_locales
     (auto simp: mongo_put_not_revoked mongo_ids_def mongo_sealed_def domIff dest: mongo_undo_done)

text \<open>
  A save of an identity that the collection does not hold and that reports an error,
  for whatever reason and after whatever faults, has either not created it, or the lineage
  is marked uncertain and no coordinated deletion of it can claim success.
\<close>
theorem mongo_failed_creation_is_fenced:
  assumes "mongo_store_session c (mc_store cl) (mc_others cl) (mc_net cl) s (h, r) =
      (Ready (Inl e), (h', r'))"
    and "mongo_sealed cl (s_id s)" and "mongo_docs cl r (s_id s) = None"
    and "persistence_origin s h \<noteq> Inr (Some (s_id s))"
  shows "mongo_docs cl r' (s_id s) = None \<or>
    ws_uncertain (h_life h' (s_lifecycle s)) \<and> fst (begin_delete_locked s h') \<in> {Pending, Ready (Inl UncertainWrite)}"
proof -
  have others: "s_id s \<notin> mongo_ids cl (snd (mc_others cl n w))" if "s_id s \<notin> mongo_ids cl (snd w)" for n w
    using mongo_sealedD[OF assms(2), of w n] that by (auto simp: mongo_ids_def domIff)
  have start: "s_id s \<notin> mongo_ids cl r" using assms(3) by (simp add: mongo_ids_def domIff)
  have "s_id s \<notin> mongo_ids cl r' \<or> ws_uncertain (h_life h' (s_lifecycle s))"
    by (rule mongo.failed_creation_fenced[OF assms(1)[unfolded mongo_store_session_def] assms(2)
          others start assms(4)])
  then show ?thesis
    by (auto simp: begin_delete_locked_def lifecycle_delete_def mongo_ids_def domIff)
qed

theorem mongo_failed_creation_is_fenced_witness:
  "\<exists>e h' r'. mongo_store_session reference_codec example_mongo undisturbed (\<lambda>k. ReplyLost)
      fresh_session (fresh_heap, []) = (Ready (Inl e), (h', r')) \<and>
    (mongo_docs (mongo_example_client (\<lambda>k. ReplyLost)) r' (s_id fresh_session) = None \<or>
     ws_uncertain (h_life h' (s_lifecycle fresh_session)))"
proof -
  let ?cl = "mongo_example_client (\<lambda>k. ReplyLost)"
  have new: "persistence_origin fresh_session fresh_heap \<noteq> Inr (Some (s_id fresh_session))"
    by (simp add: persistence_origin_def fresh_session_def example_session_def)
  have empty: "mongo_docs ?cl [] (s_id fresh_session) = None"
    by (simp add: mongo_docs_def reference_mongo_view_def)
  obtain e h' r' where call: "mongo_store_session reference_codec example_mongo undisturbed
      (\<lambda>k. ReplyLost) fresh_session (fresh_heap, []) = (Ready (Inl e), (h', r'))"
    by (simp add: mongo_store_session_def remote_store_session_def persistence_attempt_def session_defs
        Let_def split_beta begin_backend_write_def begin_guarded_write_def lifecycle_write_def
        persistence_origin_def fresh_session_def example_session_def wire_of_def reference_codec_def
        ref_encode_def mongo_put_def rotation_source_def mongo_insert_def remote_call_def transmit_def)
  then show ?thesis
    using mongo_failed_creation_is_fenced[of reference_codec ?cl fresh_session fresh_heap "[]" e h' r',
        unfolded mongo_example_sel, OF call mongo_example_sealed empty new]
    by blast
qed

subsection \<open>Round trip\<close>

definition mongo_quiet :: "'r mongo_client \<Rightarrow> bool" where
  "mongo_quiet cl \<longleftrightarrow> mongo_lawful cl \<and> mc_others cl = undisturbed \<and> (\<forall>k. mc_net cl k = Delivered)"

text \<open>The documented conditional write, on the documents of the collection, is admitted.\<close>

definition mongo_admits ::
  "'r mongo_client \<Rightarrow> string option \<Rightarrow> string \<Rightarrow> datetime option \<Rightarrow> 'r \<Rightarrow> bool" where
  "mongo_admits cl origin ident expiry r \<longleftrightarrow>
     (\<forall>d. conditional_write origin ident d (mongo_docs cl r) \<noteq> None)"

lemma mongo_quiet_insert:
  assumes "mongo_quiet cl" and "mongo_docs cl r (doc_id d) = None"
  shows "\<exists>r'. mongo_insert (mc_store cl) (mc_others cl) (mc_net cl) k d (h, r) = (Stored, (h, r')) \<and>
    mongo_docs cl r' = (mongo_docs cl r)(doc_id d \<mapsto> d)"
proof -
  have laws: "mongo_laws (mg_client (mc_store cl)) (mc_view cl)" and o: "mc_others cl = undisturbed"
    and n: "mc_net cl k = Delivered"
    using assms(1) by (simp_all add: mongo_quiet_def mongo_lawful_def)
  show ?thesis
    using mongo_lawsD(2)[OF laws, of r "mongo_coll (mc_store cl)" d] assms(2)
    by (simp add: mongo_insert_def o n mongo_docs_def)
qed

text \<open>Undisturbed, the two requests of a rotation have the effect of the conditional write.\<close>

lemma mongo_quiet_put:
  assumes quiet: "mongo_quiet cl"
    and admitted: "conditional_write origin (s_id snap) (session_doc_of snap json) (mongo_docs cl r) = Some docs"
  shows "\<exists>r'. mongo_putting cl origin snap json (h, r) = (Stored, (h, r')) \<and> mongo_docs cl r' = docs"
proof -
  let ?st = "mc_store cl" and ?d = "session_doc_of snap json"
  have laws: "mongo_laws (mg_client ?st) (mc_view cl)" and o: "mc_others cl = undisturbed"
    and n: "mc_net cl k = Delivered" for k
    using quiet by (simp_all add: mongo_quiet_def mongo_lawful_def)
  have d: "doc_id ?d = s_id snap" by (simp add: session_doc_of_def)
  show ?thesis
  proof (cases origin)
    case None
    then have "mongo_docs cl r (s_id snap) = None" "docs = (mongo_docs cl r)(s_id snap \<mapsto> ?d)"
      using admitted by (auto simp: conditional_write_def split: if_splits)
    then show ?thesis
      using mongo_quiet_insert[OF quiet, of r ?d 4 h] None d
      by (simp add: mongo_put_def rotation_source_def Let_def)
  next
    case (Some src)
    then have src: "mongo_docs cl r src \<noteq> None"
      using admitted by (auto simp: conditional_write_def split: if_splits)
    show ?thesis
    proof (cases "src = s_id snap")
      case True
      then have "docs = (mongo_docs cl r)(s_id snap \<mapsto> ?d)"
        using admitted Some src by (auto simp: conditional_write_def split: if_splits)
      then show ?thesis
        using True Some src d mongo_lawsD(4)[OF laws, of r "mongo_coll ?st" ?d]
        by (simp add: mongo_put_def rotation_source_def Let_def o n mongo_docs_def)
    next
      case False
      then have free: "mongo_docs cl r (s_id snap) = None"
          "docs = (mongo_docs cl r)(src := None, s_id snap \<mapsto> ?d)"
        using admitted Some src by (auto simp: conditional_write_def split: if_splits)
      define r1 where "r1 = snd (md_delete_one (mg_client ?st) (mongo_coll ?st) src r)"
      have r1: "mongo_docs cl r1 = (mongo_docs cl r)(src := None)"
        using mongo_lawsD(7)[OF laws, of "mongo_coll ?st" src r] by (simp add: mongo_docs_def r1_def)
      have del: "mongo_delete ?st (mc_others cl) (mc_net cl) 4 src (h, r) = (Inr 1, (h, r1))"
        using src mongo_lawsD(6)[OF laws, of "mongo_coll ?st" src r]
        by (simp add: mongo_delete_def o n r1_def mongo_docs_def)
      obtain r' where "mongo_insert ?st (mc_others cl) (mc_net cl) 5 ?d (h, r1) = (Stored, (h, r'))"
          "mongo_docs cl r' = (mongo_docs cl r1)(s_id snap \<mapsto> ?d)"
        using mongo_quiet_insert[OF quiet, of r1 ?d 5 h] r1 free(1) d False by auto
      then show ?thesis
        using Some False del free(2) r1 by (simp add: mongo_put_def rotation_source_def Let_def)
    qed
  qed
qed

interpretation mongo_records: remote_records
  mongo_putting mongo_undoing
  "\<lambda>cl. mongo_lookup (mc_store cl) (mc_others cl) (mc_net cl)" mongo_admits mongo_quiet
proof
  fix cl :: "'r mongo_client" and origin json h and snap :: session and r :: 'r
  assume quiet: "mongo_quiet cl" and adm: "mongo_admits cl origin (s_id snap) (s_expiry snap) r"
  obtain docs where docs: "conditional_write origin (s_id snap) (session_doc_of snap json) (mongo_docs cl r) = Some docs"
    using adm unfolding mongo_admits_def by blast
  obtain r' where r': "mongo_putting cl origin snap json (h, r) = (Stored, (h, r'))" "mongo_docs cl r' = docs"
    using mongo_quiet_put[OF quiet docs, of h] by blast
  have "mongo_docs cl r' (s_id snap) = Some (session_doc_of snap json)"
    using conditional_write_records[OF docs] r'(2) by simp
  then have "mongo_lookup (mc_store cl) (mc_others cl) (mc_net cl) (s_id snap) (k, r') =
      (Inr (Some json), (k, r'))" for k
    using quiet mongo_lawsD(1)[of "mg_client (mc_store cl)" "mc_view cl"]
    by (simp add: mongo_quiet_def mongo_lawful_def mongo_lookup_def mongo_docs_def session_doc_of_def)
  with r'(1) show "\<exists>r'. mongo_putting cl origin snap json (h, r) = (Stored, (h, r')) \<and>
      (\<forall>k. mongo_lookup (mc_store cl) (mc_others cl) (mc_net cl) (s_id snap) (k, r') =
        (Inr (Some json), (k, r')))"
    by blast
qed

text \<open>
  With a lawful server and no disturbance, a session whose write the collection admits
  is saved, an update, a creation or a rotation, and its cookie then loads a clean session
  with its identity, expiry and values and the authority to update the document.
\<close>
theorem mongo_saved_session_loads:
  assumes "mongo_quiet cl" and "codec_laws c" and "session_allocated h s" and "lineage_idle s h"
    and "persistence_origin s h = Inr origin" and "wc_to_json c (wire_of s h) = Inr json"
    and "mongo_admits cl origin (s_id s) (s_expiry s) r"
    and "id_from_cookie_value p cookie = Inr (s_id s)" and "\<not> is_expired now s"
  shows "\<exists>h' r' t h2.
     mongo_store_session c (mc_store cl) (mc_others cl) (mc_net cl) s (h, r) =
       (Ready (Inr (s_cookie_value s)), (h', r')) \<and>
     mongo_load_session p c (mc_store cl) (mc_others cl) (mc_net cl) now cookie (h', r') =
       (Inr (Some t), (h2, r')) \<and>
     wire_of t h2 = wire_of s h \<and> \<not> needs_persist t h2 \<and>
     persistence_origin t h2 = Inr (Some (s_id s)) \<and> lineage_idle s h'"
proof -
  have others: "mc_others cl = undisturbed" using assms(1) by (simp add: mongo_quiet_def)
  show ?thesis
    using mongo_records.saved_session_loads[OF assms(1-4) assms(5-9), where recheck = True]
    unfolding mongo_store_session_def mongo_load_session_def others
    by (elim exE conjE) (intro exI conjI; assumption)
qed

theorem mongo_saved_session_loads_witness:
  "\<exists>h' r' t h2. mongo_store_session reference_codec example_mongo undisturbed (\<lambda>k. Delivered) fresh_reference
       (fresh_heap, []) = (Ready (Inr (s_cookie_value fresh_reference)), (h', r')) \<and>
     mongo_load_session reference reference_codec example_mongo undisturbed (\<lambda>k. Delivered) 0
       reference_cookie (h', r') = (Inr (Some t), (h2, r')) \<and> s_id t = reference_id"
proof -
  let ?cl = "mongo_example_client (\<lambda>k. Delivered)"
  have pre: "mongo_quiet ?cl" "session_allocated fresh_heap fresh_reference"
      "lineage_idle fresh_reference fresh_heap" "persistence_origin fresh_reference fresh_heap = Inr None"
      "mongo_admits ?cl None (s_id fresh_reference) (s_expiry fresh_reference) []"
      "id_from_cookie_value reference reference_cookie = Inr (s_id fresh_reference)"
      "\<not> is_expired 0 fresh_reference"
    using mongo_example_lawful[of "\<lambda>k. Delivered"]
    by (simp_all add: mongo_quiet_def session_allocated_def lineage_idle_def is_destroyed_def
        persistence_origin_def fresh_reference_def fresh_session_def example_session_def
        conditional_write_def mongo_admits_def mongo_docs_def reference_mongo_view_def is_expired_def)
  obtain json where json: "wc_to_json reference_codec (wire_of fresh_reference fresh_heap) = Inr json"
    using fresh_encodes by blast
  obtain h' r' t h2 where run:
    "mongo_store_session reference_codec example_mongo undisturbed (\<lambda>k. Delivered) fresh_reference
       (fresh_heap, []) = (Ready (Inr (s_cookie_value fresh_reference)), (h', r'))"
    "mongo_load_session reference reference_codec example_mongo undisturbed (\<lambda>k. Delivered) 0
      reference_cookie (h', r') = (Inr (Some t), (h2, r'))"
    "wire_of t h2 = wire_of fresh_reference fresh_heap"
    using mongo_saved_session_loads[OF pre(1) reference_codec_laws pre(2-4) json pre(5-7),
        unfolded mongo_example_sel]
    by (elim exE conjE) (rule that)
  have "s_id t = reference_id"
    using run(3) by (simp add: wire_of_def fresh_reference_def)
  with run(1,2) show ?thesis by blast
qed

subsection \<open>Deletion is final\<close>

text \<open>
  The request that adds or changes a document, as an operation that can be refused; the
  deletion that precedes it in a rotation is a removal like any other.
\<close>

definition mongo_write ::
  "'r mongo_store \<Rightarrow> string option \<Rightarrow> string \<Rightarrow> i64 option \<times> string \<Rightarrow> 'r \<Rightarrow> 'r option" where
  "mongo_write st origin ident entry r =
     (let d = \<lparr>doc_id = ident, doc_expires_at = fst entry, doc_session = snd entry\<rparr> in
      if origin = Some ident then
        (case md_replace_one (mg_client st) (mongo_coll st) ident d r of
           (n, r1) \<Rightarrow> if n \<noteq> 1 then None else Some r1)
      else
        (case md_insert_one (mg_client st) (mongo_coll st) d r of
           (ok, r1) \<Rightarrow> if ok then Some r1 else None))"

definition mongo_erase :: "'r mongo_store \<Rightarrow> string \<Rightarrow> 'r \<Rightarrow> 'r" where
  "mongo_erase st ident r = snd (md_delete_one (mg_client st) (mongo_coll st) ident r)"

lemma mongo_backend_writes:
  assumes "mongo_laws (mg_client st) view"
  shows "backend_writes (mongo_write st) (mongo_erase st) (\<lambda>r. dom (view r (mongo_coll st))) (\<lambda>_. True)"
proof
  show "t \<in> dom (view r (mongo_coll st)) \<and> dom (view r' (mongo_coll st)) = dom (view r (mongo_coll st))"
    if w: "mongo_write st (Some t) t e r = Some r'" for t e r r'
  proof -
    let ?d = "\<lparr>doc_id = t, doc_expires_at = fst e, doc_session = snd e\<rparr>"
    have run: "md_replace_one (mg_client st) (mongo_coll st) t ?d r = (1, r')"
      using w by (auto simp: mongo_write_def Let_def split: prod.splits if_splits)
    have "view r (mongo_coll st) t \<noteq> None"
      using run mongo_lawsD(5)[OF assms, of r "mongo_coll st" t ?d] by (cases "view r (mongo_coll st) t = None") auto
    then show ?thesis
      using run mongo_lawsD(4)[OF assms, of r "mongo_coll st" ?d] by auto
  qed
  show "dom (view (mongo_erase st t r) (mongo_coll st)) = dom (view r (mongo_coll st)) - {t}" for t r
    using mongo_lawsD(7)[OF assms, of "mongo_coll st" t r] by (auto simp: mongo_erase_def)
qed simp_all

text \<open>
  Once a coordinated deletion of a clone family has succeeded on the MongoDB store, no
  interleaving of the family's saves, two-request rotations, cancelled requests that land
  late, compensations and deletions, and no removal by the server or by others, adds a
  document to the collection.
\<close>
theorem mongo_deletion_is_final:
  assumes "mongo_laws (mg_client st) view" and "session_allocated h s"
    and "(lineage_step (mongo_write st) (mongo_erase st) True)\<^sup>*\<^sup>* (lineage_start s h r) w" and "ln_revoked w"
    and "(lineage_step (mongo_write st) (mongo_erase st) True)\<^sup>*\<^sup>* w w'"
  shows "dom (view (ln_store w') (mongo_coll st)) \<subseteq> dom (view (ln_store w) (mongo_coll st))"
  by (rule backend_writes.deletion_final[OF mongo_backend_writes[OF assms(1)] assms(2-5)])

theorem mongo_deletion_is_final_witness:
  "dom (reference_mongo_view (ln_store (example_deleted (mongo_erase example_mongo)
     [(((''db'', ''c''), ''a''), \<lparr>doc_id = ''a'', doc_expires_at = None, doc_session = ''t''\<rparr>)])) (''db'', ''c'')) = {}"
proof -
  let ?w = "example_deleted (mongo_erase example_mongo)
     [(((''db'', ''c''), ''a''), \<lparr>doc_id = ''a'', doc_expires_at = None, doc_session = ''t''\<rparr>)]"
  have laws: "mongo_laws (mg_client example_mongo) reference_mongo_view"
    by (simp add: reference_mongo_laws)
  have revoked: "ln_revoked ?w"
    by (simp add: example_deleted_def)
  have "dom (reference_mongo_view (ln_store ?w) (mongo_coll example_mongo)) \<subseteq>
      dom (reference_mongo_view (ln_store ?w) (mongo_coll example_mongo))"
    using mongo_deletion_is_final[OF laws example_allocated
        example_run(2)[of "mongo_write example_mongo" "mongo_erase example_mongo" True] revoked
        rtranclp.rtrancl_refl] .
  then show ?thesis
    by (auto simp: example_deleted_def mongo_erase_def reference_mongo_def reference_mongo_view_def dom_def
        mdb_remove_def)
qed

end
