(* ===== verification/Sql_Store.thy ===== *)
theory Sql_Store
  imports Remote_Facts
begin

text \<open>
  The three SQL stores (\<open>src/sqlx_store.rs\<close>). The modules \<open>pg\<close>, \<open>sqlite\<close> and \<open>mysql\<close> are the same
  code with different statement texts; the handlers are defined once over a record of
  texts, and each module is its instance. The database is a record of functions: it
  executes a text with bound values, in a pool connection or in a transaction. What the
  texts mean to it is stated as laws.
\<close>

subsection \<open>Helpers of the module\<close>

definition DEFAULT_CLEANUP_BATCH_SIZE :: "32 word" where
  "DEFAULT_CLEANUP_BATCH_SIZE = 1000"

definition MAX_CLEANUP_BATCH_SIZE :: "32 word" where
  "MAX_CLEANUP_BATCH_SIZE = 10000"

text \<open>Named after \<open>cleanup_limit\<close>.\<close>

definition sql_cleanup_limit :: "32 word \<Rightarrow> error + i64" where
  "sql_cleanup_limit limit =
     (if 1 \<le> limit \<and> limit \<le> MAX_CLEANUP_BATCH_SIZE then Inr (ucast limit) else Inl BatchLimit)"

definition hex_digits :: string where
  "hex_digits = ''0123456789abcdef''"

definition hex_digit :: "nat \<Rightarrow> char" where
  "hex_digit n = hex_digits ! n"

definition to_hex :: "byte list \<Rightarrow> string" where
  "to_hex bytes = concat (map (\<lambda>b. [hex_digit (unat b div 16), hex_digit (unat b mod 16)]) bytes)"

definition expiry_index_name :: "primitives \<Rightarrow> string \<Rightarrow> string" where
  "expiry_index_name p table =
     (let hash = to_hex (p_blake3 p (map byte_of_char table)) in ''saysion_expiry_'' @ take 16 hash)"

definition expiry_unix :: "session \<Rightarrow> i64 option" where
  "expiry_unix s = map_option unix_timestamp (s_expiry s)"

text \<open>
  Errors of the driver: an error of the database, with whether it is a unique violation
  and its number, or any other.
\<close>

datatype sqlx_error = Database bool nat | Unavailable

definition map_insert_error :: "sqlx_error \<Rightarrow> error" where
  "map_insert_error e =
     (case e of Database unique number \<Rightarrow> if unique then SessionConflict else BackendFailure
      | Unavailable \<Rightarrow> BackendFailure)"

subsection \<open>The database\<close>

datatype sql_value = SText string | SInt i64 | SNull

definition sql_of_option :: "i64 option \<Rightarrow> sql_value" where
  "sql_of_option v = (case v of None \<Rightarrow> SNull | Some i \<Rightarrow> SInt i)"

text \<open>
  \<open>execute\<close> yields the number of affected rows, \<open>fetch_text\<close> the text of at most one row,
  \<open>fetch_int\<close> one integer. A transaction is a value that its owner holds; dropping it
  rolls back.
\<close>

record ('r, 't) sql_server =
  sq_execute :: "string \<Rightarrow> sql_value list \<Rightarrow> 'r \<Rightarrow> (sqlx_error + nat) \<times> 'r"
  sq_fetch_text :: "string \<Rightarrow> sql_value list \<Rightarrow> 'r \<Rightarrow> string option"
  sq_fetch_int :: "string \<Rightarrow> 'r \<Rightarrow> int"
  sq_begin :: "'r \<Rightarrow> 't \<times> 'r"
  sq_tx_execute :: "string \<Rightarrow> sql_value list \<Rightarrow> 't \<times> 'r \<Rightarrow> (sqlx_error + nat) \<times> 't \<times> 'r"
  sq_commit :: "'t \<Rightarrow> 'r \<Rightarrow> (sqlx_error + unit) \<times> 'r"
  sq_rollback :: "'t \<Rightarrow> 'r \<Rightarrow> 'r"

text \<open>The texts of a dialect, for a table, and the values bound for a cleanup.\<close>

record sql_dialect =
  dl_select :: "string \<Rightarrow> string"
  dl_insert :: "string \<Rightarrow> string"
  dl_update :: "string \<Rightarrow> string"
  dl_delete :: "string \<Rightarrow> string"
  dl_cleanup :: "string \<Rightarrow> string"
  dl_cleanup_binds :: "i64 \<Rightarrow> i64 \<Rightarrow> sql_value list"

definition sql_count_text :: "string \<Rightarrow> string" where
  "sql_count_text table = ''SELECT COUNT(*) FROM '' @ table"

definition sql_clear_text :: "string \<Rightarrow> string" where
  "sql_clear_text table = ''DELETE FROM '' @ table"

definition postgres :: sql_dialect where
  "postgres =
     \<lparr>dl_select = (\<lambda>table. ''SELECT session FROM '' @ table @
        '' WHERE id = $1 AND (expires IS NULL OR expires >= $2)''),
      dl_insert = (\<lambda>table. ''INSERT INTO '' @ table @ '' (id, expires, session) VALUES ($1, $2, $3)''),
      dl_update = (\<lambda>table. ''UPDATE '' @ table @ '' SET expires = $1, session = $2 WHERE id = $3''),
      dl_delete = (\<lambda>table. ''DELETE FROM '' @ table @ '' WHERE id = $1''),
      dl_cleanup = (\<lambda>table. ''DELETE FROM '' @ table @
        '' WHERE expires IS NOT NULL AND expires < $1 AND id IN (SELECT id FROM '' @ table @
        '' WHERE expires IS NOT NULL AND expires < $1 ORDER BY expires, id LIMIT $2)''),
      dl_cleanup_binds = (\<lambda>now limit. [SInt now, SInt limit])\<rparr>"

definition sqlite :: sql_dialect where
  "sqlite =
     \<lparr>dl_select = (\<lambda>table. ''SELECT session FROM '' @ table @
        '' WHERE id = ? AND (expires IS NULL OR expires >= ?)''),
      dl_insert = (\<lambda>table. ''INSERT INTO '' @ table @ '' (id, expires, session) VALUES (?, ?, ?)''),
      dl_update = (\<lambda>table. ''UPDATE '' @ table @ '' SET expires = ?, session = ? WHERE id = ?''),
      dl_delete = (\<lambda>table. ''DELETE FROM '' @ table @ '' WHERE id = ?''),
      dl_cleanup = (\<lambda>table. ''DELETE FROM '' @ table @
        '' WHERE expires IS NOT NULL AND expires < ? AND id IN (SELECT id FROM '' @ table @
        '' WHERE expires IS NOT NULL AND expires < ? ORDER BY expires, id LIMIT ?)''),
      dl_cleanup_binds = (\<lambda>now limit. [SInt now, SInt now, SInt limit])\<rparr>"

definition mysql :: sql_dialect where
  "mysql = sqlite
     \<lparr>dl_cleanup := (\<lambda>table. ''DELETE FROM '' @ table @
        '' WHERE expires IS NOT NULL AND expires < ? ORDER BY expires, id LIMIT ?''),
      dl_cleanup_binds := (\<lambda>now limit. [SInt now, SInt limit])\<rparr>"

subsection \<open>The store\<close>

record ('r, 't) sql_store =
  sq_pool :: "('r, 't) sql_server"
  sq_table :: string

definition sql_new :: "('r, 't) sql_server \<Rightarrow> ('r, 't) sql_store" where
  "sql_new pool = \<lparr>sq_pool = pool, sq_table = ''saysion_sessions''\<rparr>"

definition sql_with_table :: "string \<Rightarrow> ('r, 't) sql_store \<Rightarrow> ('r, 't) sql_store" where
  "sql_with_table table st = st\<lparr>sq_table := table\<rparr>"

text \<open>A statement on a connection of the pool.\<close>

definition sql_request ::
  "('r, 't) sql_store \<Rightarrow> 'r remote interleaving \<Rightarrow> network \<Rightarrow> nat \<Rightarrow> string \<Rightarrow> sql_value list \<Rightarrow>
   'r remote \<Rightarrow> (sqlx_error + nat) \<times> 'r remote" where
  "sql_request st ij net k sql binds w =
     (case remote_call ij net k (sq_execute (sq_pool st) sql binds) w of
        (Inl _, w1) \<Rightarrow> (Inl Unavailable, w1)
      | (Inr res, w1) \<Rightarrow> (res, w1))"

text \<open>A statement of a transaction, with the transaction after it.\<close>

definition sql_tx_request ::
  "('r, 't) sql_store \<Rightarrow> 'r remote interleaving \<Rightarrow> network \<Rightarrow> nat \<Rightarrow> string \<Rightarrow> sql_value list \<Rightarrow>
   't \<times> 'r remote \<Rightarrow> (sqlx_error + nat) \<times> 't \<times> 'r remote" where
  "sql_tx_request st ij net k sql binds tw =
     (let (tx, w) = tw;
          (h, r) = ij k w;
          (res, (tx1, r1)) = transmit (net k) (sq_tx_execute (sq_pool st) sql binds) (tx, r)
      in (case res of Inl _ \<Rightarrow> Inl Unavailable | Inr e \<Rightarrow> e, (tx1, (h, r1))))"

definition sql_rolled_back :: "('r, 't) sql_store \<Rightarrow> 't \<times> 'r remote \<Rightarrow> 'r remote" where
  "sql_rolled_back st tw = (let (tx, (h, r)) = tw in (h, sq_rollback (sq_pool st) tx r))"

subsection \<open>Saving\<close>

text \<open>The rotation: one transaction, which every early return drops.\<close>

definition sql_rotate ::
  "sql_dialect \<Rightarrow> ('r, 't) sql_store \<Rightarrow> 'r remote interleaving \<Rightarrow> network \<Rightarrow> string \<Rightarrow> string \<Rightarrow>
   i64 option \<Rightarrow> string \<Rightarrow> 'r remote \<Rightarrow> write_outcome \<times> 'r remote" where
  "sql_rotate dl st ij net origin ident expires json w =
     (case remote_call ij net 4 (sq_begin (sq_pool st)) w of
        (Inl e, w1) \<Rightarrow> (Failed e, w1)
      | (Inr tx, w1) \<Rightarrow>
          (case sql_tx_request st ij net 5 (dl_delete dl (sq_table st)) [SText origin] (tx, w1) of
             (Inl _, tw2) \<Rightarrow> (Failed BackendFailure, sql_rolled_back st tw2)
           | (Inr removed, tw2) \<Rightarrow>
               if removed \<noteq> 1 then (Failed SessionConflict, sql_rolled_back st tw2)
               else
                 (case sql_tx_request st ij net 6 (dl_insert dl (sq_table st))
                         [SText ident, sql_of_option expires, SText json] tw2 of
                    (Inl e, tw3) \<Rightarrow> (Failed (map_insert_error e), sql_rolled_back st tw3)
                  | (Inr _, (tx3, w3)) \<Rightarrow>
                      (case remote_call ij net 7 (sq_commit (sq_pool st) tx3) w3 of
                         (Inl e, w4) \<Rightarrow> (Failed e, w4)
                       | (Inr (Inl _), w4) \<Rightarrow> (Failed BackendFailure, w4)
                       | (Inr (Inr _), w4) \<Rightarrow> (Stored, w4)))))"

definition sql_put ::
  "sql_dialect \<Rightarrow> ('r, 't) sql_store \<Rightarrow> 'r remote interleaving \<Rightarrow> network \<Rightarrow> string option \<Rightarrow>
   session \<Rightarrow> string \<Rightarrow> 'r remote \<Rightarrow> write_outcome \<times> 'r remote" where
  "sql_put dl st ij net origin snap json w =
     (let ident = s_id snap; expires = expiry_unix snap in
      case rotation_source origin ident of
        Some old_id \<Rightarrow> sql_rotate dl st ij net old_id ident expires json w
      | None \<Rightarrow>
          if origin \<noteq> None then
            (case sql_request st ij net 4 (dl_update dl (sq_table st))
                    [sql_of_option expires, SText json, SText ident] w of
               (Inl _, w1) \<Rightarrow> (Failed BackendFailure, w1)
             | (Inr updated, w1) \<Rightarrow>
                 if updated \<noteq> 1 then (Failed SessionConflict, w1) else (Stored, w1))
          else
            (case sql_request st ij net 4 (dl_insert dl (sq_table st))
                    [SText ident, sql_of_option expires, SText json] w of
               (Inl e, w1) \<Rightarrow> (Failed (map_insert_error e), w1)
             | (Inr _, w1) \<Rightarrow> (Stored, w1)))"

definition sql_delete ::
  "sql_dialect \<Rightarrow> ('r, 't) sql_store \<Rightarrow> 'r remote interleaving \<Rightarrow> network \<Rightarrow> nat \<Rightarrow> string \<Rightarrow>
   'r remote \<Rightarrow> (error + unit) \<times> 'r remote" where
  "sql_delete dl st ij net k ident w =
     (case sql_request st ij net k (dl_delete dl (sq_table st)) [SText ident] w of
        (Inl _, w1) \<Rightarrow> (Inl BackendFailure, w1)
      | (Inr _, w1) \<Rightarrow> (Inr (), w1))"

definition sql_store_session ::
  "codec \<Rightarrow> sql_dialect \<Rightarrow> ('r, 't) sql_store \<Rightarrow> 'r remote interleaving \<Rightarrow> network \<Rightarrow> session \<Rightarrow>
   'r remote \<Rightarrow> (error + string option) poll \<times> 'r remote" where
  "sql_store_session c dl st ij net =
     remote_store_session c False (sql_put dl st ij net) (sql_delete dl st ij net 8) ij"

subsection \<open>Loading and deleting\<close>

text \<open>\<open>now\<close> is the clock when the query is sent, a second reading validates the session.\<close>

definition sql_lookup ::
  "sql_dialect \<Rightarrow> ('r, 't) sql_store \<Rightarrow> datetime \<Rightarrow> 'r remote interleaving \<Rightarrow> network \<Rightarrow> string \<Rightarrow>
   'r remote \<Rightarrow> (error + string option) \<times> 'r remote" where
  "sql_lookup dl st now ij net ident =
     remote_call ij net 0
       (\<lambda>r. (sq_fetch_text (sq_pool st) (dl_select dl (sq_table st))
               [SText ident, SInt (unix_timestamp now)] r, r))"

definition sql_load_session ::
  "primitives \<Rightarrow> codec \<Rightarrow> sql_dialect \<Rightarrow> ('r, 't) sql_store \<Rightarrow> 'r remote interleaving \<Rightarrow> network \<Rightarrow>
   datetime \<Rightarrow> datetime \<Rightarrow> string \<Rightarrow> 'r remote \<Rightarrow> (error + session option) \<times> 'r remote" where
  "sql_load_session p c dl st ij net now1 now2 cookie =
     remote_load_session p c (sql_lookup dl st now1 ij net) now2 cookie"

definition sql_destroy_session ::
  "sql_dialect \<Rightarrow> ('r, 't) sql_store \<Rightarrow> 'r remote interleaving \<Rightarrow> network \<Rightarrow> session \<Rightarrow> 'r remote \<Rightarrow>
   (error + unit) poll \<times> 'r remote" where
  "sql_destroy_session dl st ij net = remote_destroy_session (sql_delete dl st ij net 1) ij"

text \<open>A statement whose result is only checked for success.\<close>

definition sql_run ::
  "('r, 't) sql_store \<Rightarrow> 'r remote interleaving \<Rightarrow> network \<Rightarrow> nat \<Rightarrow> string \<Rightarrow> 'r remote \<Rightarrow>
   (error + unit) \<times> 'r remote" where
  "sql_run st ij net k sql w =
     (case sql_request st ij net k sql [] w of
        (Inl _, w1) \<Rightarrow> (Inl BackendFailure, w1)
      | (Inr _, w1) \<Rightarrow> (Inr (), w1))"

definition sql_clear_store ::
  "('r, 't) sql_store \<Rightarrow> 'r remote interleaving \<Rightarrow> network \<Rightarrow> 'r remote \<Rightarrow> (error + unit) \<times> 'r remote" where
  "sql_clear_store st ij net = sql_run st ij net 0 (sql_clear_text (sq_table st))"

definition sql_count ::
  "('r, 't) sql_store \<Rightarrow> 'r remote interleaving \<Rightarrow> network \<Rightarrow> 'r remote \<Rightarrow> (error + int) \<times> 'r remote" where
  "sql_count st ij net =
     remote_call ij net 0 (\<lambda>r. (sq_fetch_int (sq_pool st) (sql_count_text (sq_table st)) r, r))"

definition sql_cleanup_batch ::
  "sql_dialect \<Rightarrow> ('r, 't) sql_store \<Rightarrow> 'r remote interleaving \<Rightarrow> network \<Rightarrow> datetime \<Rightarrow> 32 word \<Rightarrow>
   'r remote \<Rightarrow> (error + nat) \<times> 'r remote" where
  "sql_cleanup_batch dl st ij net now limit w =
     (case sql_cleanup_limit limit of
        Inl e \<Rightarrow> (Inl e, w)
      | Inr rows \<Rightarrow>
          (case sql_request st ij net 0 (dl_cleanup dl (sq_table st))
                  (dl_cleanup_binds dl (unix_timestamp now) rows) w of
             (Inl _, w1) \<Rightarrow> (Inl BackendFailure, w1)
           | (Inr n, w1) \<Rightarrow> (Inr n, w1)))"

definition sql_cleanup ::
  "sql_dialect \<Rightarrow> ('r, 't) sql_store \<Rightarrow> 'r remote interleaving \<Rightarrow> network \<Rightarrow> datetime \<Rightarrow>
   'r remote \<Rightarrow> (error + unit) \<times> 'r remote" where
  "sql_cleanup dl st ij net now w =
     (case sql_cleanup_batch dl st ij net now DEFAULT_CLEANUP_BATCH_SIZE w of
        (Inl e, w1) \<Rightarrow> (Inl e, w1)
      | (Inr _, w1) \<Rightarrow> (Inr (), w1))"

subsection \<open>The three modules\<close>

definition pg_load_session ::
  "primitives \<Rightarrow> codec \<Rightarrow> ('r, 't) sql_store \<Rightarrow> 'r remote interleaving \<Rightarrow> network \<Rightarrow>
   datetime \<Rightarrow> datetime \<Rightarrow> string \<Rightarrow> 'r remote \<Rightarrow> (error + session option) \<times> 'r remote" where
  "pg_load_session p c = sql_load_session p c postgres"

definition pg_store_session ::
  "codec \<Rightarrow> ('r, 't) sql_store \<Rightarrow> 'r remote interleaving \<Rightarrow> network \<Rightarrow> session \<Rightarrow>
   'r remote \<Rightarrow> (error + string option) poll \<times> 'r remote" where
  "pg_store_session c = sql_store_session c postgres"

definition pg_destroy_session ::
  "('r, 't) sql_store \<Rightarrow> 'r remote interleaving \<Rightarrow> network \<Rightarrow> session \<Rightarrow>
   'r remote \<Rightarrow> (error + unit) poll \<times> 'r remote" where
  "pg_destroy_session = sql_destroy_session postgres"

definition pg_cleanup_batch ::
  "('r, 't) sql_store \<Rightarrow> 'r remote interleaving \<Rightarrow> network \<Rightarrow> datetime \<Rightarrow> 32 word \<Rightarrow>
   'r remote \<Rightarrow> (error + nat) \<times> 'r remote" where
  "pg_cleanup_batch = sql_cleanup_batch postgres"

definition sqlite_load_session ::
  "primitives \<Rightarrow> codec \<Rightarrow> ('r, 't) sql_store \<Rightarrow> 'r remote interleaving \<Rightarrow> network \<Rightarrow>
   datetime \<Rightarrow> datetime \<Rightarrow> string \<Rightarrow> 'r remote \<Rightarrow> (error + session option) \<times> 'r remote" where
  "sqlite_load_session p c = sql_load_session p c sqlite"

definition sqlite_store_session ::
  "codec \<Rightarrow> ('r, 't) sql_store \<Rightarrow> 'r remote interleaving \<Rightarrow> network \<Rightarrow> session \<Rightarrow>
   'r remote \<Rightarrow> (error + string option) poll \<times> 'r remote" where
  "sqlite_store_session c = sql_store_session c sqlite"

definition sqlite_destroy_session ::
  "('r, 't) sql_store \<Rightarrow> 'r remote interleaving \<Rightarrow> network \<Rightarrow> session \<Rightarrow>
   'r remote \<Rightarrow> (error + unit) poll \<times> 'r remote" where
  "sqlite_destroy_session = sql_destroy_session sqlite"

definition sqlite_cleanup_batch ::
  "('r, 't) sql_store \<Rightarrow> 'r remote interleaving \<Rightarrow> network \<Rightarrow> datetime \<Rightarrow> 32 word \<Rightarrow>
   'r remote \<Rightarrow> (error + nat) \<times> 'r remote" where
  "sqlite_cleanup_batch = sql_cleanup_batch sqlite"

definition mysql_load_session ::
  "primitives \<Rightarrow> codec \<Rightarrow> ('r, 't) sql_store \<Rightarrow> 'r remote interleaving \<Rightarrow> network \<Rightarrow>
   datetime \<Rightarrow> datetime \<Rightarrow> string \<Rightarrow> 'r remote \<Rightarrow> (error + session option) \<times> 'r remote" where
  "mysql_load_session p c = sql_load_session p c mysql"

definition mysql_store_session ::
  "codec \<Rightarrow> ('r, 't) sql_store \<Rightarrow> 'r remote interleaving \<Rightarrow> network \<Rightarrow> session \<Rightarrow>
   'r remote \<Rightarrow> (error + string option) poll \<times> 'r remote" where
  "mysql_store_session c = sql_store_session c mysql"

definition mysql_destroy_session ::
  "('r, 't) sql_store \<Rightarrow> 'r remote interleaving \<Rightarrow> network \<Rightarrow> session \<Rightarrow>
   'r remote \<Rightarrow> (error + unit) poll \<times> 'r remote" where
  "mysql_destroy_session = sql_destroy_session mysql"

definition mysql_cleanup_batch ::
  "('r, 't) sql_store \<Rightarrow> 'r remote interleaving \<Rightarrow> network \<Rightarrow> datetime \<Rightarrow> 32 word \<Rightarrow>
   'r remote \<Rightarrow> (error + nat) \<times> 'r remote" where
  "mysql_cleanup_batch = sql_cleanup_batch mysql"

end
