(* ===== verification/Sql_Facts.thy ===== *)
theory Sql_Facts
  imports Sql_Store
begin

text \<open>
  Correctness of the SQL stores: a save changes the table by at most one conditional write
  of the contract, whatever faults occur and whatever other clients do, and a rotation is
  atomic.
\<close>

subsection \<open>What the texts mean\<close>

text \<open>\<open>view\<close> gives the committed rows of the table, \<open>log\<close> the successful statements of a transaction.\<close>

type_synonym sql_rows = "string \<rightharpoonup> i64 option \<times> string"
type_synonym sql_log = "(string \<times> sql_value list \<times> nat) list"

text \<open>Running a log again, with the same counts.\<close>

fun sql_replay ::
  "(string \<Rightarrow> sql_value list \<Rightarrow> 'r \<Rightarrow> (sqlx_error + nat) \<times> 'r) \<Rightarrow> sql_log \<Rightarrow> 'r \<Rightarrow> 'r option" where
  "sql_replay exec [] r = Some r"
| "sql_replay exec ((sql, binds, n) # log) r =
     (case exec sql binds r of
        (Inl _, _) \<Rightarrow> None
      | (Inr m, r1) \<Rightarrow> if m = n then sql_replay exec log r1 else None)"

definition rows_expired :: "i64 \<Rightarrow> sql_rows \<Rightarrow> string set" where
  "rows_expired now m = {i. \<exists>e json. m i = Some (Some e, json) \<and> sint e < sint now}"

definition row_expiry :: "sql_rows \<Rightarrow> string \<Rightarrow> int" where
  "row_expiry m i = (case m i of Some (Some e, _) \<Rightarrow> sint e | _ \<Rightarrow> 0)"

text \<open>\<open>LIMIT\<close> of the expired rows in the order of their expiry.\<close>

definition oldest_expired :: "i64 \<Rightarrow> i64 \<Rightarrow> sql_rows \<Rightarrow> string set \<Rightarrow> bool" where
  "oldest_expired now limit m S \<longleftrightarrow> S \<subseteq> rows_expired now m \<and>
     card S = min (unat limit) (card (rows_expired now m)) \<and>
     (\<forall>i \<in> S. \<forall>j \<in> rows_expired now m - S. row_expiry m i \<le> row_expiry m j)"

text \<open>
  The statements on one row. \<open>id\<close> is the primary key; the number of rows that an update
  affects is the number it matches, which the MySQL driver asks for.
\<close>

definition sql_row_laws ::
  "sql_dialect \<Rightarrow> string \<Rightarrow> ('r, 't) sql_server \<Rightarrow> ('r \<Rightarrow> sql_rows) \<Rightarrow> bool" where
  "sql_row_laws dl table sv view \<longleftrightarrow>
     (\<forall>i v json r. view r i = None \<longrightarrow>
        fst (sq_execute sv (dl_insert dl table) [SText i, sql_of_option v, SText json] r) = Inr 1 \<and>
        view (snd (sq_execute sv (dl_insert dl table) [SText i, sql_of_option v, SText json] r)) =
          (view r)(i \<mapsto> (v, json))) \<and>
     (\<forall>i v json r. view r i \<noteq> None \<longrightarrow>
        (\<exists>n. fst (sq_execute sv (dl_insert dl table) [SText i, sql_of_option v, SText json] r) = Inl (Database True n)) \<and>
        view (snd (sq_execute sv (dl_insert dl table) [SText i, sql_of_option v, SText json] r)) = view r) \<and>
     (\<forall>i v json r. fst (sq_execute sv (dl_update dl table) [sql_of_option v, SText json, SText i] r) =
          Inr (if view r i = None then 0 else 1) \<and>
        view (snd (sq_execute sv (dl_update dl table) [sql_of_option v, SText json, SText i] r)) =
          (if view r i = None then view r else (view r)(i \<mapsto> (v, json)))) \<and>
     (\<forall>i r. fst (sq_execute sv (dl_delete dl table) [SText i] r) = Inr (if view r i = None then 0 else 1) \<and>
        view (snd (sq_execute sv (dl_delete dl table) [SText i] r)) = (view r)(i := None)) \<and>
     (\<forall>i now r. sq_fetch_text sv (dl_select dl table) [SText i, SInt now] r =
        (case view r i of None \<Rightarrow> None
         | Some (exp, json) \<Rightarrow>
             if (case exp of None \<Rightarrow> True | Some e \<Rightarrow> sint now \<le> sint e) then Some json else None))"

text \<open>The statements on the whole table.\<close>

definition sql_table_laws ::
  "sql_dialect \<Rightarrow> string \<Rightarrow> ('r, 't) sql_server \<Rightarrow> ('r \<Rightarrow> sql_rows) \<Rightarrow> bool" where
  "sql_table_laws dl table sv view \<longleftrightarrow>
     (\<forall>r. finite (dom (view r))) \<and>
     (\<forall>now limit r. \<exists>S. oldest_expired now limit (view r) S \<and>
        fst (sq_execute sv (dl_cleanup dl table) (dl_cleanup_binds dl now limit) r) = Inr (card S) \<and>
        view (snd (sq_execute sv (dl_cleanup dl table) (dl_cleanup_binds dl now limit) r)) = view r |` (- S)) \<and>
     (\<forall>r. view (snd (sq_execute sv (sql_clear_text table) [] r)) = Map.empty) \<and>
     (\<forall>r. sq_fetch_int sv (sql_count_text table) r = int (card (dom (view r))))"

text \<open>
  A transaction is isolated: until its commit nothing changes, and its commit has the effect
  of its statements run in one piece at that moment, with the results they have reported.
\<close>

definition sql_tx_laws :: "('r, 't) sql_server \<Rightarrow> ('r \<Rightarrow> sql_rows) \<Rightarrow> ('t \<Rightarrow> sql_log) \<Rightarrow> bool" where
  "sql_tx_laws sv view log \<longleftrightarrow>
     (\<forall>r. log (fst (sq_begin sv r)) = [] \<and> view (snd (sq_begin sv r)) = view r) \<and>
     (\<forall>sql binds t r. view (snd (snd (sq_tx_execute sv sql binds (t, r)))) = view r) \<and>
     (\<forall>sql binds t r n. fst (sq_tx_execute sv sql binds (t, r)) = Inr n \<longrightarrow>
        log (fst (snd (sq_tx_execute sv sql binds (t, r)))) = log t @ [(sql, binds, n)]) \<and>
     (\<forall>t r u. fst (sq_commit sv t r) = Inr u \<longrightarrow>
        (\<exists>r1. sql_replay (sq_execute sv) (log t) r = Some r1 \<and> view (snd (sq_commit sv t r)) = view r1)) \<and>
     (\<forall>t r e. fst (sq_commit sv t r) = Inl e \<longrightarrow> view (snd (sq_commit sv t r)) = view r) \<and>
     (\<forall>t r. view (sq_rollback sv t r) = view r)"

definition sql_laws ::
  "sql_dialect \<Rightarrow> string \<Rightarrow> ('r, 't) sql_server \<Rightarrow> ('r \<Rightarrow> sql_rows) \<Rightarrow> ('t \<Rightarrow> sql_log) \<Rightarrow> bool" where
  "sql_laws dl table sv view log \<longleftrightarrow>
     sql_row_laws dl table sv view \<and> sql_table_laws dl table sv view \<and> sql_tx_laws sv view log"

lemma sql_row_lawsD:
  assumes "sql_laws dl table sv view log"
  shows "view r i = None \<Longrightarrow>
        fst (sq_execute sv (dl_insert dl table) [SText i, sql_of_option v, SText json] r) = Inr 1 \<and>
        view (snd (sq_execute sv (dl_insert dl table) [SText i, sql_of_option v, SText json] r)) =
          (view r)(i \<mapsto> (v, json))"
    "view r i \<noteq> None \<Longrightarrow>
        (\<exists>n. fst (sq_execute sv (dl_insert dl table) [SText i, sql_of_option v, SText json] r) = Inl (Database True n)) \<and>
        view (snd (sq_execute sv (dl_insert dl table) [SText i, sql_of_option v, SText json] r)) = view r"
    "fst (sq_execute sv (dl_update dl table) [sql_of_option v, SText json, SText i] r) =
          Inr (if view r i = None then 0 else 1)"
    "view (snd (sq_execute sv (dl_update dl table) [sql_of_option v, SText json, SText i] r)) =
          (if view r i = None then view r else (view r)(i \<mapsto> (v, json)))"
    "fst (sq_execute sv (dl_delete dl table) [SText i] r) = Inr (if view r i = None then 0 else 1)"
    "view (snd (sq_execute sv (dl_delete dl table) [SText i] r)) = (view r)(i := None)"
    "sq_fetch_text sv (dl_select dl table) [SText i, SInt now] r =
        (case view r i of None \<Rightarrow> None
         | Some (exp, js) \<Rightarrow>
             if (case exp of None \<Rightarrow> True | Some e \<Rightarrow> sint now \<le> sint e) then Some js else None)"
  using assms unfolding sql_laws_def sql_row_laws_def by (elim conjE, simp only: simp_thms)+

lemma sql_table_lawsD:
  assumes "sql_laws dl table sv view log"
  shows "finite (dom (view r))"
    "\<exists>S. oldest_expired now limit (view r) S \<and>
        fst (sq_execute sv (dl_cleanup dl table) (dl_cleanup_binds dl now limit) r) = Inr (card S) \<and>
        view (snd (sq_execute sv (dl_cleanup dl table) (dl_cleanup_binds dl now limit) r)) = view r |` (- S)"
    "view (snd (sq_execute sv (sql_clear_text table) [] r)) = Map.empty"
    "sq_fetch_int sv (sql_count_text table) r = int (card (dom (view r)))"
  using assms unfolding sql_laws_def sql_table_laws_def by (elim conjE, simp only: simp_thms)+

lemma sql_tx_lawsD:
  assumes "sql_laws dl table sv view log"
  shows "log (fst (sq_begin sv r)) = []" "view (snd (sq_begin sv r)) = view r"
    "view (snd (snd (sq_tx_execute sv sql binds (t, r)))) = view r"
    "fst (sq_tx_execute sv sql binds (t, r)) = Inr n \<Longrightarrow>
       log (fst (snd (sq_tx_execute sv sql binds (t, r)))) = log t @ [(sql, binds, n)]"
    "fst (sq_commit sv t r) = Inr u \<Longrightarrow>
        (\<exists>r1. sql_replay (sq_execute sv) (log t) r = Some r1 \<and> view (snd (sq_commit sv t r)) = view r1)"
    "fst (sq_commit sv t r) = Inl e \<Longrightarrow> view (snd (sq_commit sv t r)) = view r"
    "view (sq_rollback sv t r) = view r"
  using assms unfolding sql_laws_def sql_tx_laws_def by (elim conjE, simp)+

subsection \<open>Single statements\<close>

lemma sql_request_result:
  assumes "sql_request st ij net k sql binds w = (res, w')"
  shows "(res, snd w') = sq_execute (sq_pool st) sql binds (snd (ij k w)) \<or>
    res = Inl Unavailable \<and>
      (snd w' = snd (ij k w) \<or> snd w' = snd (sq_execute (sq_pool st) sql binds (snd (ij k w))))"
  using assms
  by (auto simp: sql_request_def remote_call_def transmit_def Let_def split_beta split: fault.splits)

lemma sql_request_heap: "sql_request st ij net k sql binds w = (res, w') \<Longrightarrow> fst w' = fst (ij k w)"
  by (auto simp: sql_request_def remote_call_def Let_def split_beta split: sum.splits prod.splits)

lemma sql_tx_request_heap:
  "sql_tx_request st ij net k sql binds (tx, w) = (res, (tx1, w1)) \<Longrightarrow> fst w1 = fst (ij k w)"
  by (auto simp: sql_tx_request_def Let_def split_beta)

lemma sql_tx_request_result:
  assumes laws: "sql_laws dl table (sq_pool st) view log"
    and run: "sql_tx_request st ij net k sql binds (tx, w) = (res, (tx1, w1))"
  shows "view (snd w1) = view (snd (ij k w))" "res = Inr n \<Longrightarrow> log tx1 = log tx @ [(sql, binds, n)]"
proof -
  let ?x = "sq_tx_execute (sq_pool st) sql binds (tx, snd (ij k w))"
  show "view (snd w1) = view (snd (ij k w))"
    using run sql_tx_lawsD(3)[OF laws, of sql binds tx "snd (ij k w)"]
    by (auto simp: sql_tx_request_def transmit_def Let_def split_beta split: fault.splits)
  show "log tx1 = log tx @ [(sql, binds, n)]" if "res = Inr n"
  proof -
    have "fst ?x = Inr n" "tx1 = fst (snd ?x)"
      using run that by (auto simp: sql_tx_request_def transmit_def Let_def split_beta split: fault.splits)
    then show ?thesis using sql_tx_lawsD(4)[OF laws, of sql binds tx "snd (ij k w)"] by simp
  qed
qed

text \<open>The statements of a save that is not a rotation.\<close>

lemma sql_insert_writes:
  assumes "sql_laws dl table sv view log"
    and "sq_execute sv (dl_insert dl table) [SText i, sql_of_option v, SText json] r = (res, r')"
  shows "(\<exists>n. res = Inr n) \<and> conditional_write None i (v, json) (view r) = Some (view r') \<or>
    (\<exists>n. res = Inl (Database True n)) \<and> view r' = view r \<and> conditional_write None i (v, json) (view r) = None"
  using sql_row_lawsD(1,2)[OF assms(1), of r i v json] assms(2)
  by (cases "view r i = None") (auto simp: conditional_write_def)

lemma sql_update_writes:
  assumes "sql_laws dl table sv view log"
    and "sq_execute sv (dl_update dl table) [sql_of_option v, SText json, SText i] r = (res, r')"
  shows "res = Inr 1 \<and> conditional_write (Some i) i (v, json) (view r) = Some (view r') \<or>
    res = Inr 0 \<and> view r' = view r \<and> conditional_write (Some i) i (v, json) (view r) = None"
  using sql_row_lawsD(3,4)[OF assms(1), of v json i r] assms(2)
  by (cases "view r i = None") (auto simp: conditional_write_def)

lemma sql_rotation_replay:
  assumes laws: "sql_laws dl table sv view log" and "src \<noteq> i"
    and "sql_replay (sq_execute sv) [(dl_delete dl table, [SText src], 1),
      (dl_insert dl table, [SText i, sql_of_option v, SText json], n)] r = Some r2"
  shows "conditional_write (Some src) i (v, json) (view r) = Some (view r2)"
proof -
  obtain r1 where del: "sq_execute sv (dl_delete dl table) [SText src] r = (Inr 1, r1)"
    using assms(3) by (auto split: prod.splits sum.splits if_splits)
  then have src: "view r src \<noteq> None" "view r1 = (view r)(src := None)"
    using sql_row_lawsD(5,6)[OF laws, of src r] by (auto split: if_splits)
  have "sq_execute sv (dl_insert dl table) [SText i, sql_of_option v, SText json] r1 = (Inr n, r2)"
    using assms(3) del by (auto split: prod.splits sum.splits if_splits)
  then have "view r1 i = None" "view r2 = (view r1)(i \<mapsto> (v, json))"
    using sql_insert_writes[OF laws, of i v json r1 "Inr n" r2]
    by (auto simp: conditional_write_def split: if_splits)
  then show ?thesis using src assms(2) by (auto simp: conditional_write_def)
qed

subsection \<open>A save is one conditional write\<close>

text \<open>
  \<open>Q\<close> holds of the heap and the rows before and is kept by others; \<open>I\<close> holds after the
  conditional write where \<open>Q\<close> holds. Then, whatever fails, the heap and the rows satisfy \<open>Q\<close> or
  \<open>I\<close> afterwards, and \<open>I\<close> if the write is reported as stored.
\<close>

definition put_result :: "('a \<Rightarrow> bool) \<Rightarrow> ('a \<Rightarrow> bool) \<Rightarrow> write_outcome \<Rightarrow> 'a \<Rightarrow> bool" where
  "put_result Q I outcome m \<longleftrightarrow>
     outcome = Stored \<and> I m \<or> (\<exists>e. outcome = Failed e) \<and> (Q m \<or> I m)"

lemma sql_single_atomic:
  assumes exec: "\<And>h r res r'. sq_execute (sq_pool st) sql binds r = (res, r') \<Longrightarrow> Q (h, view r) \<Longrightarrow>
      stored res \<and> I (h, view r') \<or> \<not> stored res \<and> Q (h, view r')"
    and start: "Q (seen view w)"
    and others: "\<And>n w. Q (seen view w) \<Longrightarrow> Q (seen view (ij n w))"
    and run: "sql_request st ij net k sql binds w = (res, w')" and refused: "\<not> stored (Inl Unavailable)"
  shows "stored res \<and> I (seen view w') \<or> \<not> stored res \<and> (Q (seen view w') \<or> I (seen view w'))"
proof -
  obtain h r where at: "ij k w = (h, r)" by fastforce
  then have q: "Q (h, view r)" using others[OF start, of k] by simp
  obtain res1 r1 where x: "sq_execute (sq_pool st) sql binds r = (res1, r1)"
    by (rule prod.exhaust)
  show ?thesis
    using sql_request_result[OF run] sql_request_heap[OF run] exec[OF x q] q refused by (auto simp: at x)
qed

lemma sql_rotate_atomic:
  assumes laws: "sql_laws dl (sq_table st) (sq_pool st) view log" and "src \<noteq> i"
    and run: "sql_rotate dl st ij net src i v json w = (outcome, w')"
    and start: "Q (seen view w)"
    and others: "\<And>n w. Q (seen view w) \<Longrightarrow> Q (seen view (ij n w))"
    and step: "\<And>h m m'. Q (h, m) \<Longrightarrow> conditional_write (Some src) i (v, json) m = Some m' \<Longrightarrow> I (h, m')"
  shows "put_result Q I outcome (seen view w')"
proof -
  let ?sv = "sq_pool st"
  let ?del = "dl_delete dl (sq_table st)" and ?ins = "dl_insert dl (sq_table st)"
  have q: "Q (seen view (ij n w))" if "Q (seen view w)" for n w
    using others that by blast
  have rolled: "seen view (sql_rolled_back st (tx, w)) = seen view w" for tx w
    using sql_tx_lawsD(7)[OF laws] by (simp add: sql_rolled_back_def split_beta)
  obtain res1 w1 where b: "remote_call ij net 4 (sq_begin ?sv) w = (res1, w1)"
    by (rule prod.exhaust)
  have q1: "Q (seen view w1)"
    using remote_call_state[OF b] remote_call_heap[OF b] q[OF start, of 4] sql_tx_lawsD(2)[OF laws] by auto
  show ?thesis
  proof (cases res1)
    case (Inl e)
    then show ?thesis using run b q1 by (auto simp: sql_rotate_def put_result_def)
  next
    case (Inr tx)
    have log0: "log tx = []"
      using b sql_tx_lawsD(1)[OF laws] unfolding Inr by (auto simp: remote_call_Inr)
    obtain res2 tx2 w2 where d: "sql_tx_request st ij net 5 ?del [SText src] (tx, w1) = (res2, (tx2, w2))"
      by (metis surj_pair)
    have q2: "Q (seen view w2)"
      using sql_tx_request_result(1)[OF laws d] sql_tx_request_heap[OF d] q[OF q1, of 5] by simp
    show ?thesis
    proof (cases "res2 = Inr 1")
      case False
      then show ?thesis
        using run b Inr d q2 rolled[of tx2 w2]
        by (cases res2) (auto simp: sql_rotate_def put_result_def)
    next
      case True
      have log1: "log tx2 = [(?del, [SText src], 1)]"
        using sql_tx_request_result(2)[OF laws d True] log0 by simp
      let ?binds = "[SText i, sql_of_option v, SText json]"
      obtain res3 tx3 w3 where n: "sql_tx_request st ij net 6 ?ins ?binds (tx2, w2) = (res3, (tx3, w3))"
        by (metis surj_pair)
      have q3: "Q (seen view w3)"
        using sql_tx_request_result(1)[OF laws n] sql_tx_request_heap[OF n] q[OF q2, of 6] by simp
      show ?thesis
      proof (cases res3)
        case (Inl e)
        then show ?thesis
          using run b Inr d True n q3 rolled[of tx3 w3] by (auto simp: sql_rotate_def put_result_def)
      next
        case (Inr rows)
        have log2: "log tx3 = [(?del, [SText src], 1), (?ins, ?binds, rows)]"
          using sql_tx_request_result(2)[OF laws n Inr] log1 by simp
        obtain res4 w4 where c: "remote_call ij net 7 (sq_commit ?sv tx3) w3 = (res4, w4)"
          by (rule prod.exhaust)
        obtain h r where at: "ij 7 w3 = (h, r)" by fastforce
        then have qr: "Q (h, view r)" using q[OF q3, of 7] by simp
        have finished: "I (h, view (snd (sq_commit ?sv tx3 r)))" if ok: "fst (sq_commit ?sv tx3 r) = Inr u" for u
        proof -
          obtain r1 where "sql_replay (sq_execute ?sv) (log tx3) r = Some r1"
              "view (snd (sq_commit ?sv tx3 r)) = view r1"
            using sql_tx_lawsD(5)[OF laws ok] by blast
          then show ?thesis
            using sql_rotation_replay[OF laws assms(2), of v json rows r r1] step[OF qr] by (simp add: log2)
        qed
        have kept: "Q (h, view (snd (sq_commit ?sv tx3 r)))" if "fst (sq_commit ?sv tx3 r) = Inl e" for e
          using sql_tx_lawsD(6)[OF laws that] qr by simp
        have either: "Q (seen view w4) \<or> I (seen view w4)"
          using remote_call_state[OF c] remote_call_heap[OF c] qr finished kept
          by (cases "fst (sq_commit ?sv tx3 r)") (auto simp: at)
        have out: "outcome = (case res4 of Inl e \<Rightarrow> Failed e | Inr (Inl _) \<Rightarrow> Failed BackendFailure
            | Inr (Inr _) \<Rightarrow> Stored)" "w' = w4"
          using run b \<open>res1 = Inr tx\<close> d True n Inr c by (auto simp: sql_rotate_def split: sum.splits)
        have "I (seen view w4)" if "res4 = Inr (Inr u)" for u
          using c finished unfolding that by (auto simp: remote_call_Inr at)
        then show ?thesis
          using out either by (auto simp: put_result_def split: sum.splits)
      qed
    qed
  qed
qed

lemma sql_put_lands:
  assumes laws: "sql_laws dl (sq_table st) (sq_pool st) view log"
    and run: "sql_put dl st ij net origin snap json w = (outcome, w')"
    and start: "Q (seen view w)"
    and others: "\<And>n w. Q (seen view w) \<Longrightarrow> Q (seen view (ij n w))"
    and step: "\<And>h m m'. Q (h, m) \<Longrightarrow>
      conditional_write origin (s_id snap) (expiry_unix snap, json) m = Some m' \<Longrightarrow> I (h, m')"
  shows "put_result Q I outcome (seen view w')"
proof (cases "rotation_source origin (s_id snap)")
  case (Some src)
  then have "origin = Some src" "src \<noteq> s_id snap"
    by (auto simp: rotation_source_def split: option.splits if_splits)
  then show ?thesis
    using sql_rotate_atomic[OF laws, of src "s_id snap" ij net "expiry_unix snap" json w outcome w' Q I]
      run start others step Some
    by (simp add: sql_put_def Let_def)
next
  case None
  then have none: "origin = None \<or> origin = Some (s_id snap)"
    by (auto simp: rotation_source_def split: option.splits if_splits)
  let ?st = "sq_table st" and ?i = "s_id snap" and ?v = "expiry_unix snap"
  show ?thesis
  proof (cases "origin = None")
    case True
    obtain res w1 where req: "sql_request st ij net 4 (dl_insert dl ?st) [SText ?i, sql_of_option ?v, SText json] w = (res, w1)"
      by (rule prod.exhaust)
    have "(\<exists>n. res = Inr n) \<and> I (seen view w1) \<or> \<not> (\<exists>n. res = Inr n) \<and> (Q (seen view w1) \<or> I (seen view w1))"
    proof (rule sql_single_atomic[where Q = Q and I = I and view = view and stored = "\<lambda>res. \<exists>n. res = Inr n",
          OF _ start others req])
      fix h r res r'
      assume "sq_execute (sq_pool st) (dl_insert dl ?st) [SText ?i, sql_of_option ?v, SText json] r = (res, r')" "Q (h, view r)"
      then show "(\<exists>n. res = Inr n) \<and> I (h, view r') \<or> \<not> (\<exists>n. res = Inr n) \<and> Q (h, view r')"
        using sql_insert_writes[OF laws, of ?i ?v json r res r'] step[of h "view r" "view r'"] True by auto
    qed simp_all
    then show ?thesis
      using run None True req by (cases res) (auto simp: sql_put_def Let_def put_result_def)
  next
    case False
    obtain res w1 where req: "sql_request st ij net 4 (dl_update dl ?st) [sql_of_option ?v, SText json, SText ?i] w = (res, w1)"
      by (rule prod.exhaust)
    have "res = Inr 1 \<and> I (seen view w1) \<or> res \<noteq> Inr 1 \<and> (Q (seen view w1) \<or> I (seen view w1))"
    proof (rule sql_single_atomic[where Q = Q and I = I and view = view and stored = "\<lambda>res. res = Inr 1",
          OF _ start others req])
      fix h r res r'
      assume "sq_execute (sq_pool st) (dl_update dl ?st) [sql_of_option ?v, SText json, SText ?i] r = (res, r')" "Q (h, view r)"
      then show "res = Inr 1 \<and> I (h, view r') \<or> res \<noteq> Inr 1 \<and> Q (h, view r')"
        using sql_update_writes[OF laws, of ?v json ?i r res r'] step[of h "view r" "view r'"] False none by auto
    qed simp_all
    then show ?thesis
      using run None False req by (cases res) (auto simp: sql_put_def Let_def put_result_def split: if_splits)
  qed
qed

text \<open>The same with conditions on the rows alone.\<close>

lemma sql_put_atomic:
  assumes laws: "sql_laws dl (sq_table st) (sq_pool st) view log"
    and run: "sql_put dl st ij net origin snap json w = (outcome, w')"
    and start: "Q (view (snd w))"
    and others: "\<And>n w. Q (view (snd w)) \<Longrightarrow> Q (view (snd (ij n w)))"
    and step: "\<And>m m'. Q m \<Longrightarrow>
      conditional_write origin (s_id snap) (expiry_unix snap, json) m = Some m' \<Longrightarrow> I m'"
  shows "put_result Q I outcome (view (snd w'))"
proof -
  have "put_result (\<lambda>x. Q (snd x)) (\<lambda>x. I (snd x)) outcome (seen view w')"
    by (rule sql_put_lands[OF laws run]) (use start others step in auto)
  then show ?thesis by (simp add: put_result_def)
qed

lemma sql_delete_result:
  assumes laws: "sql_laws dl (sq_table st) (sq_pool st) view log"
    and run: "sql_delete dl st ij net k i w = (res, w')"
  shows "view (snd w') = (view (snd (ij k w)))(i := None) \<or>
    (\<exists>e. res = Inl e) \<and> view (snd w') = view (snd (ij k w))"
proof -
  obtain res1 where req: "sql_request st ij net k (dl_delete dl (sq_table st)) [SText i] w = (res1, w')"
      "res = (case res1 of Inl _ \<Rightarrow> Inl BackendFailure | Inr _ \<Rightarrow> Inr ())"
    using run by (auto simp: sql_delete_def split: prod.splits sum.splits)
  show ?thesis
    using sql_request_result[OF req(1)] sql_row_lawsD(5,6)[OF laws, of i "snd (ij k w)"] req(2)
    by (cases "sq_execute (sq_pool st) (dl_delete dl (sq_table st)) [SText i] (snd (ij k w))") auto
qed

lemma sql_delete_heap: "sql_delete dl st ij net k i w = (res, w') \<Longrightarrow> fst w' = fst (ij k w)"
  by (auto simp: sql_delete_def sql_request_def remote_call_def Let_def split_beta
      split: sum.splits prod.splits)

lemma sql_put_not_revoked:
  assumes laws: "sql_laws dl (sq_table st) (sq_pool st) view log"
  shows "sql_put dl st ij net origin snap json w \<noteq> (Revoked, w')"
proof
  assume run: "sql_put dl st ij net origin snap json w = (Revoked, w')"
  have "put_result (\<lambda>m. True) (\<lambda>m. True) Revoked (view (snd w'))"
    by (rule sql_put_atomic[OF laws run]) simp_all
  then show False by (simp add: put_result_def)
qed

text \<open>
  C11: without other clients, whatever requests and answers are lost, a write changes the
  table exactly as the documented conditional write of the contract does, or not at all,
  rotation included; it is only reported as stored if it has happened, and it never
  happens where the contract has a conflict.
\<close>
theorem sql_write_refines_contract:
  assumes "sql_laws dl (sq_table st) (sq_pool st) view log"
    and "sql_put dl st undisturbed net origin snap json (h, r) = (outcome, (h', r'))"
  shows "case conditional_write origin (s_id snap) (expiry_unix snap, json) (view r) of
      None \<Rightarrow> (\<exists>e. outcome = Failed e) \<and> view r' = view r
    | Some m \<Rightarrow> outcome = Stored \<and> view r' = m \<or>
        (\<exists>e. outcome = Failed e) \<and> (view r' = view r \<or> view r' = m)"
proof -
  have "put_result (\<lambda>m. m = view r)
      (\<lambda>m. conditional_write origin (s_id snap) (expiry_unix snap, json) (view r) = Some m)
      outcome (view (snd (h', r')))"
    by (rule sql_put_atomic[OF assms]) simp_all
  then show ?thesis
    by (cases "conditional_write origin (s_id snap) (expiry_unix snap, json) (view r)")
       (auto simp: put_result_def)
qed

subsection \<open>Rotation\<close>

text \<open>
  C3: a rotation is atomic. If nobody else writes the two rows, then however the save ends,
  whichever requests and answers are lost and whatever other tasks do, the old row is
  unchanged and the new one absent, or the old one is gone and the new one holds the
  session; both are gone only if the session has been destroyed meanwhile, and a success
  means that the new row is there.
\<close>
theorem sql_rotation_atomic:
  assumes laws: "sql_laws dl (sq_table st) (sq_pool st) view log"
    and call: "sql_store_session c dl st ij net s (h, r) = (Ready res, (h', r'))"
    and rotation: "persistence_origin s h = Inr (Some old_id)" "old_id \<noteq> s_id s"
    and others: "\<And>n w i. i \<in> {old_id, s_id s} \<Longrightarrow> view (snd (ij n w)) i = view (snd w) i"
    and kept: "\<And>n w. is_destroyed s (fst w) \<Longrightarrow> is_destroyed s (fst (ij n w))"
    and start: "view r old_id = Some row" "view r (s_id s) = None"
  shows "view r' old_id = Some row \<and> view r' (s_id s) = None \<and> (\<exists>e. res = Inl e) \<or>
    view r' old_id = None \<and> (\<exists>json. view r' (s_id s) = Some (expiry_unix s, json)) \<or>
    view r' old_id = None \<and> view r' (s_id s) = None \<and> is_destroyed s h' \<and> (\<exists>e. res = Inl e)"
proof -
  define Q I where "Q m \<longleftrightarrow> m old_id = Some row \<and> m (s_id s) = None"
    and "I m \<longleftrightarrow> m old_id = None \<and> (\<exists>json. m (s_id s) = Some (expiry_unix s, json))" for m :: sql_rows
  have same: "view (snd (ij n w)) old_id = view (snd w) old_id"
      "view (snd (ij n w)) (s_id s) = view (snd w) (s_id s)" for n w
    using others by simp_all
  have keep: "Q (view (snd (ij n w))) = Q (view (snd w))" "I (view (snd (ij n w))) = I (view (snd w))" for n w
    by (simp_all add: Q_def I_def same)
  have start': "Q (view r)" using start by (simp add: Q_def)
  have put: "put_result Q I outcome (view (snd w'))"
    if "persistence_origin s h = Inr origin" "s_id snap = s_id s" "s_expiry snap = s_expiry s"
      "Q (view (snd w))" "sql_put dl st ij net origin snap json w = (outcome, w')"
    for origin snap json w outcome w'
  proof (rule sql_put_atomic[where Q = Q and I = I and view = view, OF laws that(5,4)])
    show "I m'" if "Q m" "conditional_write origin (s_id snap) (expiry_unix snap, json) m = Some m'" for m m'
      using that \<open>persistence_origin s h = Inr origin\<close> \<open>s_id snap = s_id s\<close> \<open>s_expiry snap = s_expiry s\<close> rotation
      by (auto simp: Q_def I_def expiry_unix_def conditional_write_def split: if_splits)
  qed (simp add: keep)
  have undone: "view r' old_id = None \<and> ((\<exists>json. view r' (s_id s) = Some (expiry_unix s, json)) \<or>
      view r' (s_id s) = None \<and> is_destroyed s h8)"
    if "I (view (snd w))" "is_destroyed s (fst w)" "sql_delete dl st ij net 8 (s_id s) w = (ack, (h8, r'))"
    for w ack h8
    using sql_delete_result[OF laws that(3)] sql_delete_heap[OF that(3)] kept[OF that(2), of 8] rotation(2)
      that(1) keep(2)[of 8 w] by (auto simp: I_def)
  from call[unfolded sql_store_session_def] have "Q (view r') \<and> (\<exists>e. res = Inl e) \<or> I (view r') \<or>
      view r' old_id = None \<and> view r' (s_id s) = None \<and> is_destroyed s h' \<and> (\<exists>e. res = Inl e)"
  proof (rule remote_store_outcome[where Q = "\<lambda>r. Q (view r)" and R = "\<lambda>outcome r. put_result Q I outcome (view r)"])
    show "put_result Q I outcome (view (snd w'))"
      if "persistence_origin s h = Inr origin" "s_id snap = s_id s" "s_expiry snap = s_expiry s"
        "\<exists>k. wc_to_json c (wire_of snap k) = Inr json" "Q (view (snd w))"
        "sql_put dl st ij net origin snap json w = (outcome, w')" for origin snap json w outcome w'
      using put that by blast
    show ?thesis if "put_result Q I Stored (view (snd w))" "is_destroyed s (fst w)"
        "sql_delete dl st ij net 8 (s_id s) w = (ack, (h8, r'))" "is_destroyed s h' = is_destroyed s h8"
        "res = Inl e" for w ack h8 e
      using undone[OF _ that(2,3)] that(1,4,5) by (auto simp: put_result_def I_def)
  qed (use start' keep in \<open>auto simp: put_result_def split: write_outcome.splits\<close>)
  then show ?thesis by (auto simp: Q_def I_def)
qed

end
