(* ===== verification/Sql_Reference.thy ===== *)
theory Sql_Reference
  imports Sql_Facts
begin

text \<open>
  A database that keeps the laws of \<open>Sql_Facts\<close> for the three dialects and every table: rows
  are a list, a transaction is the log of its statements, which a commit runs again. The
  witnesses of the properties of the SQL stores use it.
\<close>

type_synonym sql_table = "(string \<times> i64 option \<times> string) list"

definition option_of_sql :: "sql_value \<Rightarrow> i64 option" where
  "option_of_sql v = (case v of SInt i \<Rightarrow> Some i | _ \<Rightarrow> None)"

lemma option_of_sql [simp]: "option_of_sql (sql_of_option v) = v"
  by (simp add: option_of_sql_def sql_of_option_def split: option.split)

definition ref_delete :: "string list \<Rightarrow> sql_table \<Rightarrow> sql_table" where
  "ref_delete ids tb = filter (\<lambda>e. fst e \<notin> set ids) tb"

lemma map_of_ref_delete [simp]: "map_of (ref_delete ids tb) = map_of tb |` (- set ids)"
  by (induction tb) (auto simp: ref_delete_def restrict_map_def fun_eq_iff)

definition ref_expired :: "i64 \<Rightarrow> sql_table \<Rightarrow> string list" where
  "ref_expired now tb =
     filter (\<lambda>i. case map_of tb i of Some (Some e, _) \<Rightarrow> sint e < sint now | _ \<Rightarrow> False)
       (remdups (map fst tb))"

definition ref_oldest :: "i64 \<Rightarrow> i64 \<Rightarrow> sql_table \<Rightarrow> string list" where
  "ref_oldest now limit tb = take (unat limit) (sort_key (row_expiry (map_of tb)) (ref_expired now tb))"

definition ref_sql ::
  "sql_dialect \<Rightarrow> string \<Rightarrow> string \<Rightarrow> sql_value list \<Rightarrow> sql_table \<Rightarrow> (sqlx_error + nat) \<times> sql_table" where
  "ref_sql dl table sql binds tb =
     (if sql = dl_insert dl table then
        (case binds of
           [SText i, v, SText json] \<Rightarrow>
             if map_of tb i = None then (Inr 1, (i, option_of_sql v, json) # tb)
             else (Inl (Database True 1062), tb)
         | _ \<Rightarrow> (Inl (Database False 0), tb))
      else if sql = dl_update dl table then
        (case binds of
           [v, SText json, SText i] \<Rightarrow>
             if map_of tb i = None then (Inr 0, tb)
             else (Inr 1, (i, option_of_sql v, json) # ref_delete [i] tb)
         | _ \<Rightarrow> (Inl (Database False 0), tb))
      else if sql = dl_delete dl table then
        (case binds of
           [SText i] \<Rightarrow> (Inr (if map_of tb i = None then 0 else 1), ref_delete [i] tb)
         | _ \<Rightarrow> (Inl (Database False 0), tb))
      else if sql = dl_cleanup dl table then
        (case (hd binds, last binds) of
           (SInt now, SInt limit) \<Rightarrow>
             (Inr (length (ref_oldest now limit tb)), ref_delete (ref_oldest now limit tb) tb)
         | _ \<Rightarrow> (Inl (Database False 0), tb))
      else if sql = sql_clear_text table then (Inr (length tb), [])
      else (Inl (Database False 0), tb))"

definition reference_sql :: "sql_dialect \<Rightarrow> string \<Rightarrow> (sql_table, sql_log) sql_server" where
  "reference_sql dl table =
     \<lparr>sq_execute = ref_sql dl table,
      sq_fetch_text = (\<lambda>sql binds tb.
         case binds of
           [SText i, SInt now] \<Rightarrow>
             (case map_of tb i of None \<Rightarrow> None
              | Some (exp, json) \<Rightarrow>
                  if (case exp of None \<Rightarrow> True | Some e \<Rightarrow> sint now \<le> sint e) then Some json else None)
         | _ \<Rightarrow> None),
      sq_fetch_int = (\<lambda>sql tb. int (length (remdups (map fst tb)))),
      sq_begin = (\<lambda>tb. ([], tb)),
      sq_tx_execute = (\<lambda>sql binds (log, tb).
         case sql_replay (ref_sql dl table) log tb of
           None \<Rightarrow> (Inl (Database False 0), (log, tb))
         | Some tb1 \<Rightarrow>
             (case fst (ref_sql dl table sql binds tb1) of
                Inl e \<Rightarrow> (Inl e, (log, tb))
              | Inr n \<Rightarrow> (Inr n, (log @ [(sql, binds, n)], tb)))),
      sq_commit = (\<lambda>log tb.
         case sql_replay (ref_sql dl table) log tb of
           None \<Rightarrow> (Inl (Database False 0), tb)
         | Some tb1 \<Rightarrow> (Inr (), tb1)),
      sq_rollback = (\<lambda>log tb. tb)\<rparr>"

subsection \<open>The laws\<close>

definition texts_distinct :: "sql_dialect \<Rightarrow> string \<Rightarrow> bool" where
  "texts_distinct dl table \<longleftrightarrow>
     distinct [dl_insert dl table, dl_update dl table, dl_delete dl table, dl_cleanup dl table,
       sql_clear_text table] \<and>
     (\<forall>now limit. hd (dl_cleanup_binds dl now limit) = SInt now \<and>
        last (dl_cleanup_binds dl now limit) = SInt limit)"

lemma dialects_distinct:
  "texts_distinct postgres table" "texts_distinct sqlite table" "texts_distinct mysql table"
  by (simp_all add: texts_distinct_def postgres_def sqlite_def mysql_def sql_clear_text_def)

lemma set_ref_expired: "set (ref_expired now tb) = rows_expired now (map_of tb)"
proof (rule set_eqI)
  fix i
  show "i \<in> set (ref_expired now tb) \<longleftrightarrow> i \<in> rows_expired now (map_of tb)"
  proof (cases "map_of tb i")
    case None
    then show ?thesis by (simp add: ref_expired_def rows_expired_def)
  next
    case (Some row)
    then have "i \<in> set (map fst tb)" by (force dest: map_of_SomeD)
    then show ?thesis
      using Some by (cases row; cases "fst row") (auto simp: ref_expired_def rows_expired_def)
  qed
qed

lemma ref_oldest_expired: "oldest_expired now limit (map_of tb) (set (ref_oldest now limit tb))"
proof -
  let ?f = "row_expiry (map_of tb)"
  define xs where "xs = sort_key ?f (ref_expired now tb)"
  have xs: "set xs = rows_expired now (map_of tb)" "distinct xs" "sorted (map ?f xs)"
    by (simp_all add: xs_def set_ref_expired) (simp add: ref_expired_def)
  have split: "xs = take (unat limit) xs @ drop (unat limit) xs" by simp
  have "?f i \<le> ?f j" if "i \<in> set (take (unat limit) xs)" "j \<in> set xs - set (take (unat limit) xs)" for i j
  proof -
    have "j \<in> set (drop (unat limit) xs)"
      using that(2) split by (metis DiffE UnE set_append)
    moreover have "sorted (map ?f (take (unat limit) xs) @ map ?f (drop (unat limit) xs))"
      using xs(3) by (simp flip: map_append)
    ultimately show ?thesis using that(1) by (auto simp: sorted_append)
  qed
  then show ?thesis
    unfolding oldest_expired_def ref_oldest_def xs_def[symmetric] xs(1)[symmetric]
    using xs(2) set_take_subset[of "unat limit" xs]
    by (auto simp: distinct_card min_def)
qed

lemma reference_count_rows: "length (remdups (map fst tb)) = card (dom (map_of tb))"
  by (simp add: length_remdups_card_conv dom_map_of_conv_image_fst)

lemma sql_replay_snoc:
  "sql_replay exec (log @ [(sql, binds, n)]) r =
   (case sql_replay exec log r of None \<Rightarrow> None | Some r1 \<Rightarrow> sql_replay exec [(sql, binds, n)] r1)"
  by (induction exec log r rule: sql_replay.induct) (auto split: sum.splits prod.splits)

lemma reference_row_laws:
  assumes "texts_distinct dl table"
  shows "sql_row_laws dl table (reference_sql dl table) map_of"
  using assms
  by (auto simp: sql_row_laws_def reference_sql_def ref_sql_def texts_distinct_def fun_eq_iff
      restrict_map_def)

lemma reference_table_laws:
  assumes "texts_distinct dl table"
  shows "sql_table_laws dl table (reference_sql dl table) map_of"
proof -
  have clean: "ref_sql dl table (dl_cleanup dl table) (dl_cleanup_binds dl now limit) tb =
      (Inr (length (ref_oldest now limit tb)), ref_delete (ref_oldest now limit tb) tb)" for now limit tb
    using assms by (auto simp: ref_sql_def texts_distinct_def)
  have dist: "distinct (ref_oldest now limit tb)" for now limit tb
    by (simp add: ref_oldest_def ref_expired_def)
  have "\<exists>S. oldest_expired now limit (map_of tb) S \<and>
      fst (ref_sql dl table (dl_cleanup dl table) (dl_cleanup_binds dl now limit) tb) = Inr (card S) \<and>
      map_of (snd (ref_sql dl table (dl_cleanup dl table) (dl_cleanup_binds dl now limit) tb)) =
        map_of tb |` (- S)" for now limit tb
    using ref_oldest_expired[of now limit tb] distinct_card[OF dist[of now limit tb]] unfolding clean
    by (intro exI[of _ "set (ref_oldest now limit tb)"]) simp
  moreover have "map_of (snd (ref_sql dl table (sql_clear_text table) [] tb)) = Map.empty" for tb
    using assms by (auto simp: ref_sql_def texts_distinct_def)
  ultimately show ?thesis
    by (simp add: sql_table_laws_def reference_sql_def reference_count_rows finite_dom_map_of)
qed

lemma reference_tx_laws: "sql_tx_laws (reference_sql dl table) map_of id"
  by (auto simp: sql_tx_laws_def reference_sql_def split: option.splits sum.splits)

lemma reference_sql_laws:
  "dl \<in> {postgres, sqlite, mysql} \<Longrightarrow> sql_laws dl table (reference_sql dl table) map_of id"
  using dialects_distinct[of table]
  by (auto simp: sql_laws_def intro: reference_row_laws reference_table_laws reference_tx_laws)

end
