(* ===== verification/Sql_Load.thy ===== *)
theory Sql_Load
  imports Sql_Reference
begin

text \<open>
  Expiry in the SQL stores, whose column only has whole seconds: every row carries the
  seconds of the expiry that its text has, so that the filter of the query never changes
  the result of a load and cleanup never removes a live session.
\<close>

subsection \<open>Whole seconds\<close>

definition in_range :: "datetime \<Rightarrow> bool" where
  "in_range e \<longleftrightarrow> datetime_min \<le> e \<and> e \<le> datetime_max"

lemma sint_unix_timestamp:
  assumes "in_range e"
  shows "sint (unix_timestamp e) = e div nanos_per_sec"
proof -
  have "datetime_min div nanos_per_sec \<le> e div nanos_per_sec"
      "e div nanos_per_sec \<le> datetime_max div nanos_per_sec"
    using assms by (simp_all add: in_range_def zdiv_mono1)
  then have "- (2 ^ 63) \<le> e div nanos_per_sec" "e div nanos_per_sec < 2 ^ 63"
    by (simp_all add: datetime_min_def datetime_max_def)
  then show ?thesis
    unfolding unix_timestamp_def by (rule sint_i64)
qed

lemma unix_timestamp_less:
  assumes "in_range a" "in_range b" and "sint (unix_timestamp a) < sint (unix_timestamp b)"
  shows "a < b"
proof (rule ccontr)
  assume "\<not> a < b"
  then have "b div nanos_per_sec \<le> a div nanos_per_sec" by (intro zdiv_mono1) simp_all
  then show False using assms by (simp add: sint_unix_timestamp)
qed

subsection \<open>Well-formed rows\<close>

text \<open>The text decodes to a session with the row's id, and the column has the seconds of its expiry.\<close>

definition row_wf :: "codec \<Rightarrow> string \<Rightarrow> i64 option \<times> string \<Rightarrow> bool" where
  "row_wf c i row \<longleftrightarrow>
     (\<exists>expiry vs. wc_from_json c (snd row) = Inr (i, expiry, vs) \<and>
        fst row = map_option unix_timestamp expiry \<and>
        (case expiry of None \<Rightarrow> True | Some e \<Rightarrow> in_range e))"

definition rows_wf :: "codec \<Rightarrow> sql_rows \<Rightarrow> bool" where
  "rows_wf c m \<longleftrightarrow> (\<forall>i row. m i = Some row \<longrightarrow> row_wf c i row)"

lemma rows_wf_write:
  "rows_wf c m \<Longrightarrow> row_wf c t row \<Longrightarrow> conditional_write origin t row m = Some m' \<Longrightarrow> rows_wf c m'"
  by (auto simp: rows_wf_def conditional_write_def split: option.splits if_splits)

lemma rows_wf_delete: "rows_wf c m \<Longrightarrow> rows_wf c (m(i := None))"
  by (simp add: rows_wf_def)

text \<open>
  C37: every save keeps the table well formed, whatever faults occur and whatever other
  clients do that keep it well formed: each row's text decodes to a session with the row's
  id, and its column has the seconds of that session's expiry.
\<close>
theorem sql_save_keeps_rows_wf:
  assumes laws: "sql_laws dl (sq_table st) (sq_pool st) view log" and codec: "codec_laws c"
    and call: "sql_store_session c dl st ij net s (h, r) = (Ready res, (h', r'))"
    and others: "\<And>n w. rows_wf c (view (snd w)) \<Longrightarrow> rows_wf c (view (snd (ij n w)))"
    and range: "case s_expiry s of None \<Rightarrow> True | Some e \<Rightarrow> in_range e"
    and start: "rows_wf c (view r)"
  shows "rows_wf c (view r')"
proof (rule remote_store_preserves[where Q = "\<lambda>r. rows_wf c (view r)" and I = "\<lambda>r. rows_wf c (view r)",
      OF call[unfolded sql_store_session_def] start _ others others])
  fix origin json and snap :: session and w :: "'a remote"
  assume snap: "s_id snap = s_id s" "s_expiry snap = s_expiry s"
    and json: "\<exists>k. wc_to_json c (wire_of snap k) = Inr json" and wf: "rows_wf c (view (snd w))"
  obtain k where "wc_to_json c (wire_of snap k) = Inr json" using json by blast
  then have "row_wf c (s_id snap) (expiry_unix snap, json)"
    using codec_lawsD(5)[OF codec] range by (simp add: row_wf_def wire_of_def expiry_unix_def snap)
  then have step: "rows_wf c m'" if "rows_wf c m"
    "conditional_write origin (s_id snap) (expiry_unix snap, json) m = Some m'" for m m'
    using rows_wf_write that by blast
  obtain outcome w' where run: "sql_put dl st ij net origin snap json w = (outcome, w')"
    by (rule prod.exhaust)
  have "put_result (rows_wf c) (rows_wf c) outcome (view (snd w'))"
    by (rule sql_put_atomic[OF laws run wf others step])
  then show "rows_wf c (view (snd (snd (sql_put dl st ij net origin snap json w))))"
    by (auto simp: run put_result_def)
next
  fix w :: "'a remote"
  assume wf: "rows_wf c (view (snd w))"
  obtain res w' where run: "sql_delete dl st ij net 8 (s_id s) w = (res, w')"
    by (rule prod.exhaust)
  then show "rows_wf c (view (snd (snd (sql_delete dl st ij net 8 (s_id s) w))))"
    using sql_delete_result[OF laws run] others[OF wf, of 8] rows_wf_delete by auto
qed simp_all

subsection \<open>The filter of the query\<close>

text \<open>The load without the filter: the row's text, whenever there is a row.\<close>

definition sql_unfiltered :: "('r \<Rightarrow> sql_rows) \<Rightarrow> string \<Rightarrow> 'r remote \<Rightarrow> (error + string option) \<times> 'r remote" where
  "sql_unfiltered view ident w = (Inr (map_option snd (view (snd w) ident)), w)"

text \<open>
  C29: on a well-formed table the filter \<open>expires IS NULL OR expires >= now\<close> on whole seconds
  never changes what a load returns: it is the result of reading the row unconditionally
  and checking the exact expiry of the text afterwards.
\<close>
theorem sql_expiry_filter_exact:
  assumes laws: "sql_laws dl (sq_table st) (sq_pool st) view log" and wf: "rows_wf c (view r)"
    and clock: "in_range now1" "now1 \<le> now2"
  shows "fst (sql_load_session p c dl st undisturbed (\<lambda>k. Delivered) now1 now2 cookie (h, r)) =
    fst (remote_load_session p c (sql_unfiltered view) now2 cookie (h, r))"
proof (cases "id_from_cookie_value p cookie")
  case (Inl e)
  then show ?thesis by (simp add: sql_load_session_def remote_load_session_def)
next
  case (Inr ident)
  note select = sql_row_lawsD(7)[OF laws, of ident "unix_timestamp now1" r]
  show ?thesis
  proof (cases "view r ident")
    case None
    then show ?thesis
      using Inr select by (simp add: sql_load_session_def remote_load_session_def sql_lookup_def sql_unfiltered_def)
  next
    case (Some row)
    then obtain expiry vs where row: "wc_from_json c (snd row) = Inr (ident, expiry, vs)"
        "fst row = map_option unix_timestamp expiry" "case expiry of None \<Rightarrow> True | Some e \<Rightarrow> in_range e"
      using wf unfolding rows_wf_def row_wf_def by blast
    show ?thesis
    proof (cases "case fst row of None \<Rightarrow> True | Some e \<Rightarrow> sint (unix_timestamp now1) \<le> sint e")
      case True
      then have "sq_fetch_text (sq_pool st) (dl_select dl (sq_table st))
          [SText ident, SInt (unix_timestamp now1)] r = Some (snd row)"
        using select Some by (simp add: split_beta)
      then show ?thesis
        using Inr Some by (simp add: sql_load_session_def remote_load_session_def sql_lookup_def sql_unfiltered_def)
    next
      case False
      then obtain e where e: "expiry = Some e" "sint (unix_timestamp e) < sint (unix_timestamp now1)"
        using row(2) by (cases expiry) auto
      have "e < now2"
        using unix_timestamp_less[of e now1] e row(3) clock by simp
      then have dead: "is_expired now2 (fst (session_of_wire (ident, expiry, vs) h))"
        by (simp add: is_expired_def e(1))
      have "sq_fetch_text (sq_pool st) (dl_select dl (sq_table st))
          [SText ident, SInt (unix_timestamp now1)] r = None"
        using select Some False by (simp add: split_beta)
      then show ?thesis
        using Inr Some row(1) dead
        by (simp add: sql_load_session_def remote_load_session_def sql_lookup_def sql_unfiltered_def
            validate_loaded_def Let_def split_beta)
    qed
  qed
qed

subsection \<open>Cleanup\<close>

text \<open>
  C36: a cleanup batch is one statement, and whatever other clients do before it and
  whatever becomes of its answer: if the table is well formed when the statement runs, it
  removes no session that is live at the clock reading, changes no other row and removes at
  most the requested number of rows. An answer reports exactly how many were removed, and an
  expired second is left only if the batch was full; without an answer the call fails with
  the backend's error. A limit outside 1 to 10000 is refused before any request.
\<close>
theorem sql_cleanup_keeps_live:
  assumes laws: "sql_laws dl (sq_table st) (sq_pool st) view log"
    and turn: "ij 0 (h, r) = (h1, r1)" and wf: "rows_wf c (view r1)" and clock: "in_range now"
  shows "if 1 \<le> limit \<and> limit \<le> 10000
    then \<exists>res r'. sql_cleanup_batch dl st ij net now limit (h, r) = (res, (h1, r')) \<and>
      card (dom (view r1) - dom (view r')) \<le> unat limit \<and>
      (case res of
         Inr n \<Rightarrow> n = card (dom (view r1) - dom (view r')) \<and>
           (n < unat limit \<longrightarrow> rows_expired (unix_timestamp now) (view r') = {})
       | Inl e \<Rightarrow> e = BackendFailure \<and> net 0 \<noteq> Delivered) \<and>
      (\<forall>i. view r' i = view r1 i \<or> view r' i = None \<and>
         (\<exists>e json vs. view r1 i = Some (Some (unix_timestamp e), json) \<and>
            wc_from_json c json = Inr (i, Some e, vs) \<and> e < now))
    else sql_cleanup_batch dl st ij net now limit (h, r) = (Inl BatchLimit, (h, r))"
proof (cases "1 \<le> limit \<and> limit \<le> 10000")
  case False
  then show ?thesis
    by (auto simp: sql_cleanup_batch_def sql_cleanup_limit_def MAX_CLEANUP_BATCH_SIZE_def)
next
  case True
  let ?lim = "ucast limit :: i64" and ?now = "unix_timestamp now"
  let ?x = "sq_execute (sq_pool st) (dl_cleanup dl (sq_table st)) (dl_cleanup_binds dl ?now ?lim) r1"
  have "unat limit < 2 ^ 32"
    using unsigned_less[of limit, where ?'a = nat] by simp
  then have lim: "unat ?lim = unat limit"
    by (simp add: unsigned_ucast_eq take_bit_nat_eq_self)
  obtain S where S: "oldest_expired ?now ?lim (view r1) S" "fst ?x = Inr (card S)" "view (snd ?x) = view r1 |` (- S)"
    using sql_table_lawsD(2)[OF laws] by blast
  have sub: "S \<subseteq> rows_expired ?now (view r1)" and most: "card S \<le> unat limit"
    using S(1) lim by (simp_all add: oldest_expired_def)
  have dead: "dom (view r1) - dom (view (snd ?x)) = S"
    using sub by (auto simp: S(3) rows_expired_def restrict_map_def split: if_splits)
  have fin: "finite (rows_expired ?now (view r1))"
    using sql_table_lawsD(1)[OF laws, of r1]
    by (rule finite_subset[rotated]) (auto simp: rows_expired_def)
  have all: "rows_expired ?now (view (snd ?x)) = {}" if "card S < unat limit"
  proof -
    have "card S = card (rows_expired ?now (view r1))"
      using S(1) that lim by (auto simp: oldest_expired_def min_def split: if_splits)
    then have "S = rows_expired ?now (view r1)" using sub card_subset_eq[OF fin] by blast
    then show ?thesis by (auto simp: S(3) rows_expired_def restrict_map_def split: if_splits)
  qed
  have gone: "\<exists>e json vs. view r1 i = Some (Some (unix_timestamp e), json) \<and>
      wc_from_json c json = Inr (i, Some e, vs) \<and> e < now" if mem: "i \<in> S" for i
  proof -
    obtain v json where v: "view r1 i = Some (Some v, json)" "sint v < sint ?now"
      using sub mem by (auto simp: rows_expired_def)
    have "row_wf c i (Some v, json)"
      using wf v(1) unfolding rows_wf_def by blast
    then obtain e vs where "wc_from_json c json = Inr (i, Some e, vs)" "v = unix_timestamp e" "in_range e"
      by (auto simp: row_wf_def map_option_case split: option.splits)
    then show ?thesis using v unix_timestamp_less[OF _ clock] by blast
  qed
  have rows: "view (snd ?x) i = view r1 i \<or> view (snd ?x) i = None \<and>
      (\<exists>e json vs. view r1 i = Some (Some (unix_timestamp e), json) \<and>
         wc_from_json c json = Inr (i, Some e, vs) \<and> e < now)" for i
    using gone[of i] S(3) by (cases "i \<in> S") (simp_all add: restrict_map_def)
  have call: "sql_cleanup_batch dl st ij net now limit (h, r) =
      (if net 0 = Delivered then Inr (card S) else Inl BackendFailure,
       (h1, if net 0 = Lost then r1 else snd ?x))"
    using True S(2)
    by (cases "net 0") (simp_all add: sql_cleanup_batch_def sql_cleanup_limit_def MAX_CLEANUP_BATCH_SIZE_def
      sql_request_def remote_call_def transmit_def turn split_beta Let_def)
  show ?thesis
    unfolding if_P[OF True] call using all rows most dead by (cases "net 0") simp_all
qed

end
