(* ===== verification/Sql_Protocol.thy ===== *)
theory Sql_Protocol
  imports Sql_Load
begin

text \<open>
  The SQL stores as providers of the contracts of the remote stores, with their witnesses on
  the reference database: fenced creations, round trips and final deletions.
\<close>

subsection \<open>An example store\<close>

definition example_sql :: "(sql_table, sql_log) sql_store" where
  "example_sql = sql_with_table ''s'' (sql_new (reference_sql sqlite ''s''))"

lemma example_sql_sel [simp]: "sq_table example_sql = ''s''" "sq_pool example_sql = reference_sql sqlite ''s''"
  by (simp_all add: example_sql_def sql_with_table_def sql_new_def)

lemma example_sql_laws: "sql_laws sqlite (sq_table example_sql) (sq_pool example_sql) map_of id"
  using reference_sql_laws[of sqlite "''s''"] by simp

lemma reference_sql_sel [simp]:
  "sq_execute (reference_sql dl table) = ref_sql dl table" "sq_begin (reference_sql dl table) tb = ([], tb)"
  "sq_rollback (reference_sql dl table) log tb = tb"
  by (simp_all add: reference_sql_def)

definition lost_commit :: network where
  "lost_commit k = (if k = 7 then ReplyLost else Delivered)"

theorem sql_write_refines_contract_witness:
  "\<exists>outcome h' r'. sql_put sqlite example_sql undisturbed lost_commit (Some ''a'') rotated_session ''j''
      (example_heap, [(''a'', None, ''t'')]) = (outcome, (h', r')) \<and>
    (map_of r' = [''b'' \<mapsto> (None, ''j'')] \<or> map_of r' = [''a'' \<mapsto> (None, ''t'')])"
proof -
  obtain outcome h' r' where run: "sql_put sqlite example_sql undisturbed lost_commit (Some ''a'')
      rotated_session ''j'' (example_heap, [(''a'', None, ''t'')]) = (outcome, (h', r'))"
    by (metis surj_pair)
  have "conditional_write (Some ''a'') (s_id rotated_session) (expiry_unix rotated_session, ''j'')
      (map_of [(''a'', None, ''t'')]) = Some [''b'' \<mapsto> (None, ''j'')]"
    by (auto simp: conditional_write_def rotated_session_def example_session_def expiry_unix_def)
  then have "map_of r' = [''b'' \<mapsto> (None, ''j'')] \<or> map_of r' = map_of [(''a'', None, ''t'')]"
    using sql_write_refines_contract[OF example_sql_laws run] by auto
  with run show ?thesis by auto
qed

text \<open>Every save of the two example sessions runs to its end on the example store.\<close>

lemma example_saves_end:
  "\<exists>res h' r'. sql_store_session reference_codec sqlite example_sql undisturbed net fresh_session
     (fresh_heap, tb) = (Ready res, (h', r'))"
  "\<exists>res h' r'. sql_store_session reference_codec sqlite example_sql undisturbed net rotated_session
     (example_heap, tb) = (Ready res, (h', r'))"
  by (simp_all add: sql_store_session_def remote_store_session_def persistence_attempt_def session_defs
      Let_def split_beta begin_backend_write_def begin_guarded_write_def lifecycle_write_def
      persistence_origin_def fresh_session_def rotated_session_def example_session_def wire_of_def
      reference_codec_def ref_encode_def split: write_outcome.split sum.split)

theorem sql_rotation_atomic_witness:
  "\<exists>res h' r'. sql_store_session reference_codec sqlite example_sql undisturbed lost_commit rotated_session
      (example_heap, [(''a'', None, ''t'')]) = (Ready res, (h', r')) \<and>
    (map_of r' ''a'' = None \<or> map_of r' ''b'' = None)"
proof -
  let ?tb = "[(''a'', None, ''t'')] :: sql_table"
  obtain res h' r' where run: "sql_store_session reference_codec sqlite example_sql undisturbed lost_commit
      rotated_session (example_heap, ?tb) = (Ready res, (h', r'))"
    using example_saves_end(2) by blast
  have rows: "map_of ?tb ''a'' = Some (None, ''t'')" "map_of ?tb (s_id rotated_session) = None"
    by (simp_all add: rotated_session_facts)
  have "map_of r' ''a'' = None \<or> map_of r' (s_id rotated_session) = None"
    using sql_rotation_atomic[OF example_sql_laws run rotated_session_facts(1,2) _ _ rows] by auto
  with run show ?thesis by (auto simp: rotated_session_facts)
qed

theorem sql_save_keeps_rows_wf_witness:
  "\<exists>res h' r'. sql_store_session reference_codec sqlite example_sql undisturbed (\<lambda>k. ReplyLost) fresh_session
      (fresh_heap, []) = (Ready res, (h', r')) \<and> rows_wf reference_codec (map_of r')"
proof -
  obtain res h' r' where run: "sql_store_session reference_codec sqlite example_sql undisturbed
      (\<lambda>k. ReplyLost) fresh_session (fresh_heap, []) = (Ready res, (h', r'))"
    using example_saves_end(1) by blast
  have "rows_wf reference_codec (map_of r')"
    using sql_save_keeps_rows_wf[OF example_sql_laws reference_codec_laws run]
    by (simp add: rows_wf_def fresh_session_def example_session_def)
  with run show ?thesis by blast
qed

text \<open>A row that expires five nanoseconds after the epoch.\<close>

lemma example_row:
  obtains json where "rows_wf reference_codec (map_of [(reference_id, Some (unix_timestamp 5), json)])"
proof -
  obtain json where "wc_to_json reference_codec (reference_id, Some 5, Map.empty) = Inr json"
    by (simp add: reference_codec_def ref_encode_def)
  then have "rows_wf reference_codec (map_of [(reference_id, Some (unix_timestamp 5), json)])"
    using codec_lawsD(5)[OF reference_codec_laws]
    by (simp add: rows_wf_def row_wf_def in_range_def datetime_min_def datetime_max_def)
  then show ?thesis by (rule that)
qed

lemma ten_seconds: "in_range 10000000000"
  by (simp add: in_range_def datetime_min_def datetime_max_def)

theorem sql_expiry_filter_exact_witness:
  "\<exists>json. fst (sql_load_session reference reference_codec sqlite example_sql undisturbed (\<lambda>k. Delivered)
      10000000000 10000000000 reference_cookie (example_heap, [(reference_id, Some (unix_timestamp 5), json)])) =
    fst (remote_load_session reference reference_codec (sql_unfiltered map_of) 10000000000 reference_cookie
      (example_heap, [(reference_id, Some (unix_timestamp 5), json)]))"
proof -
  obtain json where wf: "rows_wf reference_codec (map_of [(reference_id, Some (unix_timestamp 5), json)])"
    by (rule example_row)
  show ?thesis
    using sql_expiry_filter_exact[OF example_sql_laws wf ten_seconds, of 10000000000 reference
        reference_cookie example_heap] by auto
qed

theorem sql_cleanup_keeps_live_witness:
  "\<exists>json r'. sql_cleanup_batch sqlite example_sql undisturbed (\<lambda>k. ReplyLost) 10000000000 1
      (example_heap, [(reference_id, Some (unix_timestamp 5), json)]) = (Inl BackendFailure, (example_heap, r')) \<and>
    card (dom (map_of [(reference_id, Some (unix_timestamp 5), json)]) - dom (map_of r')) \<le> 1"
proof -
  obtain json where wf: "rows_wf reference_codec (map_of [(reference_id, Some (unix_timestamp 5), json)])"
    by (rule example_row)
  let ?rows = "[(reference_id, Some (unix_timestamp 5), json)]"
  have quiet: "undisturbed 0 (example_heap, ?rows) = (example_heap, ?rows)" by simp
  have "(1 :: 32 word) \<le> 1 \<and> (1 :: 32 word) \<le> 10000" by simp
  from sql_cleanup_keeps_live[where ij = undisturbed and net = "\<lambda>k. ReplyLost" and limit = 1,
      OF example_sql_laws quiet wf ten_seconds, unfolded if_P[OF this]]
  obtain res r' where call: "sql_cleanup_batch sqlite example_sql undisturbed (\<lambda>k. ReplyLost) 10000000000 1
      (example_heap, ?rows) = (res, (example_heap, r'))" "card (dom (map_of ?rows) - dom (map_of r')) \<le> 1"
    by auto
  have "fst (sql_cleanup_batch sqlite example_sql undisturbed (\<lambda>k. ReplyLost) 10000000000 1
      (example_heap, ?rows)) = Inl BackendFailure"
    by (simp add: sql_cleanup_batch_def sql_cleanup_limit_def MAX_CLEANUP_BATCH_SIZE_def
        sql_request_def remote_call_def transmit_def split_beta)
  with call show ?thesis by auto
qed

subsection \<open>The store as a remote backend\<close>

text \<open>A store with the abstraction of its database, a clock reading and its surroundings.\<close>

record ('r, 't) sql_client =
  sc_dialect :: sql_dialect
  sc_store :: "('r, 't) sql_store"
  sc_view :: "'r \<Rightarrow> sql_rows"
  sc_log :: "'t \<Rightarrow> sql_log"
  sc_now :: datetime
  sc_others :: "'r remote interleaving"
  sc_net :: network

definition client_lawful :: "('r, 't) sql_client \<Rightarrow> bool" where
  "client_lawful cl \<longleftrightarrow>
     sql_laws (sc_dialect cl) (sq_table (sc_store cl)) (sq_pool (sc_store cl)) (sc_view cl) (sc_log cl)"

abbreviation sql_putting ::
  "('r, 't) sql_client \<Rightarrow> string option \<Rightarrow> session \<Rightarrow> string \<Rightarrow> 'r remote \<Rightarrow> write_outcome \<times> 'r remote" where
  "sql_putting cl \<equiv> sql_put (sc_dialect cl) (sc_store cl) (sc_others cl) (sc_net cl)"

abbreviation sql_undoing ::
  "('r, 't) sql_client \<Rightarrow> string \<Rightarrow> 'r remote \<Rightarrow> (error + unit) \<times> 'r remote" where
  "sql_undoing cl \<equiv> sql_delete (sc_dialect cl) (sc_store cl) (sc_others cl) (sc_net cl) 8"

text \<open>Nobody else writes the row.\<close>

definition sql_sealed :: "('r, 't) sql_client \<Rightarrow> string \<Rightarrow> bool" where
  "sql_sealed cl t \<longleftrightarrow> client_lawful cl \<and>
     (\<forall>n w. sc_view cl (snd w) t = None \<longrightarrow> sc_view cl (snd (sc_others cl n w)) t = None)"

lemma sql_sealedD:
  "sql_sealed cl t \<Longrightarrow> sc_view cl (snd w) t = None \<Longrightarrow> sc_view cl (snd (sc_others cl n w)) t = None"
  unfolding sql_sealed_def by blast

definition sql_ids :: "('r, 't) sql_client \<Rightarrow> 'r \<Rightarrow> string set" where
  "sql_ids cl r = dom (sc_view cl r)"

interpretation sql: remote_backend sql_putting sql_undoing sql_ids sql_sealed
proof
  fix cl :: "('r, 't) sql_client" and t origin snap json and w w' :: "'r remote"
  assume "sql_sealed cl t"
  then have laws: "sql_laws (sc_dialect cl) (sq_table (sc_store cl)) (sq_pool (sc_store cl))
      (sc_view cl) (sc_log cl)"
    by (simp add: sql_sealed_def client_lawful_def)
  show "t \<notin> sql_ids cl (snd w')" if "sql_putting cl origin snap json w = (Revoked, w')"
    using that sql_put_not_revoked[OF laws] by blast
  show "t \<notin> sql_ids cl (snd w')" if "sql_undoing cl t w = (Inr (), w')"
    using sql_delete_result[OF laws that] by (auto simp: sql_ids_def)
qed

text \<open>The fence around unconfirmed creations, as for the other remote stores.\<close>

lemma sql_failed_creation_is_fenced:
  assumes "sql_store_session c (sc_dialect cl) (sc_store cl) (sc_others cl) (sc_net cl) s (h, r) =
      (Ready (Inl e), (h', r'))"
    and "sql_sealed cl (s_id s)" and "sc_view cl r (s_id s) = None"
    and "persistence_origin s h \<noteq> Inr (Some (s_id s))"
  shows "sc_view cl r' (s_id s) = None \<or>
    ws_uncertain (h_life h' (s_lifecycle s)) \<and> fst (begin_delete_locked s h') \<in> {Pending, Ready (Inl UncertainWrite)}"
proof -
  have others: "s_id s \<notin> sql_ids cl (snd (sc_others cl n w))" if "s_id s \<notin> sql_ids cl (snd w)" for n w
    using sql_sealedD[OF assms(2), of w n] that by (simp only: sql_ids_def domIff not_not)
  have start: "s_id s \<notin> sql_ids cl r" using assms(3) by (simp add: sql_ids_def domIff)
  have "s_id s \<notin> sql_ids cl r' \<or> ws_uncertain (h_life h' (s_lifecycle s))"
    by (rule sql.failed_creation_fenced[OF assms(1)[unfolded sql_store_session_def] assms(2)
          others start assms(4)])
  then show ?thesis
    unfolding sql_ids_def domIff not_not by (auto simp: begin_delete_locked_def lifecycle_delete_def)
qed

subsection \<open>Round trip\<close>

text \<open>Without contention a transaction's statements report what they report on their own, and it commits.\<close>

definition sql_uncontended :: "('r, 't) sql_server \<Rightarrow> ('t \<Rightarrow> sql_log) \<Rightarrow> bool" where
  "sql_uncontended sv log \<longleftrightarrow>
     (\<forall>sql binds t r r1. sql_replay (sq_execute sv) (log t) r = Some r1 \<longrightarrow>
        fst (sq_tx_execute sv sql binds (t, r)) = fst (sq_execute sv sql binds r1)) \<and>
     (\<forall>t r r1. sql_replay (sq_execute sv) (log t) r = Some r1 \<longrightarrow> fst (sq_commit sv t r) = Inr ())"

definition sql_quiet :: "('r, 't) sql_client \<Rightarrow> bool" where
  "sql_quiet cl \<longleftrightarrow> client_lawful cl \<and> sql_uncontended (sq_pool (sc_store cl)) (sc_log cl) \<and>
     sc_others cl = undisturbed \<and> (\<forall>k. sc_net cl k = Delivered)"

text \<open>The conditional write is admitted, and the query's clock is not past the second of the expiry.\<close>

definition sql_admits ::
  "('r, 't) sql_client \<Rightarrow> string option \<Rightarrow> string \<Rightarrow> datetime option \<Rightarrow> 'r \<Rightarrow> bool" where
  "sql_admits cl origin ident expiry r \<longleftrightarrow>
     (\<forall>row. conditional_write origin ident row (sc_view cl r) \<noteq> None) \<and>
     (case expiry of None \<Rightarrow> True | Some e \<Rightarrow> sint (unix_timestamp (sc_now cl)) \<le> sint (unix_timestamp e))"

lemma sql_quiet_rotate:
  assumes laws: "sql_laws dl (sq_table st) (sq_pool st) view log"
    and free: "sql_uncontended (sq_pool st) log" and "src \<noteq> i"
    and admitted: "conditional_write (Some src) i (v, json) (view r) \<noteq> None"
  shows "\<exists>r'. sql_rotate dl st undisturbed (\<lambda>k. Delivered) src i v json (h, r) = (Stored, (h, r'))"
proof -
  let ?sv = "sq_pool st"
  let ?del = "dl_delete dl (sq_table st)" and ?ins = "dl_insert dl (sq_table st)"
  let ?binds = "[SText i, sql_of_option v, SText json]"
  have rows: "view r src \<noteq> None" "view r i = None"
    using admitted assms(3) by (auto simp: conditional_write_def split: if_splits)
  have say: "fst (sq_tx_execute ?sv sql binds (t, q)) = fst (sq_execute ?sv sql binds q1)"
      "fst (sq_commit ?sv t q) = Inr ()"
    if "sql_replay (sq_execute ?sv) (log t) q = Some q1" for sql binds t q q1
    using free that unfolding sql_uncontended_def by blast+
  have exec: "\<exists>q1. sq_execute ?sv ?del [SText src] q = (Inr 1, q1) \<and>
      (\<exists>q2. sq_execute ?sv ?ins ?binds q1 = (Inr 1, q2))" if "view q = view r" for q
  proof -
    obtain q1 where q1: "sq_execute ?sv ?del [SText src] q = (Inr 1, q1)" "view q1 = (view r)(src := None)"
      using sql_row_lawsD(5,6)[OF laws, of src q] rows(1)
      by (cases "sq_execute ?sv ?del [SText src] q") (auto simp: \<open>view q = view r\<close>)
    have "fst (sq_execute ?sv ?ins ?binds q1) = Inr 1"
      using sql_row_lawsD(1)[OF laws, of q1 i v json] rows(2) q1(2) by simp
    then show ?thesis using q1(1) by (cases "sq_execute ?sv ?ins ?binds q1") auto
  qed
  obtain tx r1 where b: "sq_begin ?sv r = (tx, r1)" by (rule prod.exhaust)
  have b1: "log tx = []" "view r1 = view r" using sql_tx_lawsD(1,2)[OF laws, of r] b by auto
  obtain res2 tx2 r2 where d: "sq_tx_execute ?sv ?del [SText src] (tx, r1) = (res2, (tx2, r2))"
    by (metis surj_pair)
  have d1: "res2 = Inr 1" using say(1)[of tx r1 r1 ?del "[SText src]"] exec[OF b1(2)] b1(1) d by auto
  have d2: "log tx2 = [(?del, [SText src], 1)]" "view r2 = view r"
    using sql_tx_lawsD(3,4)[OF laws, of ?del "[SText src]" tx r1] d d1 b1 by auto
  obtain q1 where q1: "sq_execute ?sv ?del [SText src] r2 = (Inr 1, q1)" "\<exists>q2. sq_execute ?sv ?ins ?binds q1 = (Inr 1, q2)"
    using exec[OF d2(2)] by blast
  obtain res3 tx3 r3 where n: "sq_tx_execute ?sv ?ins ?binds (tx2, r2) = (res3, (tx3, r3))"
    by (metis surj_pair)
  have n1: "res3 = Inr 1" using say(1)[of tx2 r2 q1 ?ins ?binds] d2(1) q1 n by auto
  have n2: "log tx3 = [(?del, [SText src], 1), (?ins, ?binds, 1)]" "view r3 = view r"
    using sql_tx_lawsD(3,4)[OF laws, of ?ins ?binds tx2 r2] n n1 d2 by auto
  have "\<exists>q. sql_replay (sq_execute ?sv) (log tx3) r3 = Some q"
    using exec[OF n2(2)] by (auto simp: n2(1))
  then have c: "fst (sq_commit ?sv tx3 r3) = Inr ()" using say(2) by blast
  show ?thesis
    by (simp add: sql_rotate_def sql_tx_request_def transmit_def Let_def b d d1 n n1 c)
qed

lemma sql_quiet_put:
  assumes quiet: "sql_quiet cl"
    and admitted: "conditional_write origin (s_id snap) (expiry_unix snap, json) (sc_view cl r) = Some rows"
  shows "\<exists>r'. sql_putting cl origin snap json (h, r) = (Stored, (h, r')) \<and> sc_view cl r' = rows"
proof -
  let ?st = "sc_store cl" and ?dl = "sc_dialect cl"
  have laws: "sql_laws ?dl (sq_table ?st) (sq_pool ?st) (sc_view cl) (sc_log cl)"
    and o: "sc_others cl = undisturbed" and n: "sc_net cl = (\<lambda>k. Delivered)"
    using quiet by (auto simp: sql_quiet_def client_lawful_def)
  have "\<exists>r'. sql_putting cl origin snap json (h, r) = (Stored, (h, r'))"
  proof (cases "rotation_source origin (s_id snap)")
    case (Some src)
    then have "origin = Some src" "src \<noteq> s_id snap"
      by (auto simp: rotation_source_def split: option.splits if_splits)
    then show ?thesis
      using sql_quiet_rotate[OF laws, of src "s_id snap" "expiry_unix snap" json r h] quiet admitted Some
      by (simp add: sql_put_def Let_def o n sql_quiet_def)
  next
    case None
    then have none: "origin = None \<or> origin = Some (s_id snap)"
      by (auto simp: rotation_source_def split: option.splits if_splits)
    show ?thesis
    proof (cases "origin = None")
      case True
      obtain res r' where x: "sq_execute (sq_pool ?st) (dl_insert ?dl (sq_table ?st))
          [SText (s_id snap), sql_of_option (expiry_unix snap), SText json] r = (res, r')"
        by (rule prod.exhaust)
      then show ?thesis
        using sql_insert_writes[OF laws x] admitted True
        by (auto simp: sql_put_def Let_def rotation_source_def sql_request_def o n)
    next
      case False
      obtain res r' where x: "sq_execute (sq_pool ?st) (dl_update ?dl (sq_table ?st))
          [sql_of_option (expiry_unix snap), SText json, SText (s_id snap)] r = (res, r')"
        by (rule prod.exhaust)
      then show ?thesis
        using sql_update_writes[OF laws x] admitted False none
        by (auto simp: sql_put_def Let_def rotation_source_def sql_request_def o n)
    qed
  qed
  then obtain r' where run: "sql_putting cl origin snap json (h, r) = (Stored, (h, r'))" by blast
  have "put_result (\<lambda>m. m = sc_view cl r) (\<lambda>m. m = rows) Stored (sc_view cl (snd (h, r')))"
    by (rule sql_put_atomic[OF laws run]) (use admitted in \<open>simp_all add: o\<close>)
  then show ?thesis using run by (auto simp: put_result_def)
qed

interpretation sql_records: remote_records
  sql_putting sql_undoing
  "\<lambda>cl. sql_lookup (sc_dialect cl) (sc_store cl) (sc_now cl) (sc_others cl) (sc_net cl)" sql_admits sql_quiet
proof
  fix cl :: "('r, 't) sql_client" and origin json h and snap :: session and r :: 'r
  assume quiet: "sql_quiet cl" and adm: "sql_admits cl origin (s_id snap) (s_expiry snap) r"
  have laws: "sql_laws (sc_dialect cl) (sq_table (sc_store cl)) (sq_pool (sc_store cl)) (sc_view cl) (sc_log cl)"
    and o: "sc_others cl = undisturbed" and n: "sc_net cl k = Delivered" for k
    using quiet by (simp_all add: sql_quiet_def client_lawful_def)
  obtain rows where rows: "conditional_write origin (s_id snap) (expiry_unix snap, json) (sc_view cl r) = Some rows"
    using adm unfolding sql_admits_def by blast
  obtain r' where r': "sql_putting cl origin snap json (h, r) = (Stored, (h, r'))" "sc_view cl r' = rows"
    using sql_quiet_put[OF quiet rows, of h] by blast
  have "sc_view cl r' (s_id snap) = Some (expiry_unix snap, json)"
    using conditional_write_records[OF rows] r'(2) by simp
  then have "sql_lookup (sc_dialect cl) (sc_store cl) (sc_now cl) (sc_others cl) (sc_net cl) (s_id snap) (k, r') =
      (Inr (Some json), (k, r'))" for k
    using adm by (auto simp: sql_lookup_def o n sql_row_lawsD(7)[OF laws] sql_admits_def expiry_unix_def
        split: option.splits)
  with r'(1) show "\<exists>r'. sql_putting cl origin snap json (h, r) = (Stored, (h, r')) \<and>
      (\<forall>k. sql_lookup (sc_dialect cl) (sc_store cl) (sc_now cl) (sc_others cl) (sc_net cl) (s_id snap) (k, r') =
        (Inr (Some json), (k, r')))"
    by blast
qed

lemma reference_uncontended: "sql_uncontended (reference_sql dl table) id"
  by (auto simp: sql_uncontended_def reference_sql_def split: sum.split)

text \<open>
  With a lawful database and no disturbance, a session whose write the table admits is
  saved, an insertion, an update or a rotation, and its cookie then loads, at any later
  clock readings before its expiry, a clean session with its identity, expiry and values
  and the authority to update the row.
\<close>
theorem sql_saved_session_loads:
  assumes "sql_quiet cl" and "codec_laws c" and "session_allocated h s" and "lineage_idle s h"
    and "persistence_origin s h = Inr origin" and "wc_to_json c (wire_of s h) = Inr json"
    and "\<forall>row. conditional_write origin (s_id s) row (sc_view cl r) \<noteq> None"
    and "id_from_cookie_value p cookie = Inr (s_id s)"
    and "in_range (sc_now cl)" and "case s_expiry s of None \<Rightarrow> True | Some e \<Rightarrow> in_range e"
    and "\<not> is_expired (sc_now cl) s" and "\<not> is_expired now s"
  shows "\<exists>h' r' t h2.
     sql_store_session c (sc_dialect cl) (sc_store cl) (sc_others cl) (sc_net cl) s (h, r) =
       (Ready (Inr (s_cookie_value s)), (h', r')) \<and>
     sql_load_session p c (sc_dialect cl) (sc_store cl) (sc_others cl) (sc_net cl) (sc_now cl) now cookie
       (h', r') = (Inr (Some t), (h2, r')) \<and>
     wire_of t h2 = wire_of s h \<and> \<not> needs_persist t h2 \<and>
     persistence_origin t h2 = Inr (Some (s_id s)) \<and> lineage_idle s h'"
proof -
  have others: "sc_others cl = undisturbed" using assms(1) by (simp add: sql_quiet_def)
  have admits: "sql_admits cl origin (s_id s) (s_expiry s) r"
    using assms(7,9-11) unix_timestamp_less[OF _ assms(9)]
    by (fastforce simp: sql_admits_def is_expired_def not_le[symmetric] split: option.splits)
  show ?thesis
    using sql_records.saved_session_loads[OF assms(1-6) admits assms(8,12), where recheck = False]
    unfolding sql_store_session_def sql_load_session_def others
    by (elim exE conjE) (intro exI conjI; assumption)
qed

definition quiet_sql_client :: "(sql_table, sql_log) sql_client" where
  "quiet_sql_client =
     \<lparr>sc_dialect = sqlite, sc_store = example_sql, sc_view = map_of, sc_log = id, sc_now = 0,
      sc_others = undisturbed, sc_net = (\<lambda>k. Delivered)\<rparr>"

lemma quiet_sql_client_sel [simp]:
  "sc_dialect quiet_sql_client = sqlite" "sc_store quiet_sql_client = example_sql"
  "sc_view quiet_sql_client = map_of" "sc_log quiet_sql_client = id" "sc_now quiet_sql_client = 0"
  "sc_others quiet_sql_client = undisturbed" "sc_net quiet_sql_client = (\<lambda>k. Delivered)"
  by (simp_all add: quiet_sql_client_def)

theorem sql_saved_session_loads_witness:
  "\<exists>h' r' t h2. sql_store_session reference_codec sqlite example_sql undisturbed (\<lambda>k. Delivered) fresh_reference
       (fresh_heap, []) = (Ready (Inr (s_cookie_value fresh_reference)), (h', r')) \<and>
     sql_load_session reference reference_codec sqlite example_sql undisturbed (\<lambda>k. Delivered) 0 0
       reference_cookie (h', r') = (Inr (Some t), (h2, r')) \<and> s_id t = reference_id"
proof -
  have quiet: "sql_quiet quiet_sql_client"
    using example_sql_laws by (simp add: sql_quiet_def client_lawful_def reference_uncontended)
  have pre: "session_allocated fresh_heap fresh_reference"
      "lineage_idle fresh_reference fresh_heap" "persistence_origin fresh_reference fresh_heap = Inr None"
      "\<forall>row. conditional_write None (s_id fresh_reference) row (sc_view quiet_sql_client []) \<noteq> None"
      "id_from_cookie_value reference reference_cookie = Inr (s_id fresh_reference)"
      "in_range (sc_now quiet_sql_client)" "case s_expiry fresh_reference of None \<Rightarrow> True | Some e \<Rightarrow> in_range e"
      "\<not> is_expired (sc_now quiet_sql_client) fresh_reference" "\<not> is_expired 0 fresh_reference"
    by (simp_all add: session_allocated_def lineage_idle_def is_destroyed_def
        persistence_origin_def fresh_reference_def fresh_session_def example_session_def
        conditional_write_def is_expired_def in_range_def datetime_min_def datetime_max_def)
  obtain json where json: "wc_to_json reference_codec (wire_of fresh_reference fresh_heap) = Inr json"
    using fresh_encodes by blast
  obtain h' r' t h2 where run:
    "sql_store_session reference_codec sqlite example_sql undisturbed (\<lambda>k. Delivered) fresh_reference
       (fresh_heap, []) = (Ready (Inr (s_cookie_value fresh_reference)), (h', r'))"
    "sql_load_session reference reference_codec sqlite example_sql undisturbed (\<lambda>k. Delivered) 0 0
      reference_cookie (h', r') = (Inr (Some t), (h2, r'))"
    "wire_of t h2 = wire_of fresh_reference fresh_heap"
    using sql_saved_session_loads[OF quiet reference_codec_laws pre(1-3) json pre(4-9),
        unfolded quiet_sql_client_sel]
    by (elim exE conjE) (rule that)
  have "s_id t = reference_id"
    using run(3) by (simp add: wire_of_def fresh_reference_def)
  with run(1,2) show ?thesis by blast
qed

subsection \<open>Deletion is final\<close>

text \<open>
  The write as an operation that can be refused: one statement, or the statements of the
  rotation in one piece, as its commit runs them.
\<close>

definition sql_write ::
  "sql_dialect \<Rightarrow> ('r, 't) sql_store \<Rightarrow> string option \<Rightarrow> string \<Rightarrow> i64 option \<times> string \<Rightarrow> 'r \<Rightarrow> 'r option" where
  "sql_write dl st origin ident row r =
     (case rotation_source origin ident of
        Some src \<Rightarrow>
          sql_replay (sq_execute (sq_pool st))
            [(dl_delete dl (sq_table st), [SText src], 1),
             (dl_insert dl (sq_table st), [SText ident, sql_of_option (fst row), SText (snd row)], 1)] r
      | None \<Rightarrow>
          if origin \<noteq> None then
            (case sq_execute (sq_pool st) (dl_update dl (sq_table st))
                    [sql_of_option (fst row), SText (snd row), SText ident] r of
               (Inl _, r1) \<Rightarrow> None
             | (Inr n, r1) \<Rightarrow> if n \<noteq> 1 then None else Some r1)
          else
            (case sq_execute (sq_pool st) (dl_insert dl (sq_table st))
                    [SText ident, sql_of_option (fst row), SText (snd row)] r of
               (Inl _, r1) \<Rightarrow> None
             | (Inr _, r1) \<Rightarrow> Some r1))"

definition sql_erase :: "sql_dialect \<Rightarrow> ('r, 't) sql_store \<Rightarrow> string \<Rightarrow> 'r \<Rightarrow> 'r" where
  "sql_erase dl st ident r = snd (sq_execute (sq_pool st) (dl_delete dl (sq_table st)) [SText ident] r)"

lemma sql_write_Some:
  assumes laws: "sql_laws dl (sq_table st) (sq_pool st) view log"
    and w: "sql_write dl st origin ident row r = Some r'"
  shows "conditional_write origin ident row (view r) = Some (view r')"
proof (cases "rotation_source origin ident")
  case (Some src)
  then have "origin = Some src" "src \<noteq> ident"
    by (auto simp: rotation_source_def split: option.splits if_splits)
  then show ?thesis
    using sql_rotation_replay[OF laws, of src ident "fst row" "snd row" 1 r r'] w Some
    by (simp add: sql_write_def)
next
  case None
  then have none: "origin = None \<or> origin = Some ident"
    by (auto simp: rotation_source_def split: option.splits if_splits)
  show ?thesis
  proof (cases "origin = None")
    case True
    obtain n where "sq_execute (sq_pool st) (dl_insert dl (sq_table st))
        [SText ident, sql_of_option (fst row), SText (snd row)] r = (Inr n, r')"
      using w None True by (auto simp: sql_write_def split: prod.splits sum.splits)
    then show ?thesis using sql_insert_writes[OF laws, of ident "fst row" "snd row" r "Inr n" r'] True by simp
  next
    case False
    have "sq_execute (sq_pool st) (dl_update dl (sq_table st))
        [sql_of_option (fst row), SText (snd row), SText ident] r = (Inr 1, r')"
      using w None False by (auto simp: sql_write_def split: prod.splits sum.splits if_splits)
    then show ?thesis
      using sql_update_writes[OF laws, of "fst row" "snd row" ident r "Inr 1" r'] False none by auto
  qed
qed

lemma sql_conditional_backend:
  assumes "sql_laws dl (sq_table st) (sq_pool st) view log"
  shows "conditional_backend (sql_write dl st) (sql_erase dl st) (\<lambda>r. dom (view r)) (\<lambda>_. True)"
proof (rule conditional_backendI)
  show "\<exists>row. conditional_write origin t row (view r) = Some (view r')"
    if "sql_write dl st origin t e r = Some r'" for origin t e r r'
    using sql_write_Some[OF assms that] by blast
  show "view (sql_erase dl st t r) = (view r)(t := None)" for t r
    using sql_row_lawsD(6)[OF assms] by (simp add: sql_erase_def)
qed

text \<open>
  Once a coordinated deletion of a clone family has succeeded on a SQL store, no
  interleaving of the family's saves, rotations, cancelled requests that land late,
  compensations and deletions, and no removal by others, adds a row to the table.
\<close>
theorem sql_deletion_is_final:
  assumes "sql_laws dl (sq_table st) (sq_pool st) view log" and "session_allocated h s"
    and "(lineage_step (sql_write dl st) (sql_erase dl st) True)\<^sup>*\<^sup>* (lineage_start s h r) w" and "ln_revoked w"
    and "(lineage_step (sql_write dl st) (sql_erase dl st) True)\<^sup>*\<^sup>* w w'"
  shows "dom (view (ln_store w')) \<subseteq> dom (view (ln_store w))"
proof -
  have contract: "backend_writes (sql_write dl st) (sql_erase dl st) (\<lambda>r. dom (view r)) (\<lambda>_. True)"
    using sql_conditional_backend[OF assms(1)] by (simp add: conditional_backend_def)
  show ?thesis
    by (rule backend_writes.deletion_final[OF contract assms(2-5)])
qed

theorem sql_deletion_is_final_witness:
  "dom (map_of (ln_store (example_deleted (sql_erase sqlite example_sql) [(''a'', None, ''t'')]))) = {}"
proof -
  let ?w = "example_deleted (sql_erase sqlite example_sql) [(''a'', None, ''t'')]"
  have revoked: "ln_revoked ?w"
    by (simp add: example_deleted_def)
  have "dom (map_of (ln_store ?w)) \<subseteq> dom (map_of (ln_store ?w))"
    using sql_deletion_is_final[OF example_sql_laws example_allocated
        example_run(2)[of "sql_write sqlite example_sql" "sql_erase sqlite example_sql" True] revoked
        rtranclp.rtrancl_refl] .
  then show ?thesis
    using sql_row_lawsD(6)[OF example_sql_laws, of "''a''" "[(''a'', None, ''t'')]"]
    by (auto simp: example_deleted_def sql_erase_def)
qed

end
