(* ===== verification/Remote_Protocol.thy ===== *)
theory Remote_Protocol
  imports Handler_Protocol Redis_Protocol Mongo_Protocol Sql_Protocol
begin

text \<open>
  The handlers of the external stores as executions of the lineage protocol on the records
  that the server shows, whatever requests and answers are lost. A save or a deletion of such
  a store is a sequence of steps of one task, so that what holds of the protocol holds of the
  handlers.
\<close>

subsection \<open>The protocol keeps the destruction mark\<close>

lemma step_keeps_destroyed:
  assumes "lineage_step commit erase outlives w w'" and inv: "lineage_inv fam outlives w"
    and "h_destroy (ln_heap w) (s_destroy fam)"
  shows "h_destroy (ln_heap w') (s_destroy fam)"
  using assms(1)
proof (cases rule: lineage_step.cases)
  case (l_local h')
  then show ?thesis
    using inv assms(3) by (auto simp: local_change_def flags_rise_def lineage_inv_def session_allocated_def)
next
  case (l_attempt i s origin h')
  then show ?thesis
    using assms(3) by (auto simp: persistence_attempt_def split: sum.splits if_splits)
next
  case (l_acquire i s origin receipt g h')
  then show ?thesis using begin_guarded_write_Inr[OF l_acquire(3)] assms(3) by auto
next
  case (l_refused i s origin receipt e h')
  then show ?thesis using begin_guarded_write_Inl[OF l_refused(3)] assms(3) by auto
next
  case (l_delete i s dg h')
  then show ?thesis using begin_delete_locked_Inr[OF l_delete(3)] assms(3) by auto
next
  case (l_delete_refused i s e h')
  then show ?thesis using begin_delete_locked_Inl[OF l_delete_refused(3)] assms(3) by auto
qed (use assms(3) in \<open>auto simp: session_destroy_def\<close>)

lemma steps_keep_destroyed:
  assumes "protocol_steps commit erase outlives w w'" and "lineage_inv fam outlives w"
    and "h_destroy (ln_heap w) (s_destroy fam)"
  shows "h_destroy (ln_heap w') (s_destroy fam)"
  using assms
proof (induction rule: rtranclp_induct)
  case (step y z)
  then show ?case using step_keeps_destroyed[OF step.hyps(2)] inv_steps[OF step.hyps(1)] by blast
qed simp

subsection \<open>Surroundings of a handler\<close>

text \<open>
  What happens at the suspension points of a handler that task \<open>i\<close> runs are steps of the
  protocol of the family \<open>fam\<close> on the heap and on what \<open>view\<close> shows of the server; they leave the
  phase of \<open>i\<close> alone and keep \<open>P\<close>, which is a condition on the phases of the others.
\<close>

definition remote_follows ::
  "session \<Rightarrow> ('r \<Rightarrow> 'b) \<Rightarrow> (string option \<Rightarrow> string \<Rightarrow> 'e \<Rightarrow> 'b \<Rightarrow> 'b option) \<Rightarrow> (string \<Rightarrow> 'b \<Rightarrow> 'b) \<Rightarrow> nat \<Rightarrow>
   ((nat \<Rightarrow> phase) \<Rightarrow> bool) \<Rightarrow> 'r remote interleaving \<Rightarrow> bool" where
  "remote_follows fam view commit erase i P ij \<longleftrightarrow> not_about i P \<and>
     (\<forall>n W r. lineage_inv fam True W \<and> P (ln_tasks W) \<and> ln_store W = view r \<longrightarrow>
        run_to commit erase True i P W (ln_tasks W i) (seen view (ij n (ln_heap W, r))))"

lemma remote_followsD: "remote_follows fam view commit erase i P ij \<Longrightarrow> not_about i P"
  by (simp add: remote_follows_def)

lemma run_to_remote:
  assumes "run_to commit erase True i P W ph (seen view w)" and "remote_follows fam view commit erase i P ij"
    and "lineage_inv fam True W"
  shows "run_to commit erase True i P W ph (seen view (ij n w))"
proof -
  obtain V where V: "protocol_steps commit erase True W V" "ln_tasks V i = ph" "P (ln_tasks V)"
      "ln_heap V = fst w" "ln_store V = view (snd w)"
    using assms(1) unfolding run_to_def by auto
  then have "run_to commit erase True i P V ph (seen view (ij n w))"
    using assms(2) inv_steps[OF V(1) assms(3)] unfolding remote_follows_def by (metis prod.collapse)
  then show ?thesis using rtranclp_trans[OF V(1)] unfolding run_to_def by blast
qed

lemma run_to_remote_destroyed:
  assumes "run_to commit erase True i P W ph (seen view w)" and "remote_follows fam view commit erase i P ij"
    and "lineage_inv fam True W" and "h_destroy (fst w) (s_destroy fam)"
  shows "h_destroy (fst (ij n w)) (s_destroy fam)"
proof -
  obtain V where V: "protocol_steps commit erase True W V" "P (ln_tasks V)"
      "ln_heap V = fst w" "ln_store V = view (snd w)"
    using assms(1) unfolding run_to_def by auto
  then have "run_to commit erase True i P V (ln_tasks V i) (seen view (ij n w))"
    using assms(2) inv_steps[OF V(1) assms(3)] unfolding remote_follows_def by (metis prod.collapse)
  then obtain V' where "protocol_steps commit erase True V V'" "ln_heap V' = fst (ij n w)"
    unfolding run_to_def by auto
  then show ?thesis
    using steps_keep_destroyed[OF _ inv_steps[OF V(1) assms(3)]] assms(4) V(3) by metis
qed

lemma undisturbed_remote_follows:
  "not_about i P \<Longrightarrow> remote_follows fam view commit erase i P undisturbed"
  unfolding remote_follows_def undisturbed_def by (simp add: run_to_start flip: split_paired_All) (metis run_to_start)

subsection \<open>The phases of a save\<close>

lemma save_prepared:
  assumes "ln_tasks W i = Holding s" "P (ln_tasks W)" "ln_store W = view r"
    and others: "remote_follows fam view commit erase i P ij" and inv: "lineage_inv fam True W"
    and att: "persistence_attempt s (ln_heap W) = (Inr origin, h1)" and p0: "ij 0 (h1, r) = (h2, r2)"
  shows "run_to commit erase True i P W (Prepared s origin) (h2, view r2)"
proof -
  have "run_to commit erase True i P W (Holding s) (ln_heap W, view r)"
    using run_to_start[where P = P and W = W and i = i] assms(1-3) by metis
  from run_to_prepared[OF this remote_followsD[OF others] att]
  have "run_to commit erase True i P W (Prepared s origin) (seen view (h1, r))" by simp
  from run_to_remote[OF this others inv, of 0] show ?thesis by (simp add: p0)
qed

lemma save_captured:
  assumes "run_to commit erase True i P W (Prepared s origin) (h2, view r2)"
    and others: "remote_follows fam view commit erase i P ij" and inv: "lineage_inv fam True W"
    and ps: "persistence_snapshot s h2 = ((snap, token), h3)" and p1: "ij 1 (h3, r2) = (h4, r4)"
  shows "run_to commit erase True i P W (Prepared s origin) (h4, view r4)"
proof -
  have "run_to commit erase True i P W (Prepared s origin) (seen view (h3, r2))"
    using run_to_local[OF assms(1) local_change_snapshot[OF ps]] by simp
  from run_to_remote[OF this others inv, of 1] show ?thesis by (simp add: p1[simplified])
qed

lemma save_begun_runs:
  assumes "save_begun c recheck ij s (ln_heap W, r) origin snap token json g w5"
    and start: "ln_tasks W i = Holding s" "P (ln_tasks W)" "ln_store W = view r"
    and others: "remote_follows fam view commit erase i P ij" and inv: "lineage_inv fam True W"
  shows "run_to commit erase True i P W (Writing s origin g) (seen view w5)"
proof -
  obtain h1 h2 r2 h3 h4 h5 r4 where run: "persistence_attempt s (ln_heap W) = (Inr origin, h1)"
      "ij 0 (h1, r) = (h2, r2)" "persistence_snapshot s h2 = ((snap, token), h3)" "ij 1 (h3, r2) = (h4, r4)"
      "begin_backend_write s origin True h4 = (Ready (Inr g), h5)" "w5 = (h5, r4)"
    using assms(1) unfolding save_begun_def by auto
  have "run_to commit erase True i P W (Prepared s origin) (h4, view r4)"
    by (rule save_captured[OF save_prepared[OF start others inv run(1,2)] others inv run(3,4)])
  from run_to_writing[OF this remote_followsD[OF others] run(5)[unfolded begin_backend_write_def]]
  show ?thesis by (simp add: run(6))
qed

text \<open>A save that waits for the lock has its authority and its snapshot, and nothing else.\<close>

lemma remote_store_pending:
  assumes "remote_store_session c recheck put undo ij s (h, r) = (Pending, w')"
  obtains origin h1 h2 r2 snap token h3 where "persistence_attempt s h = (Inr origin, h1)"
    "ij 0 (h1, r) = (h2, r2)" "persistence_snapshot s h2 = ((snap, token), h3)" "ij 1 (h3, r2) = w'"
proof -
  obtain ra h1 where att: "persistence_attempt s h = (ra, h1)" by fastforce
  obtain h2 r2 where w2: "ij 0 (h1, r) = (h2, r2)" by fastforce
  obtain snap token h3 where ps: "persistence_snapshot s h2 = ((snap, token), h3)" by (metis surj_pair)
  obtain h4 r4 where w4: "ij 1 (h3, r2) = (h4, r4)" by fastforce
  obtain origin where ra: "ra = Inr origin"
    using assms att by (cases ra) (auto simp: remote_store_session_def)
  obtain rb h5 where bg: "begin_backend_write s origin True h4 = (rb, h5)" by fastforce
  note run = assms[unfolded remote_store_session_def Let_def, simplified att ra w2 ps prod.case sum.case]
  have go: "\<not> (recheck \<and> is_destroyed s h2)" using run by (auto split: if_splits)
  obtain json where json: "wc_to_json c (wire_of snap h3) = Inr json"
    using run go by (cases "wc_to_json c (wire_of snap h3)") auto
  have "rb = Pending"
  proof (cases rb)
    case (Ready rg)
    show ?thesis
    proof (cases rg)
      case (Inl e)
      then show ?thesis using run go json w4[simplified] bg Ready by simp
    next
      case (Inr g)
      obtain outcome h6 r6 where pt: "put origin snap json (h5, r4) = (outcome, (h6, r6))" by (metis surj_pair)
      obtain h7 r7 where w7: "ij 2 (h6, r6) = (h7, r7)" by fastforce
      obtain ru h8 r8 where un: "undo (s_id s) (h7, r7) = (ru, (h8, r8))" by (metis surj_pair)
      obtain h9 r9 where w9: "ij 3 (h7, r7) = (h9, r9)" by fastforce
      show ?thesis
        using run go json w4[simplified] bg Ready Inr pt w7 un w9
        by (cases outcome; cases "guard_is_destroyed g h7"; cases ru)
           (simp_all add: guard_finish_def guard_is_destroyed_def split_beta Let_def)
    qed
  qed simp
  then have "w' = (h4, r4)"
    using run go json w4[simplified] bg begin_guarded_write_Pending[of s origin None True h4 h5]
    by (simp add: begin_backend_write_def)
  then show ?thesis using that att ra w2 ps w4 by blast
qed

text \<open>What a task does after its write.\<close>

lemma run_to_settled:
  fixes b :: 'b
  assumes "run_to commit erase outlives i P W (Writing s origin g) (h, b)" and "not_about i P"
  shows "run_to commit erase outlives i P W Gone (write_guard_drop (g\<lparr>wg_settled := True\<rparr>) h, b)"
proof (rule run_to_step[OF assms])
  fix V :: "'b lineage" assume V: "ln_tasks V i = Writing s origin g" "ln_heap V = h" "ln_store V = b"
  have "snd (guard_finish g (ln_heap V)) = g\<lparr>wg_settled := True\<rparr>" by (simp add: guard_finish_def Let_def)
  then obtain res where "guard_finish g (ln_heap V) = (res, g\<lparr>wg_settled := True\<rparr>)" by (metis prod.collapse)
  from l_settle[OF V(1) this] show "lineage_step commit erase outlives V
      (moved i Gone (write_guard_drop (g\<lparr>wg_settled := True\<rparr>) h) b V)"
    by (simp add: V)
qed

lemma run_to_uncompensated:
  "run_to commit erase outlives i P W (Written s origin g) (h, b) \<Longrightarrow> not_about i P \<Longrightarrow>
   run_to commit erase outlives i P W Gone (write_guard_drop g h, b)"
  by (erule run_to_step, assumption) (use l_uncompensated in metis)

subsection \<open>What a store provides\<close>

text \<open>Steps on the records of a store.\<close>

abbreviation record_steps ::
  "(string option \<Rightarrow> string \<Rightarrow> 'e \<Rightarrow> (string \<rightharpoonup> 'e) \<Rightarrow> (string \<rightharpoonup> 'e) option) \<Rightarrow>
   (string \<rightharpoonup> 'e) lineage \<Rightarrow> (string \<rightharpoonup> 'e) lineage \<Rightarrow> bool" where
  "record_steps commit \<equiv> protocol_steps commit (\<lambda>t m. m(t := None)) True"

abbreviation surrounds ::
  "session \<Rightarrow> ('r \<Rightarrow> string \<rightharpoonup> 'e) \<Rightarrow>
   (string option \<Rightarrow> string \<Rightarrow> 'e \<Rightarrow> (string \<rightharpoonup> 'e) \<Rightarrow> (string \<rightharpoonup> 'e) option) \<Rightarrow> nat \<Rightarrow>
   ((nat \<Rightarrow> phase) \<Rightarrow> bool) \<Rightarrow> 'r remote interleaving \<Rightarrow> bool" where
  "surrounds fam view commit \<equiv> remote_follows fam view commit (\<lambda>t m. m(t := None))"

text \<open>A request that removes a record: others act, then it arrives, or it is lost.\<close>

definition removes ::
  "('r \<Rightarrow> string \<rightharpoonup> 'e) \<Rightarrow> 'r remote interleaving \<Rightarrow> string \<Rightarrow> 'r remote \<Rightarrow> error + unit \<Rightarrow> 'r remote \<Rightarrow> bool" where
  "removes view ij t w res w' \<longleftrightarrow>
     (\<exists>n. fst w' = fst (ij n w) \<and>
        (view (snd w') = (view (snd (ij n w)))(t := None) \<or>
         (\<exists>e. res = Inl e) \<and> view (snd w') = view (snd (ij n w))))"

text \<open>
  No save that begins at \<open>W\<close> or later adds a record: by whatever task of the family, of whatever
  client, however it ends and whatever happens while it is suspended.
\<close>

definition later_saves_add_nothing ::
  "('c \<Rightarrow> codec \<Rightarrow> session \<Rightarrow> 'r remote \<Rightarrow> (error + string option) poll \<times> 'r remote) \<Rightarrow>
   ('c \<Rightarrow> 'r \<Rightarrow> string \<rightharpoonup> 'e) \<Rightarrow> ('c \<Rightarrow> bool) \<Rightarrow> ('c \<Rightarrow> 'r remote interleaving) \<Rightarrow>
   (string option \<Rightarrow> string \<Rightarrow> 'e \<Rightarrow> (string \<rightharpoonup> 'e) \<Rightarrow> (string \<rightharpoonup> 'e) option) \<Rightarrow> session \<Rightarrow>
   (string \<rightharpoonup> 'e) lineage \<Rightarrow> bool" where
  "later_saves_add_nothing save view lawful others commit fam W \<longleftrightarrow>
     (\<forall>cl V j t Q c r res w. lawful cl \<and> surrounds fam (view cl) commit j Q (others cl) \<and>
        record_steps commit W V \<and> ln_tasks V j = Holding t \<and> Q (ln_tasks V) \<and> ln_store V = view cl r \<and>
        save cl c t (ln_heap V, r) = (res, w) \<longrightarrow>
        dom (view cl (snd w)) \<subseteq> dom (ln_store W))"

lemma later_saves_add_nothingD:
  "later_saves_add_nothing save view lawful others commit fam W \<Longrightarrow> lawful cl \<Longrightarrow>
   surrounds fam (view cl) commit j Q (others cl) \<Longrightarrow> record_steps commit W V \<Longrightarrow>
   ln_tasks V j = Holding t \<Longrightarrow> Q (ln_tasks V) \<Longrightarrow> ln_store V = view cl r \<Longrightarrow>
   dom (view cl (snd (snd (save cl c t (ln_heap V, r))))) \<subseteq> dom (ln_store W)"
  unfolding later_saves_add_nothing_def by (metis prod.collapse)

text \<open>
  \<open>Q\<close> is a condition that others keep and removals too, \<open>I\<close> holds after the write of the contract
  where \<open>Q\<close> does: a write ends with \<open>Q\<close> or \<open>I\<close>, with \<open>I\<close> if it is reported as stored, and with
  \<open>Q\<close> if the record was removed instead.
\<close>

locale protocol_backend = backend_writes commit "\<lambda>t m. m(t := None)" dom "\<lambda>_. True"
  for commit :: "string option \<Rightarrow> string \<Rightarrow> 'e \<Rightarrow> (string \<rightharpoonup> 'e) \<Rightarrow> (string \<rightharpoonup> 'e) option" +
  fixes view :: "'c \<Rightarrow> 'r \<Rightarrow> string \<rightharpoonup> 'e" and lawful :: "'c \<Rightarrow> bool"
    and others :: "'c \<Rightarrow> 'r remote interleaving"
    and put :: "'c \<Rightarrow> string option \<Rightarrow> session \<Rightarrow> string \<Rightarrow> 'r remote \<Rightarrow> write_outcome \<times> 'r remote"
    and undo :: "'c \<Rightarrow> string \<Rightarrow> 'r remote \<Rightarrow> (error + unit) \<times> 'r remote"
    and remove :: "'c \<Rightarrow> string \<Rightarrow> 'r remote \<Rightarrow> (error + unit) \<times> 'r remote"
  assumes put_lands: "lawful cl \<Longrightarrow> put cl origin snap json w = (outcome, w') \<Longrightarrow>
      Q (seen (view cl) w) \<Longrightarrow>
      (\<And>n v. Q (seen (view cl) v) \<Longrightarrow> Q (seen (view cl) (others cl n v))) \<Longrightarrow>
      (\<And>h m t. Q (h, m) \<Longrightarrow> Q (h, m(t := None))) \<Longrightarrow>
      (\<And>h m e m'. Q (h, m) \<Longrightarrow> commit origin (s_id snap) e m = Some m' \<Longrightarrow> I (h, m')) \<Longrightarrow>
      (case outcome of Stored \<Rightarrow> I (seen (view cl) w') | Revoked \<Rightarrow> Q (seen (view cl) w')
       | Failed e \<Rightarrow> Q (seen (view cl) w') \<or> I (seen (view cl) w'))"
    and undo_removes: "lawful cl \<Longrightarrow> undo cl t w = (res, w') \<Longrightarrow> removes (view cl) (others cl) t w res w'"
    and remove_removes: "lawful cl \<Longrightarrow> remove cl t w = (res, w') \<Longrightarrow> removes (view cl) (others cl) t w res w'"
begin

abbreviation follows :: "session \<Rightarrow> 'c \<Rightarrow> nat \<Rightarrow> ((nat \<Rightarrow> phase) \<Rightarrow> bool) \<Rightarrow> bool" where
  "follows fam cl i P \<equiv> surrounds fam (view cl) commit i P (others cl)"

abbreviation runs ::
  "nat \<Rightarrow> ((nat \<Rightarrow> phase) \<Rightarrow> bool) \<Rightarrow> (string \<rightharpoonup> 'e) lineage \<Rightarrow> phase \<Rightarrow> heap \<times> (string \<rightharpoonup> 'e) \<Rightarrow> bool" where
  "runs \<equiv> run_to commit (\<lambda>t m. m(t := None)) True"

lemma request_runs:
  assumes "runs i P W ph (seen (view cl) w)" and others: "follows fam cl i P" and inv: "lineage_inv fam True W"
    and "removes (view cl) (others cl) t w res w'"
  shows "runs i P W ph (seen (view cl) w')"
proof -
  obtain n where n: "fst w' = fst (others cl n w)"
      "view cl (snd w') = (view cl (snd (others cl n w)))(t := None) \<or>
       view cl (snd w') = view cl (snd (others cl n w))"
    using assms(4) unfolding removes_def by blast
  have "runs i P W ph (seen (view cl) (others cl n w))"
    using run_to_remote[OF assms(1) others inv] .
  then show ?thesis using n run_to_erased[of commit "\<lambda>t m. m(t := None)" True i P W ph] by auto
qed

lemma write_runs:
  assumes "lawful cl" and others: "follows fam cl i P" and inv: "lineage_inv fam True W"
    and run: "put cl origin snap json w = (outcome, w')"
    and start: "runs i P W (Writing s origin g) (seen (view cl) w)" and same: "s_id snap = s_id s"
  shows "case outcome of Stored \<Rightarrow> runs i P W (Written s origin g) (seen (view cl) w')
    | Revoked \<Rightarrow> runs i P W (Writing s origin g) (seen (view cl) w')
    | Failed e \<Rightarrow> runs i P W (Writing s origin g) (seen (view cl) w') \<or>
        runs i P W (Written s origin g) (seen (view cl) w')"
proof (rule put_lands[where Q = "runs i P W (Writing s origin g)" and I = "runs i P W (Written s origin g)",
      OF assms(1) run start])
  show "runs i P W (Writing s origin g) (seen (view cl) (others cl n v))"
    if "runs i P W (Writing s origin g) (seen (view cl) v)" for n v
    using run_to_remote[OF that others inv] .
  show "runs i P W (Writing s origin g) (h, m(t := None))"
    if "runs i P W (Writing s origin g) (h, m)" for h m t
    using run_to_erased[OF that] .
  show "runs i P W (Written s origin g) (h, m')"
    if "runs i P W (Writing s origin g) (h, m)" "commit origin (s_id snap) e m = Some m'" for h m e m'
    using run_to_written[OF that(1) remote_followsD[OF others] disjI1[OF refl] that(2)[unfolded same]] .
qed

text \<open>A save that has returned, or that waits for the lock, holds no lock.\<close>

lemma save_runs:
  assumes lawful: "lawful cl" and others: "follows fam cl i P" and inv: "lineage_inv fam True W"
    and call: "remote_store_session c recheck (put cl) (undo cl) (others cl) s (ln_heap W, r) = (res, w')"
    and start: "ln_tasks W i = Holding s" "P (ln_tasks W)" "ln_store W = view cl r"
  shows "\<exists>ph. runs i P W ph (seen (view cl) w') \<and> \<not> holds_lock ph"
proof (cases res)
  case Pending
  obtain origin h1 h2 r2 snap token h3 where run: "persistence_attempt s (ln_heap W) = (Inr origin, h1)"
      "others cl 0 (h1, r) = (h2, r2)" "persistence_snapshot s h2 = ((snap, token), h3)" "others cl 1 (h3, r2) = w'"
    using call[unfolded Pending] by (rule remote_store_pending)
  obtain h4 r4 where w': "w' = (h4, r4)" by fastforce
  have "runs i P W (Prepared s origin) (seen (view cl) w')"
    using save_captured[OF save_prepared[OF start others inv run(1,2)] others inv run(3,4)[unfolded w']] w' by simp
  then show ?thesis by (intro exI[of _ "Prepared s origin"]) simp
next
  case (Ready rr)
  note P = remote_followsD[OF others]
  note begun = save_begun_runs[OF _ start others inv]
  obtain h' r' where w': "w' = (h', r')" by fastforce
  have gone: ?thesis if "runs i P W Gone (h', view cl r')" using that w' by (intro exI[of _ Gone]) simp
  have fam: "same_family fam s" using phase_of[OF inv start(1)] by simp
  show ?thesis
    using call[unfolded Ready w']
  proof (cases rule: remote_store_cases)
    case early
    then have "runs i P W (Holding s) (seen (view cl) w')"
      using run_to_start[where P = P and W = W and i = i] start w' by auto
    then show ?thesis by (intro exI[of _ "Holding s"]) simp
  next
    case (destroyed origin h1)
    have "runs i P W (Prepared s origin) (seen (view cl) w')"
      using save_prepared[OF start others inv destroyed(1,2)] w' by simp
    then show ?thesis by (intro exI[of _ "Prepared s origin"]) simp
  next
    case (unencoded origin h1 h2 snap token h3 e)
    have "runs i P W (Prepared s origin) (h3, view cl r')"
      by (rule run_to_local[OF save_prepared[OF start others inv unencoded(1,2)] local_change_snapshot[OF unencoded(3)]])
    from run_to_token_drop[OF this] show ?thesis
      using unencoded(5) w' by (intro exI[of _ "Prepared s origin"]) simp
  next
    case (refused origin h1 h2 r2 snap token h3 h4 e h5)
    have "runs i P W (Prepared s origin) (h4, view cl r')"
      by (rule save_captured[OF save_prepared[OF start others inv refused(1,2)] others inv refused(3,4)])
    from run_to_token_drop[OF run_to_refused[OF this P refused(5)[unfolded begin_backend_write_def]]]
    show ?thesis using refused(7) by (intro gone) simp
  next
    case (failed origin snap token json g w5 e h6)
    have "s_id snap = s_id s" using save_begun_facts[OF failed(1)] by simp
    then have "runs i P W (Writing s origin g) (h6, view cl r') \<or> runs i P W (Written s origin g) (h6, view cl r')"
      using write_runs[OF lawful others inv failed(2) begun[OF failed(1)]] by simp
    then have "runs i P W Gone (write_guard_drop g h6, view cl r')"
      by (elim disjE) (rule run_to_rejected[OF _ P] run_to_uncompensated[OF _ P], assumption)+
    from run_to_token_drop[OF this] show ?thesis using failed(4) by (intro gone) simp
  next
    case (revoked origin snap token json g w5 w6 h7)
    have "s_id snap = s_id s" using save_begun_facts[OF revoked(1)] by simp
    then have "runs i P W (Writing s origin g) (seen (view cl) w6)"
      using write_runs[OF lawful others inv revoked(2) begun[OF revoked(1)]] by simp
    from run_to_remote[OF this others inv, of 2]
    have "runs i P W (Writing s origin g) (h7, view cl r')" by (simp add: revoked(3))
    from run_to_token_drop[OF run_to_settled[OF this P]] show ?thesis using revoked(5) by (intro gone) simp
  next
    case (uncompensated origin snap token json g w5 w6 w7 e h8)
    note facts = save_begun_facts[OF uncompensated(1)]
    have "runs i P W (Written s origin g) (seen (view cl) w6)"
      using write_runs[OF lawful others inv uncompensated(2) begun[OF uncompensated(1)]] facts by simp
    from run_to_remote[OF this others inv, of 2]
    have "runs i P W (Written s origin g) (seen (view cl) w7)" by (simp add: uncompensated(3))
    from request_runs[OF this others inv undo_removes[OF lawful uncompensated(5)]]
    have "runs i P W (Written s origin g) (h8, view cl r')" by simp
    from run_to_token_drop[OF run_to_uncompensated[OF this P]]
    have "runs i P W Gone (revision_drop token (write_guard_drop g h8), view cl r')" .
    moreover have "g\<lparr>wg_settled := False\<rparr> = g" using facts(3) by (cases g) simp
    ultimately show ?thesis using uncompensated(7) by (intro gone) simp
  next
    case (compensated origin snap token json g w5 w6 w7 h8)
    note facts = save_begun_facts[OF compensated(1)]
    have "runs i P W (Written s origin g) (seen (view cl) w6)"
      using write_runs[OF lawful others inv compensated(2) begun[OF compensated(1)]] facts by simp
    from run_to_remote[OF this others inv, of 2]
    have w7: "runs i P W (Written s origin g) (seen (view cl) w7)" by (simp add: compensated(3))
    obtain n where n: "h8 = fst (others cl n w7)" "view cl r' = (view cl (snd (others cl n w7)))(s_id s := None)"
      using undo_removes[OF lawful compensated(5)] by (auto simp: removes_def)
    have "wg_destroyed g = s_destroy fam" using facts(2) fam by (simp add: same_family_def)
    then have "guard_is_destroyed g h8"
      using run_to_remote_destroyed[OF w7 others inv, of n] compensated(4) n(1) by (simp add: guard_is_destroyed_def)
    moreover have "runs i P W (Written s origin g) (h8, view cl (snd (others cl n w7)))"
      using run_to_remote[OF w7 others inv, of n] n(1) by simp
    ultimately have "runs i P W (Removed s (g\<lparr>wg_settled := True\<rparr>)) (h8, view cl r')"
      using run_to_compensated[OF _ P] n(2) by simp
    from run_to_token_drop[OF run_to_removed[OF this P]] show ?thesis using compensated(7) by (intro gone) simp
  next
    case (stored origin snap token json g w5 w6 w7 h8)
    have "s_id snap = s_id s" using save_begun_facts[OF stored(1)] by simp
    then have "runs i P W (Written s origin g) (seen (view cl) w6)"
      using write_runs[OF lawful others inv stored(2) begun[OF stored(1)]] by simp
    from run_to_remote[OF this others inv, of 2]
    have "runs i P W (Written s origin g) (seen (view cl) w7)" by (simp add: stored(3))
    from run_to_confirmed[OF this P stored(4)]
    have "runs i P W (Confirmed s (g\<lparr>wg_settled := True\<rparr>)) (seen (view cl) w7)" .
    from run_to_remote[OF this others inv, of 3]
    have "runs i P W (Confirmed s (g\<lparr>wg_settled := True\<rparr>)) (h8, view cl r')" by (simp add: stored(5))
    from run_to_finished[OF this P] show ?thesis using stored(7) by (intro gone) simp
  qed
qed

lemma destroy_runs:
  assumes lawful: "lawful cl" and others: "follows fam cl i P" and inv: "lineage_inv fam True W"
    and call: "remote_destroy_session (remove cl) (others cl) s (ln_heap W, r) = (Ready (Inr ()), w')"
    and start: "ln_tasks W i = Holding s" "P (ln_tasks W)" "ln_store W = view cl r"
  shows "revoked_to commit (\<lambda>t m. m(t := None)) True i P W (seen (view cl) w')"
proof -
  note P = remote_followsD[OF others]
  obtain h1 r1 where p0: "others cl 0 (session_destroy s (ln_heap W), r) = (h1, r1)" by fastforce
  obtain dg h2 where bd: "begin_delete_locked s h1 = (Ready (Inr dg), h2)"
    using call p0 by (auto simp: remote_destroy_session_def split: prod.splits poll.splits sum.splits)
  obtain res h3 r3 where rm: "remove cl (dg_id dg) (h2, r1) = (res, (h3, r3))" by (metis surj_pair)
  have ended: "res = Inr ()" "w' = (delete_guard_drop dg h3, r3)"
    using call p0 bd rm by (auto simp: remote_destroy_session_def)
  have "runs i P W (Holding s) (ln_heap W, view cl r)"
    using run_to_start[where P = P and W = W and i = i] start by metis
  from run_to_leaving[OF this P]
  have "runs i P W (Leaving s) (seen (view cl) (session_destroy s (ln_heap W), r))" by simp
  from run_to_remote[OF this others inv, of 0]
  have "runs i P W (Leaving s) (h1, view cl r1)" by (simp add: p0)
  from run_to_deleting[OF this P bd]
  have deleting: "runs i P W (Deleting s dg) (seen (view cl) (h2, r1))" by simp
  obtain n where n: "h3 = fst (others cl n (h2, r1))"
      "view cl r3 = (view cl (snd (others cl n (h2, r1))))(dg_id dg := None)"
    using remove_removes[OF lawful rm] ended(1) by (auto simp: removes_def)
  from run_to_remote[OF deleting others inv, of n]
  have "runs i P W (Deleting s dg) (h3, view cl (snd (others cl n (h2, r1))))" by (simp add: n(1))
  from run_to_revoked[OF this P] show ?thesis by (simp add: ended(2) n(2))
qed

text \<open>After a deletion that has returned successfully no save of the family adds a record.\<close>

lemma destroy_stops_saves:
  assumes "session_allocated h0 s0"
    and reached: "record_steps commit (lineage_start s0 h0 m0) W"
    and "lawful cl" "follows s0 cl i P" "ln_tasks W i = Holding s" "P (ln_tasks W)" "ln_store W = view cl r"
    and call: "remote_destroy_session (remove cl) (others cl) s (ln_heap W, r) = (Ready (Inr ()), (h1, r1))"
  shows "\<exists>W1. record_steps commit W W1 \<and> ln_heap W1 = h1 \<and> ln_store W1 = view cl r1 \<and>
    P (ln_tasks W1) \<and> later_saves_add_nothing
      (\<lambda>dl c. remote_store_session c recheck (put dl) (undo dl) (others dl)) view lawful others commit s0 W1"
proof -
  obtain W1 where W1: "record_steps commit W W1" "ln_heap W1 = h1"
      "ln_store W1 = view cl r1" "ln_revoked W1" "P (ln_tasks W1)"
    using destroy_runs[OF assms(3,4) inv_steps[OF reached inv_start[OF assms(1)]] call assms(5-7)] unfolding revoked_to_def by auto
  note start = rtranclp_trans[OF reached W1(1)]
  have "dom (view dl (snd w3)) \<subseteq> dom (ln_store W1)"
    if later: "record_steps commit W1 W2" and dl: "lawful dl" "follows s0 dl j Q"
      and at: "ln_tasks W2 j = Holding t" "Q (ln_tasks W2)" "ln_store W2 = view dl r2"
      and save: "remote_store_session c recheck (put dl) (undo dl) (others dl) t (ln_heap W2, r2) = (res, w3)"
    for dl W2 j t Q c r2 res w3
  proof -
    have "lineage_inv s0 True W2"
      by (rule inv_steps[OF rtranclp_trans[OF start later] inv_start[OF assms(1)]])
    from save_runs[OF dl this save at] obtain V where V:
        "record_steps commit W2 V" "ln_store V = view dl (snd w3)"
      unfolding run_to_def by auto
    have "dom (ln_store V) \<subseteq> dom (ln_store W1)"
      by (rule deletion_final[OF assms(1) start W1(4) rtranclp_trans[OF later V(1)]])
    then show ?thesis by (simp add: V(2))
  qed
  then show ?thesis using W1(1-3,5) unfolding later_saves_add_nothing_def by (intro exI[of _ W1] conjI) blast+
qed

text \<open>
  What happens at the suspension points may itself be saves by clones: task \<open>j\<close> keeps its
  handle \<open>t\<close>, clones it, and the clone is saved. Such surroundings can be nested to any depth.
\<close>

lemma clone_saves_follow:
  assumes "i \<noteq> j" and "lawful dl"
    and inner: "\<And>k ph. k \<noteq> i \<Longrightarrow> k \<noteq> j \<Longrightarrow>
      follows fam dl k (\<lambda>f. f i = ph \<and> f j = Holding t \<and> infinite {n. f n = Gone})"
    and saves: "\<And>n w. ij n w =
      snd (remote_store_session c recheck (put dl) (undo dl) (others dl) (session_clone t) w)"
  shows "surrounds fam (view dl) commit i
    (\<lambda>f. f j = Holding t \<and> infinite {n. f n = Gone}) ij"
  unfolding remote_follows_def
proof (intro conjI allI impI)
  have cofinite: "infinite {m. (f(k := ph)) m = Gone}" if "infinite {m. f m = Gone}" for f :: "nat \<Rightarrow> phase" and k ph
  proof -
    have "{m. f m = Gone} \<subseteq> insert k {m. (f(k := ph)) m = Gone}" by auto
    then show ?thesis using that by (meson finite.insertI finite_subset)
  qed
  show "not_about i (\<lambda>f. f j = Holding t \<and> infinite {n. f n = Gone})"
    using assms(1) cofinite by (simp add: not_about_def)
  fix n W r
  assume "lineage_inv fam True W \<and>
    (ln_tasks W j = Holding t \<and> infinite {m. ln_tasks W m = Gone}) \<and> ln_store W = view dl r"
  then have W: "lineage_inv fam True W" "ln_tasks W j = Holding t" "infinite {m. ln_tasks W m = Gone}"
      "ln_store W = view dl r"
    by simp_all
  have "infinite ({m. ln_tasks W m = Gone} - {i, j})" using W(3) by simp
  then obtain k where k: "ln_tasks W k = Gone" "k \<noteq> i" "k \<noteq> j"
    by (metis (mono_tags, lifting) DiffE finite.emptyI insertCI mem_Collect_eq equals0I)
  let ?V = "moved k (Holding (session_clone t)) (ln_heap W) (ln_store W) W"
  let ?P = "\<lambda>f. f i = ln_tasks W i \<and> f j = Holding t \<and> infinite {n. f n = Gone}"
  have step: "lineage_step commit (\<lambda>t m. m(t := None)) True W ?V" by (rule l_clone[OF W(2) k(1)])
  have P: "?P (ln_tasks ?V)" using W(2,3) k cofinite by (simp add: moved_def)
  obtain res w' where call: "remote_store_session c recheck (put dl) (undo dl) (others dl) (session_clone t)
      (ln_heap ?V, r) = (res, w')"
    by (metis surj_pair)
  obtain ph where "runs k ?P ?V ph (seen (view dl) w')"
    using save_runs[OF assms(2) inner[OF k(2,3), of "ln_tasks W i"] inv_step[OF step W(1)] call _ P] W(4) by auto
  then obtain V' where V': "record_steps commit ?V V'" "?P (ln_tasks V')"
      "(ln_heap V', ln_store V') = seen (view dl) w'"
    unfolding run_to_def by blast
  have "record_steps commit W V'"
    using step V'(1) by (rule converse_rtranclp_into_rtranclp)
  moreover have "w' = ij n (ln_heap W, r)" using call by (simp add: saves)
  ultimately show "runs i (\<lambda>f. f j = Holding t \<and> infinite {n. f n = Gone}) W (ln_tasks W i)
      (seen (view dl) (ij n (ln_heap W, r)))"
    using V'(2,3) unfolding run_to_def by auto
qed

end

end
