(* ===== verification/Backend_Protocol.thy ===== *)
theory Backend_Protocol
  imports Remote_Protocol
begin

text \<open>
  The three kinds of external stores as providers of \<open>protocol_backend\<close>: their handlers are
  executions of the lineage protocol, and after a deletion that has returned successfully no
  later save of the family adds a record, whatever requests and answers are lost.
\<close>

subsection \<open>SQL\<close>

abbreviation sql_removing ::
  "('r, 't) sql_client \<Rightarrow> string \<Rightarrow> 'r remote \<Rightarrow> (error + unit) \<times> 'r remote" where
  "sql_removing cl \<equiv> sql_delete (sc_dialect cl) (sc_store cl) (sc_others cl) (sc_net cl) 1"

lemma sql_delete_removes:
  assumes "client_lawful cl"
    and "sql_delete (sc_dialect cl) (sc_store cl) (sc_others cl) (sc_net cl) k t w = (res, w')"
  shows "removes (sc_view cl) (sc_others cl) t w res w'"
  using sql_delete_result[OF assms(1)[unfolded client_lawful_def] assms(2)] sql_delete_heap[OF assms(2)]
  unfolding removes_def by blast

interpretation sql_protocol: protocol_backend conditional_write sc_view client_lawful sc_others
  sql_putting sql_undoing sql_removing
proof (intro protocol_backend.intro protocol_backend_axioms.intro, goal_cases)
  case 1
  show ?case by unfold_locales
next
  case (2 cl origin snap json w outcome w' Q I)
  have "put_result Q I outcome (seen (sc_view cl) w')"
    by (rule sql_put_lands[where Q = Q and I = I, OF 2(1)[unfolded client_lawful_def] 2(2,3)]) (rule 2(4,6), assumption+)+
  then show ?case by (auto simp: put_result_def)
qed (auto intro: sql_delete_removes)

subsection \<open>Redis\<close>

abbreviation redis_putting ::
  "'r redis_client \<Rightarrow> string option \<Rightarrow> session \<Rightarrow> string \<Rightarrow> 'r remote \<Rightarrow> write_outcome \<times> 'r remote" where
  "redis_putting cl \<equiv> redis_put (rl_store cl) (rl_now cl) (rl_others cl) (rl_net cl)"

abbreviation redis_removing ::
  "'r redis_client \<Rightarrow> nat \<Rightarrow> string \<Rightarrow> 'r remote \<Rightarrow> (error + unit) \<times> 'r remote" where
  "redis_removing cl k \<equiv> redis_delete (rl_store cl) (rl_others cl) (rl_net cl) k"

abbreviation redis_view :: "'r redis_client \<Rightarrow> 'r \<Rightarrow> string \<rightharpoonup> string \<times> u64 option" where
  "redis_view cl \<equiv> redis_records (rl_store cl) (rl_view cl)"

lemma redis_delete_removes:
  assumes "client_laws cl" and "redis_removing cl k t w = (res, w')"
  shows "removes (redis_view cl) (rl_others cl) t w res w'"
proof -
  have "redis_view cl (rd_del (rs_server (rl_store cl)) (redis_key (rl_store cl) t) r) =
      (redis_view cl r)(t := None)" for r
    using redis_lawsD(5)[OF assms(1)[unfolded client_laws_def]] by (auto simp: redis_records_def)
  then show ?thesis
    using assms(2) unfolding removes_def redis_delete_def
    by (intro exI[of _ k]) (auto simp: remote_call_def transmit_def Let_def split_beta split: fault.splits)
qed

lemma redis_put_lands:
  assumes laws: "client_laws cl" and run: "redis_putting cl origin snap json w = (outcome, w')"
    and start: "Q (seen (redis_view cl) w)"
    and others: "\<And>n v. Q (seen (redis_view cl) v) \<Longrightarrow> Q (seen (redis_view cl) (rl_others cl n v))"
    and gone: "\<And>h m t. Q (h, m) \<Longrightarrow> Q (h, m(t := None))"
    and step: "\<And>h m e m'. Q (h, m) \<Longrightarrow> conditional_write origin (s_id snap) e m = Some m' \<Longrightarrow> I (h, m')"
  shows "case outcome of Stored \<Rightarrow> I (seen (redis_view cl) w') | Revoked \<Rightarrow> Q (seen (redis_view cl) w')
    | Failed e \<Rightarrow> Q (seen (redis_view cl) w') \<or> I (seen (redis_view cl) w')"
proof (cases "s_expiry snap \<noteq> None \<and> expires_in (rl_now cl) snap = None")
  case True
  obtain res w1 where del: "redis_removing cl 4 (put_target origin (s_id snap)) w = (res, w1)"
    by (rule prod.exhaust)
  from redis_delete_removes[OF laws del] obtain n where n: "fst w1 = fst (rl_others cl n w)"
      "redis_view cl (snd w1) = (redis_view cl (snd (rl_others cl n w)))(put_target origin (s_id snap) := None) \<or>
       redis_view cl (snd w1) = redis_view cl (snd (rl_others cl n w))"
    unfolding removes_def by blast
  have "Q (seen (redis_view cl) w1)" using others[OF start, of n] n gone by auto
  then show ?thesis using run True del by (cases res) (auto simp: redis_put_eq)
next
  case live: False
  show ?thesis
  proof (cases "lifetime (rl_now cl) snap")
    case (Inl e)
    then show ?thesis using run live start unfolding redis_put_eq if_not_P[OF live] by auto
  next
    case (Inr px)
    let ?req = "redis_commit (rl_store cl) origin (s_id snap) (json, px)"
    obtain res w1 where req: "remote_call (rl_others cl) (rl_net cl) 4 ?req w = (res, w1)" by (rule prod.exhaust)
    obtain h r where at: "rl_others cl 4 w = (h, r)" by fastforce
    have q: "Q (h, redis_view cl r)" using others[OF start, of 4] by (simp add: at)
    obtain ok r1 where c: "?req r = (ok, r1)" by (rule prod.exhaust)
    have ended: "if ok then I (h, redis_view cl r1) else Q (h, redis_view cl r1)"
      using redis_commit_refines[OF laws[unfolded client_laws_def], of "(json, px)" origin "s_id snap" r]
        lifetime_pos[OF Inr] c step[OF q] q
      by (auto split: bool.splits)
    have "w1 = (h, r) \<and> (\<exists>e. res = Inl e) \<or> w1 = (h, r1) \<and> (res = Inr ok \<or> (\<exists>e. res = Inl e))"
      using req c by (auto simp: remote_call_def transmit_def Let_def at split: fault.splits)
    then show ?thesis
      using run req Inr q ended unfolding redis_put_eq if_not_P[OF live]
      by (auto split: if_splits)
  qed
qed

interpretation redis_protocol: protocol_backend conditional_write redis_view client_laws rl_others
  redis_putting "\<lambda>cl. redis_removing cl 5" "\<lambda>cl. redis_removing cl 1"
proof (intro protocol_backend.intro protocol_backend_axioms.intro, goal_cases)
  case 1
  show ?case by unfold_locales
next
  case (2 cl origin snap json w outcome w' Q I)
  show ?case by (rule redis_put_lands[where Q = Q and I = I, OF 2(1-3)]) (rule 2(4-6), assumption+)+
qed (auto intro: redis_delete_removes)

subsection \<open>MongoDB\<close>

text \<open>
  The request that adds or changes a document. A rotation removes the old document first, which
  is a removal like any other.
\<close>

definition document_write ::
  "string option \<Rightarrow> string \<Rightarrow> 'e \<Rightarrow> (string \<rightharpoonup> 'e) \<Rightarrow> (string \<rightharpoonup> 'e) option" where
  "document_write origin ident d m =
     (if (origin = Some ident) = (m ident \<noteq> None) then Some (m(ident \<mapsto> d)) else None)"

abbreviation mongo_removing ::
  "'r mongo_client \<Rightarrow> string \<Rightarrow> 'r remote \<Rightarrow> (error + unit) \<times> 'r remote" where
  "mongo_removing cl \<equiv> mongo_undo (mc_store cl) (mc_others cl) (mc_net cl) 1"

text \<open>A request to the server, seen through the collection.\<close>

lemma mongo_request_lands:
  assumes "remote_call (mc_others cl) (mc_net cl) k f w = (res, w')"
    and "Q (seen (mongo_docs cl) w)"
    and "\<And>n v. Q (seen (mongo_docs cl) v) \<Longrightarrow> Q (seen (mongo_docs cl) (mc_others cl n v))"
    and effect: "\<And>h r. Q (h, mongo_docs cl r) \<Longrightarrow>
      (if ok (fst (f r)) then J (h, mongo_docs cl (snd (f r))) else Q (h, mongo_docs cl (snd (f r))))"
  shows "case res of Inl e \<Rightarrow> Q (seen (mongo_docs cl) w') \<or> J (seen (mongo_docs cl) w')
    | Inr x \<Rightarrow> if ok x then J (seen (mongo_docs cl) w') else Q (seen (mongo_docs cl) w')"
proof -
  obtain h r where at: "mc_others cl k w = (h, r)" by fastforce
  have "Q (h, mongo_docs cl r)" using assms(3)[OF assms(2), of k] by (simp add: at)
  with effect[OF this] show ?thesis
    using assms(1) by (auto simp: remote_call_def transmit_def Let_def at split_beta split: fault.splits if_splits)
qed

lemma mongo_undo_removes:
  assumes "mongo_lawful cl" and "mongo_undo (mc_store cl) (mc_others cl) (mc_net cl) k t w = (res, w')"
  shows "removes (mongo_docs cl) (mc_others cl) t w res w'"
proof -
  have "mongo_docs cl (snd (md_delete_one (mg_client (mc_store cl)) (mongo_coll (mc_store cl)) t r)) =
      (mongo_docs cl r)(t := None)" for r
    using mongo_lawsD(7)[OF assms(1)[unfolded mongo_lawful_def]] by (simp add: mongo_docs_def)
  then show ?thesis
    using assms(2) unfolding removes_def mongo_undo_def mongo_delete_def
    by (intro exI[of _ k])
       (auto simp: remote_call_def transmit_def Let_def split_beta split: fault.splits sum.splits prod.splits)
qed

lemma mongo_insert_lands:
  assumes lawful: "mongo_lawful cl"
    and "mongo_insert (mc_store cl) (mc_others cl) (mc_net cl) k (session_doc_of snap json) w = (outcome, w')"
    and start: "Q (seen (mongo_docs cl) w)"
    and others: "\<And>n v. Q (seen (mongo_docs cl) v) \<Longrightarrow> Q (seen (mongo_docs cl) (mc_others cl n v))"
    and "origin \<noteq> Some (s_id snap)"
    and step: "\<And>h m e m'. Q (h, m) \<Longrightarrow> document_write origin (s_id snap) e m = Some m' \<Longrightarrow> I (h, m')"
  shows "outcome = Stored \<and> I (seen (mongo_docs cl) w') \<or>
    (\<exists>e. outcome = Failed e) \<and> (Q (seen (mongo_docs cl) w') \<or> I (seen (mongo_docs cl) w'))"
proof -
  let ?f = "md_insert_one (mg_client (mc_store cl)) (mongo_coll (mc_store cl)) (session_doc_of snap json)"
  let ?d = "session_doc_of snap json"
  obtain res w1 where req: "remote_call (mc_others cl) (mc_net cl) k ?f w = (res, w1)" by (rule prod.exhaust)
  have "case res of Inl e \<Rightarrow> Q (seen (mongo_docs cl) w1) \<or> I (seen (mongo_docs cl) w1)
    | Inr x \<Rightarrow> if x then I (seen (mongo_docs cl) w1) else Q (seen (mongo_docs cl) w1)"
  proof (rule mongo_request_lands[OF req start others])
    fix h r assume q: "Q (h, mongo_docs cl r)"
    show "if fst (?f r) then I (h, mongo_docs cl (snd (?f r))) else Q (h, mongo_docs cl (snd (?f r)))"
      using mongo_lawsD(2,3)[OF lawful[unfolded mongo_lawful_def], of r "mongo_coll (mc_store cl)" ?d] step[OF q] q assms(5)
      by (cases "mongo_docs cl r (s_id snap) = None")
         (auto simp: mongo_docs_def document_write_def session_doc_of_def)
  qed
  then show ?thesis
    using assms(2) req by (cases res) (auto simp: mongo_insert_def split: if_splits)
qed

lemma mongo_put_lands:
  assumes lawful: "mongo_lawful cl" and run: "mongo_putting cl origin snap json w = (outcome, w')"
    and start: "Q (seen (mongo_docs cl) w)"
    and others: "\<And>n v. Q (seen (mongo_docs cl) v) \<Longrightarrow> Q (seen (mongo_docs cl) (mc_others cl n v))"
    and gone: "\<And>h m t. Q (h, m) \<Longrightarrow> Q (h, m(t := None))"
    and step: "\<And>h m e m'. Q (h, m) \<Longrightarrow> document_write origin (s_id snap) e m = Some m' \<Longrightarrow> I (h, m')"
  shows "outcome = Stored \<and> I (seen (mongo_docs cl) w') \<or>
    (\<exists>e. outcome = Failed e) \<and> (Q (seen (mongo_docs cl) w') \<or> I (seen (mongo_docs cl) w'))"
proof (cases "rotation_source origin (s_id snap)")
  case (Some old_id)
  then have origin: "origin \<noteq> Some (s_id snap)"
    by (auto simp: rotation_source_def split: option.splits if_splits)
  obtain res w1 where del: "mongo_delete (mc_store cl) (mc_others cl) (mc_net cl) 4 old_id w = (res, w1)"
    by (rule prod.exhaust)
  let ?undo = "mongo_undo (mc_store cl) (mc_others cl) (mc_net cl) 4 old_id w"
  have "removes (mongo_docs cl) (mc_others cl) old_id w (fst ?undo) (snd ?undo)"
    by (rule mongo_undo_removes[OF lawful]) simp
  moreover have "snd ?undo = w1" using del by (auto simp: mongo_undo_def split: sum.splits)
  ultimately obtain n where n: "fst w1 = fst (mc_others cl n w)"
      "mongo_docs cl (snd w1) = (mongo_docs cl (snd (mc_others cl n w)))(old_id := None) \<or>
       mongo_docs cl (snd w1) = mongo_docs cl (snd (mc_others cl n w))"
    unfolding removes_def by metis
  have q1: "Q (seen (mongo_docs cl) w1)" using others[OF start, of n] n gone by auto
  show ?thesis
  proof (cases "\<exists>k. res = Inr k \<and> k \<noteq> 0")
    case True
    then have "mongo_insert (mc_store cl) (mc_others cl) (mc_net cl) 5 (session_doc_of snap json) w1 = (outcome, w')"
      using run Some del by (auto simp: mongo_put_def Let_def)
    then show ?thesis
      by (rule mongo_insert_lands[where Q = Q and I = I and origin = origin, OF lawful _ q1])
         (rule origin | (rule others step, assumption+))+
  next
    case False
    then show ?thesis using run Some del q1 by (cases res) (auto simp: mongo_put_def Let_def)
  qed
next
  case None
  then have none: "origin = None \<or> origin = Some (s_id snap)"
    by (auto simp: rotation_source_def split: option.splits if_splits)
  show ?thesis
  proof (cases "origin = None")
    case True
    then have "mongo_insert (mc_store cl) (mc_others cl) (mc_net cl) 4 (session_doc_of snap json) w = (outcome, w')"
      using run None by (simp add: mongo_put_def Let_def)
    then show ?thesis
      by (rule mongo_insert_lands[where Q = Q and I = I and origin = origin, OF lawful _ start])
         (simp add: True | (rule others step, assumption+))+
  next
    case False
    let ?d = "session_doc_of snap json"
    let ?f = "md_replace_one (mg_client (mc_store cl)) (mongo_coll (mc_store cl)) (s_id snap) ?d"
    obtain res w1 where req: "remote_call (mc_others cl) (mc_net cl) 4 ?f w = (res, w1)" by (rule prod.exhaust)
    have "case res of Inl e \<Rightarrow> Q (seen (mongo_docs cl) w1) \<or> I (seen (mongo_docs cl) w1)
      | Inr x \<Rightarrow> if x = 1 then I (seen (mongo_docs cl) w1) else Q (seen (mongo_docs cl) w1)"
    proof (rule mongo_request_lands[OF req start others])
      fix h r assume q: "Q (h, mongo_docs cl r)"
      have d: "doc_id ?d = s_id snap" by (simp add: session_doc_of_def)
      show "if fst (?f r) = 1 then I (h, mongo_docs cl (snd (?f r))) else Q (h, mongo_docs cl (snd (?f r)))"
        using mongo_lawsD(4)[OF lawful[unfolded mongo_lawful_def], of r "mongo_coll (mc_store cl)" ?d, unfolded d]
          mongo_lawsD(5)[OF lawful[unfolded mongo_lawful_def], of r "mongo_coll (mc_store cl)" "s_id snap" ?d]
          step[OF q] q none False
        by (cases "mongo_docs cl r (s_id snap) = None") (auto simp: mongo_docs_def document_write_def)
    qed
    then show ?thesis
      using run None False req by (cases res) (auto simp: mongo_put_def Let_def split: if_splits)
  qed
qed

interpretation mongo_protocol: protocol_backend document_write mongo_docs mongo_lawful mc_others
  mongo_putting mongo_undoing mongo_removing
proof (intro protocol_backend.intro protocol_backend_axioms.intro, goal_cases)
  case 1
  show ?case by unfold_locales (auto simp: document_write_def split: if_splits)
next
  case (2 cl origin snap json w outcome w' Q I)
  have "outcome = Stored \<and> I (seen (mongo_docs cl) w') \<or>
    (\<exists>e. outcome = Failed e) \<and> (Q (seen (mongo_docs cl) w') \<or> I (seen (mongo_docs cl) w'))"
    by (rule mongo_put_lands[where Q = Q and I = I, OF 2(1-3)]) (rule 2(4-6), assumption+)+
  then show ?case by auto
qed (auto intro: mongo_undo_removes)

subsection \<open>Deletion is final, of the handlers\<close>

text \<open>
  C19: once \<open>destroy_session\<close> of a SQL store has returned successfully, no call of its
  \<open>store_session\<close> by any task of the clone family adds a row any more, at whatever point of
  whatever execution it begins, in whatever client of the same table, however it ends, whatever
  requests and answers are lost, and whatever happens while it is suspended.
\<close>
theorem sql_destroy_stops_saves:
  fixes cl :: "('r, 't) sql_client"
  assumes "session_allocated h0 s0" and "record_steps conditional_write (lineage_start s0 h0 m0) W"
    and lawful: "client_lawful cl" and others: "surrounds s0 (sc_view cl) conditional_write i P (sc_others cl)"
    and "ln_tasks W i = Holding s" "P (ln_tasks W)" "ln_store W = sc_view cl r"
    and call: "sql_destroy_session (sc_dialect cl) (sc_store cl) (sc_others cl) (sc_net cl) s (ln_heap W, r) =
      (Ready (Inr ()), (h1, r1))"
  shows "\<exists>W1. record_steps conditional_write W W1 \<and> ln_heap W1 = h1 \<and> ln_store W1 = sc_view cl r1 \<and> P (ln_tasks W1) \<and>
    later_saves_add_nothing
      (\<lambda>(dl :: ('r, 't) sql_client) c. sql_store_session c (sc_dialect dl) (sc_store dl) (sc_others dl) (sc_net dl))
      sc_view client_lawful sc_others conditional_write s0 W1"
  using sql_protocol.destroy_stops_saves[where recheck = False, OF assms(1-7) call[unfolded sql_destroy_session_def]]
  unfolding sql_store_session_def .

theorem sql_destroy_stops_saves_witness:
  "\<exists>h1 r1. sql_destroy_session sqlite example_sql undisturbed (\<lambda>k. Delivered) example_session
       (example_heap, [(''a'', None, ''t'')]) = (Ready (Inr ()), (h1, r1)) \<and> map_of r1 = Map.empty \<and>
     dom (map_of (snd (snd (sql_store_session reference_codec sqlite example_sql undisturbed (\<lambda>k. Delivered)
       (session_clone example_session) (h1, r1))))) \<subseteq> dom (map_of r1)"
proof -
  let ?cl = quiet_sql_client and ?r = "[(''a'', None :: i64 option, ''t'')]"
  let ?P = "\<lambda>f :: nat \<Rightarrow> phase. f 1 = Holding (session_clone example_session)"
    and ?W = "clone_waiting (map_of ?r)"
  have lawful: "client_lawful ?cl" using example_sql_laws by (simp add: client_lawful_def)
  obtain h1 r1 where call: "sql_destroy_session sqlite example_sql undisturbed (\<lambda>k. Delivered) example_session
      (example_heap, ?r) = (Ready (Inr ()), (h1, r1))" "map_of r1 = Map.empty"
    using sql_row_lawsD(5,6)[OF example_sql_laws, of "''a''" ?r]
    by (simp add: sql_destroy_session_def remote_destroy_session_def Let_def begin_delete_locked_def
        lifecycle_delete_def session_defs deletion_target_def persistence_origin_def example_session_def
        sql_delete_def sql_request_def split_beta)
  have at: "ln_tasks ?W 0 = Holding example_session" "?P (ln_tasks ?W)" "ln_store ?W = sc_view ?cl ?r"
    and call': "sql_destroy_session (sc_dialect ?cl) (sc_store ?cl) (sc_others ?cl) (sc_net ?cl) example_session
      (ln_heap ?W, ?r) = (Ready (Inr ()), (h1, r1))"
    using call(1) by simp_all
  have env: "surrounds example_session (sc_view ?cl) conditional_write i Q (sc_others ?cl)" if "not_about i Q" for i Q
    using undisturbed_remote_follows[OF that] by simp
  have env0: "surrounds example_session (sc_view ?cl) conditional_write 0 ?P (sc_others ?cl)"
    by (rule env) (simp add: not_about_def)
  obtain W1 where W1: "ln_heap W1 = h1" "ln_store W1 = map_of r1" "?P (ln_tasks W1)"
    and saves: "later_saves_add_nothing
      (\<lambda>(dl :: (sql_table, sql_log) sql_client) c. sql_store_session c (sc_dialect dl) (sc_store dl) (sc_others dl) (sc_net dl))
      sc_view client_lawful sc_others conditional_write example_session W1"
    using sql_destroy_stops_saves[where P = ?P and W = ?W, OF example_allocated clone_waiting_reached lawful env0 at call']
    unfolding quiet_sql_client_sel by (elim exE conjE) (rule that)
  have "surrounds example_session (sc_view ?cl) conditional_write 1 (\<lambda>_. True) (sc_others ?cl)"
    by (rule env) (simp add: not_about_def)
  from later_saves_add_nothingD[OF saves lawful this rtranclp.rtrancl_refl, of "session_clone example_session" r1
      reference_codec] W1 call
  show ?thesis by simp
qed

text \<open>The same of Redis, for every key prefix and whatever the clocks say.\<close>

theorem redis_destroy_stops_saves:
  fixes cl :: "'r redis_client"
  assumes "session_allocated h0 s0" and "record_steps conditional_write (lineage_start s0 h0 m0) W"
    and lawful: "client_laws cl" and others: "surrounds s0 (redis_view cl) conditional_write i P (rl_others cl)"
    and "ln_tasks W i = Holding s" "P (ln_tasks W)" "ln_store W = redis_view cl r"
    and call: "redis_destroy_session (rl_store cl) (rl_others cl) (rl_net cl) s (ln_heap W, r) =
      (Ready (Inr ()), (h1, r1))"
  shows "\<exists>W1. record_steps conditional_write W W1 \<and> ln_heap W1 = h1 \<and> ln_store W1 = redis_view cl r1 \<and>
    P (ln_tasks W1) \<and>
    later_saves_add_nothing
      (\<lambda>(dl :: 'r redis_client) c. redis_store_session c (rl_store dl) (rl_now dl) (rl_others dl) (rl_net dl))
      redis_view client_laws rl_others conditional_write s0 W1"
  using redis_protocol.destroy_stops_saves[where recheck = True, OF assms(1-7) call[unfolded redis_destroy_session_def]]
  unfolding redis_store_session_def .

text \<open>
  C20: once \<open>destroy_session\<close> of the MongoDB store has returned successfully, no call of its
  \<open>store_session\<close> by any task of the clone family adds a document any more, at whatever point of
  whatever execution it begins, also between the two requests of a rotation, whatever requests
  and answers are lost, and whatever happens while it is suspended.
\<close>
theorem mongo_destroy_stops_saves:
  fixes cl :: "'r mongo_client"
  assumes "session_allocated h0 s0" and "record_steps document_write (lineage_start s0 h0 m0) W"
    and lawful: "mongo_lawful cl" and others: "surrounds s0 (mongo_docs cl) document_write i P (mc_others cl)"
    and "ln_tasks W i = Holding s" "P (ln_tasks W)" "ln_store W = mongo_docs cl r"
    and call: "mongo_destroy_session (mc_store cl) (mc_others cl) (mc_net cl) s (ln_heap W, r) =
      (Ready (Inr ()), (h1, r1))"
  shows "\<exists>W1. record_steps document_write W W1 \<and> ln_heap W1 = h1 \<and> ln_store W1 = mongo_docs cl r1 \<and> P (ln_tasks W1) \<and>
    later_saves_add_nothing
      (\<lambda>(dl :: 'r mongo_client) c. mongo_store_session c (mc_store dl) (mc_others dl) (mc_net dl))
      mongo_docs mongo_lawful mc_others document_write s0 W1"
  using mongo_protocol.destroy_stops_saves[where recheck = True, OF assms(1-7) call[unfolded mongo_destroy_session_def]]
  unfolding mongo_store_session_def .

theorem mongo_destroy_stops_saves_witness:
  "\<exists>h1 r1. mongo_destroy_session example_mongo undisturbed (\<lambda>k. Delivered) example_session
       (example_heap, [(((''db'', ''c''), ''a''), \<lparr>doc_id = ''a'', doc_expires_at = None, doc_session = ''t''\<rparr>)]) =
       (Ready (Inr ()), (h1, r1)) \<and> r1 = [] \<and>
     dom (mongo_docs (mongo_example_client (\<lambda>k. ReplyLost)) (snd (snd (mongo_store_session reference_codec
       example_mongo undisturbed (\<lambda>k. ReplyLost) (session_clone example_session) (h1, r1))))) \<subseteq> {}"
proof -
  let ?cl = "mongo_example_client (\<lambda>k. Delivered)" and ?dl = "mongo_example_client (\<lambda>k. ReplyLost)"
  let ?r = "[(((''db'', ''c''), ''a''), \<lparr>doc_id = ''a'', doc_expires_at = None, doc_session = ''t''\<rparr>)]"
  let ?P = "\<lambda>f :: nat \<Rightarrow> phase. f 1 = Holding (session_clone example_session)"
  let ?W = "clone_waiting (mongo_docs ?cl ?r)"
  obtain h1 where call: "mongo_destroy_session example_mongo undisturbed (\<lambda>k. Delivered) example_session
      (example_heap, ?r) = (Ready (Inr ()), (h1, []))"
    by (simp add: mongo_destroy_session_def remote_destroy_session_def Let_def begin_delete_locked_def
        lifecycle_delete_def session_defs deletion_target_def persistence_origin_def example_session_def
        mongo_undo_def mongo_delete_def reference_mongo_def mdb_remove_def split_beta)
  have at: "ln_tasks ?W 0 = Holding example_session" "?P (ln_tasks ?W)" "ln_store ?W = mongo_docs ?cl ?r"
    and call': "mongo_destroy_session (mc_store ?cl) (mc_others ?cl) (mc_net ?cl) example_session
      (ln_heap ?W, ?r) = (Ready (Inr ()), (h1, []))"
    using call by simp_all
  have env: "surrounds example_session (mongo_docs (mongo_example_client net)) document_write i Q
      (mc_others (mongo_example_client net))" if "not_about i Q" for i Q net
    using undisturbed_remote_follows[OF that] by simp
  have env0: "surrounds example_session (mongo_docs ?cl) document_write 0 ?P (mc_others ?cl)"
    by (rule env) (simp add: not_about_def)
  obtain W1 where W1: "ln_heap W1 = h1" "ln_store W1 = mongo_docs ?cl []" "?P (ln_tasks W1)"
    and saves: "later_saves_add_nothing
      (\<lambda>(dl :: mongo_db mongo_client) c. mongo_store_session c (mc_store dl) (mc_others dl) (mc_net dl))
      mongo_docs mongo_lawful mc_others document_write example_session W1"
    using mongo_destroy_stops_saves[where P = ?P and W = ?W, OF example_allocated clone_waiting_reached
        mongo_example_lawful env0 at call']
    by (elim exE conjE) (rule that)
  have "surrounds example_session (mongo_docs ?dl) document_write 1 (\<lambda>_. True) (mc_others ?dl)"
    by (rule env) (simp add: not_about_def)
  note stopped = later_saves_add_nothingD[OF saves mongo_example_lawful this rtranclp.rtrancl_refl, of
      "session_clone example_session" "[]" reference_codec] W1 call
  have "mongo_docs (mongo_example_client net) [] = Map.empty" for net
    by (simp add: fun_eq_iff mongo_docs_def reference_mongo_view_def)
  with stopped show ?thesis by simp
qed

end
