(* ===== verification/Redis_Scan.thy ===== *)
theory Redis_Scan
  imports Redis_Protocol
begin

text \<open>
  The scan loops of the Redis store end, and clearing the store removes exactly the keys
  under its prefix, by the guarantees that Redis documents for \<open>SCAN\<close>.
\<close>

text \<open>
  A full iteration, over states whose keys only disappear, comes back to cursor 0, and it
  returns every key matching the pattern that was present throughout.
\<close>

definition scan_laws ::
  "'r redis_server \<Rightarrow> 'r redis_view \<Rightarrow> (string \<Rightarrow> string \<Rightarrow> bool) \<Rightarrow> bool" where
  "scan_laws sv view g \<longleftrightarrow>
     (\<forall>pattern count rs cur.
        cur 0 = 0 \<and> (\<forall>i. cur (Suc i) = fst (rd_scan sv (cur i) pattern count (rs i))) \<and>
        (\<forall>i. dom (view (rs (Suc i))) \<subseteq> dom (view (rs i))) \<longrightarrow>
        (\<exists>n. cur (Suc n) = 0 \<and> (\<forall>i<n. cur (Suc i) \<noteq> 0) \<and>
           (\<forall>k. g pattern k \<and> (\<forall>i\<le>n. k \<in> dom (view (rs i))) \<longrightarrow>
              (\<exists>i\<le>n. k \<in> set (snd (rd_scan sv (cur i) pattern count (rs i)))))))"

lemma reference_scan_laws: "scan_laws reference_redis map_of ref_glob"
  unfolding scan_laws_def
proof (intro allI impI)
  fix pattern count and rs :: "nat \<Rightarrow> redis_db" and cur :: "nat \<Rightarrow> u64"
  assume "cur 0 = 0 \<and> (\<forall>i. cur (Suc i) = fst (rd_scan reference_redis (cur i) pattern count (rs i))) \<and>
    (\<forall>i. dom (map_of (rs (Suc i))) \<subseteq> dom (map_of (rs i)))"
  then have "cur (Suc 0) = 0"
    by (auto simp: reference_redis_def)
  then show "\<exists>n. cur (Suc n) = 0 \<and> (\<forall>i<n. cur (Suc i) \<noteq> 0) \<and>
      (\<forall>k. ref_glob pattern k \<and> (\<forall>i\<le>n. k \<in> dom (map_of (rs i))) \<longrightarrow>
         (\<exists>i\<le>n. k \<in> set (snd (rd_scan reference_redis (cur i) pattern count (rs i)))))"
    by (intro exI[of _ 0]) (auto simp: reference_redis_def dom_map_of_conv_image_fst)
qed

subsection \<open>One round of the loop\<close>

definition unlinked :: "'r redis_server \<Rightarrow> string list list \<Rightarrow> 'r \<Rightarrow> 'r" where
  "unlinked sv bs r = fold (\<lambda>b r. snd (rd_unlink sv b r)) bs r"

lemma unlink_batches_quiet:
  assumes "\<forall>k. net k = Delivered"
  shows "\<exists>k2. unlink_batches st undisturbed net k bs (h, r) = (k2, Inr (), (h, unlinked (rs_server st) bs r))"
  by (induction bs arbitrary: k r) (auto simp: assms unlinked_def)

lemma unlinked_view:
  assumes "redis_laws sv view"
  shows "view (unlinked sv bs r) k = (if k \<in> set (concat bs) then None else view r k)"
  using redis_lawsD(6)[OF assms] by (induction bs arbitrary: r) (auto simp: unlinked_def)

text \<open>The keys one round returns, and cursor and state after it.\<close>

definition round_keys :: "'r redis_store \<Rightarrow> u64 \<times> 'r \<Rightarrow> string list" where
  "round_keys st cr = filter (has_prefix st)
     (snd (rd_scan (rs_server st) (fst cr) (prefix_pattern (rs_prefix st)) SCAN_BATCH_SIZE (snd cr)))"

definition clear_round :: "'r redis_store \<Rightarrow> u64 \<times> 'r \<Rightarrow> u64 \<times> 'r" where
  "clear_round st cr =
     (fst (rd_scan (rs_server st) (fst cr) (prefix_pattern (rs_prefix st)) SCAN_BATCH_SIZE (snd cr)),
      unlinked (rs_server st) (chunks SCAN_BATCH_SIZE (round_keys st cr)) (snd cr))"

lemma round_view:
  assumes "redis_laws (rs_server st) view"
  shows "view (snd (clear_round st cr)) k =
    (if k \<in> set (round_keys st cr) then None else view (snd cr) k)"
proof -
  have "concat (chunks SCAN_BATCH_SIZE (round_keys st cr)) = round_keys st cr"
    by (rule concat_chunks) (simp add: SCAN_BATCH_SIZE_def)
  then show ?thesis
    using unlinked_view[OF assms, of "chunks SCAN_BATCH_SIZE (round_keys st cr)" "snd cr" k]
    by (simp only: clear_round_def snd_conv)
qed

lemma clear_from_step:
  assumes "\<forall>k. net k = Delivered"
  shows "\<exists>k2. redis_clear_from st undisturbed net k (fst cr) (h, snd cr) =
    (if fst (clear_round st cr) = 0 then Some (Inr (), (h, snd (clear_round st cr)))
     else redis_clear_from st undisturbed net k2 (fst (clear_round st cr)) (h, snd (clear_round st cr)))"
proof -
  obtain nxt keys where scan: "rd_scan (rs_server st) (fst cr) (prefix_pattern (rs_prefix st))
      SCAN_BATCH_SIZE (snd cr) = (nxt, keys)"
    by (rule prod.exhaust)
  obtain k2 where "unlink_batches st undisturbed net (k + 1)
      (chunks SCAN_BATCH_SIZE (filter (has_prefix st) keys)) (h, snd cr) =
      (k2, Inr (), (h, snd (clear_round st cr)))"
    using unlink_batches_quiet[OF assms, where k = "k + 1" and r = "snd cr" and h = h and st = st]
    by (auto simp: clear_round_def round_keys_def scan)
  then have "redis_clear_from st undisturbed net k (fst cr) (h, snd cr) =
      (if fst (clear_round st cr) = 0 then Some (Inr (), (h, snd (clear_round st cr)))
       else redis_clear_from st undisturbed net k2 (fst (clear_round st cr)) (h, snd (clear_round st cr)))"
    by (subst redis_clear_from.simps) (simp add: redis_scan_def assms scan clear_round_def)
  then show ?thesis by blast
qed

lemma clear_from_rounds:
  assumes "\<forall>k. net k = Delivered"
    and "fst (((clear_round st) ^^ Suc n) cr) = 0" "\<forall>i<n. fst (((clear_round st) ^^ Suc i) cr) \<noteq> 0"
  shows "redis_clear_from st undisturbed net k (fst cr) (h, snd cr) =
    Some (Inr (), (h, snd (((clear_round st) ^^ Suc n) cr)))"
  using assms(2,3)
proof (induction n arbitrary: k cr)
  case 0
  then show ?case using clear_from_step[OF assms(1), where st = st and k = k and cr = cr and h = h] by (auto simp del: undisturbed_apply)
next
  case (Suc n)
  have "fst (((clear_round st) ^^ Suc i) (clear_round st cr)) \<noteq> 0" if "i < n" for i
    using Suc.prems(2) that by (auto simp: funpow_swap1)
  then have "redis_clear_from st undisturbed net k2 (fst (clear_round st cr)) (h, snd (clear_round st cr)) =
      Some (Inr (), (h, snd (((clear_round st) ^^ Suc n) (clear_round st cr))))" for k2
    using Suc.prems(1) by (intro Suc.IH) (simp_all add: funpow_swap1)
  moreover have "fst (clear_round st cr) \<noteq> 0"
    using Suc.prems(2) by (auto dest: spec[of _ 0])
  ultimately show ?case
    using clear_from_step[OF assms(1), where st = st and k = k and cr = cr and h = h]
    by (auto simp: funpow_swap1 simp del: undisturbed_apply)
qed

text \<open>
  C28: with no other writer and a server that keeps the documented guarantees of \<open>SCAN\<close>,
  clearing the store terminates, reports success, and leaves exactly the keys that do not
  start with the store's prefix, whatever characters the prefix contains and however the
  scan splits the keys.
\<close>
theorem redis_clear_terminates:
  assumes "redis_laws (rs_server st) view" and "scan_laws (rs_server st) view g" and "glob_laws g"
    and "\<forall>k. net k = Delivered"
  shows "\<exists>r'. redis_clear_store st undisturbed net (h, r) = Some (Inr (), (h, r')) \<and>
    (\<forall>k. view r' k = (if has_prefix st k then None else view r k))"
proof -
  let ?pat = "prefix_pattern (rs_prefix st)"
  define it where "it i = ((clear_round st) ^^ i) (0, r)" for i
  have it: "it 0 = (0, r)" "it (Suc i) = clear_round st (it i)" for i
    by (simp_all add: it_def)
  have next_view: "view (snd (it (Suc i))) k = (if k \<in> set (round_keys st (it i)) then None else view (snd (it i)) k)" for i k
    by (simp add: it(2) round_view[OF assms(1)])
  have shrink: "dom (view (snd (it (Suc i)))) \<subseteq> dom (view (snd (it i)))" for i
    by (auto simp: dom_def next_view split: if_splits)
  have cursors: "fst (it (Suc i)) = fst (rd_scan (rs_server st) (fst (it i)) ?pat SCAN_BATCH_SIZE (snd (it i)))" for i
    by (simp add: it(2) clear_round_def)
  obtain n where n: "fst (it (Suc n)) = 0" "\<forall>i<n. fst (it (Suc i)) \<noteq> 0"
    and full: "\<And>k. g ?pat k \<Longrightarrow> \<forall>i\<le>n. k \<in> dom (view (snd (it i))) \<Longrightarrow>
      \<exists>i\<le>n. k \<in> set (snd (rd_scan (rs_server st) (fst (it i)) ?pat SCAN_BATCH_SIZE (snd (it i))))"
    using assms(2)[unfolded scan_laws_def, rule_format, of "\<lambda>i. fst (it i)" ?pat SCAN_BATCH_SIZE "\<lambda>i. snd (it i)"]
      cursors shrink it(1) by auto
  have run: "redis_clear_store st undisturbed net (h, r) = Some (Inr (), (h, snd (it (Suc n))))"
    using clear_from_rounds[OF assms(4), where st = st and n = n and cr = "(0, r)" and k = 0 and h = h] n
    by (simp add: redis_clear_store_def it_def)
  have outside: "view (snd (it i)) k = view r k" if "\<not> has_prefix st k" for i k
    using that by (induction i) (simp_all add: it(1) next_view round_keys_def)
  have mono: "dom (view (snd (it j))) \<subseteq> dom (view (snd (it i)))" if "i \<le> j" for i j
    using that by (rule lift_Suc_antimono_le[of "\<lambda>i. dom (view (snd (it i)))", OF shrink])
  have inside: "view (snd (it (Suc n))) k = None" if pre: "has_prefix st k" for k
  proof (rule ccontr)
    assume "view (snd (it (Suc n))) k \<noteq> None"
    then have present: "k \<in> dom (view (snd (it i)))" if "i \<le> Suc n" for i
      using subsetD[OF mono[OF that], of k] by (simp add: domIff)
    have "g ?pat k"
      using prefix_matches[OF assms(3)] pre by (simp add: has_prefix_def)
    then obtain i where i: "i \<le> n"
        "k \<in> set (snd (rd_scan (rs_server st) (fst (it i)) ?pat SCAN_BATCH_SIZE (snd (it i))))"
      using full[of k] present by auto
    then have "view (snd (it (Suc i))) k = None"
      using pre by (simp add: next_view round_keys_def)
    then show False using present[of "Suc i"] i(1) by (auto simp: dom_def)
  qed
  show ?thesis using run outside inside by auto
qed

theorem redis_clear_terminates_witness:
  "\<exists>r'. redis_clear_store example_redis undisturbed (\<lambda>k. Delivered)
      (example_heap, [(''p/a'', ''t'', None), (''q'', ''u'', None)]) = Some (Inr (), (example_heap, r')) \<and>
    map_of r' ''p/a'' = None \<and> map_of r' ''q'' = Some (''u'', None)"
proof -
  have laws: "redis_laws (rs_server example_redis) map_of" "scan_laws (rs_server example_redis) map_of ref_glob"
    by (simp_all add: example_redis_def reference_redis_laws reference_scan_laws)
  have keys: "has_prefix example_redis ''p/a''" "\<not> has_prefix example_redis ''q''"
    by (simp_all add: has_prefix_def example_redis_def)
  obtain r' where "redis_clear_store example_redis undisturbed (\<lambda>k. Delivered)
      (example_heap, [(''p/a'', ''t'', None), (''q'', ''u'', None)]) = Some (Inr (), (example_heap, r'))"
    "\<forall>k. map_of r' k = (if has_prefix example_redis k then None
       else map_of [(''p/a'', ''t'', None), (''q'', ''u'', None)] k)"
    using redis_clear_terminates[OF laws reference_glob_laws, of "\<lambda>k. Delivered"] by blast
  then show ?thesis using keys by simp
qed

end
