(* ===== verification/Mongo_Contract.thy ===== *)
theory Mongo_Contract
  imports Mongo_Protocol
begin

text \<open>
  The write of the MongoDB store against the contract of \<open>docs/custom-stores.md\<close>, for every
  loss of requests and answers: a rotation is two requests, so that beside the outcomes of
  the contract the old document alone may be gone. Also the errors of undisturbed writes,
  and the requests of a write as the steps of the lineage protocol.
\<close>

subsection \<open>The effect of one request\<close>

lemma mongo_delete_effect:
  assumes "mongo_lawful cl"
    and "mongo_delete (mc_store cl) undisturbed net k i (h, r) = (res, (h', r'))"
  shows "res = Inr (if mongo_docs cl r i = None then 0 else 1) \<and> mongo_docs cl r' = (mongo_docs cl r)(i := None) \<or>
    (\<exists>e. res = Inl e) \<and> (mongo_docs cl r' = mongo_docs cl r \<or> mongo_docs cl r' = (mongo_docs cl r)(i := None))"
  using assms(2) mongo_lawsD(6,7)[OF assms(1)[unfolded mongo_lawful_def], of "mongo_coll (mc_store cl)" i r]
  by (auto simp: mongo_delete_def remote_call_def transmit_def mongo_docs_def Let_def split_beta
      split: fault.splits if_splits)

lemma mongo_insert_effect:
  assumes "mongo_lawful cl"
    and "mongo_insert (mc_store cl) undisturbed net k d (h, r) = (outcome, (h', r'))"
  shows "outcome = Stored \<and> mongo_docs cl r (doc_id d) = None \<and> mongo_docs cl r' = (mongo_docs cl r)(doc_id d \<mapsto> d) \<or>
    (\<exists>e. outcome = Failed e) \<and> (mongo_docs cl r' = mongo_docs cl r \<or>
       net k = ReplyLost \<and> mongo_docs cl r (doc_id d) = None \<and> mongo_docs cl r' = (mongo_docs cl r)(doc_id d \<mapsto> d))"
  using assms(2) mongo_lawsD(2,3)[OF assms(1)[unfolded mongo_lawful_def], of r "mongo_coll (mc_store cl)" d]
  by (cases "mongo_docs cl r (doc_id d) = None")
     (auto simp: mongo_insert_def remote_call_def transmit_def mongo_docs_def Let_def split_beta
      split: fault.splits if_splits)

lemma mongo_replace_effect:
  assumes "mongo_lawful cl"
    and "remote_call undisturbed net k
      (md_replace_one (mg_client (mc_store cl)) (mongo_coll (mc_store cl)) (doc_id d) d) (h, r) = (res, (h', r'))"
  shows "(\<exists>n. res = Inr n \<and> (n = 1 \<longleftrightarrow> mongo_docs cl r (doc_id d) \<noteq> None)) \<and>
      mongo_docs cl r' = (if mongo_docs cl r (doc_id d) = None then mongo_docs cl r else (mongo_docs cl r)(doc_id d \<mapsto> d)) \<or>
    (\<exists>e. res = Inl e) \<and> (mongo_docs cl r' = mongo_docs cl r \<or>
      net k = ReplyLost \<and> mongo_docs cl r (doc_id d) \<noteq> None \<and> mongo_docs cl r' = (mongo_docs cl r)(doc_id d \<mapsto> d))"
  using assms(2) mongo_lawsD(4,5)[OF assms(1)[unfolded mongo_lawful_def], of r "mongo_coll (mc_store cl)" ]
  by (cases "mongo_docs cl r (doc_id d) = None")
     (auto simp: remote_call_def transmit_def mongo_docs_def Let_def split_beta
      split: fault.splits if_splits)

lemma doc_id_of [simp]: "doc_id (session_doc_of snap json) = s_id snap"
  by (simp add: session_doc_of_def)

subsection \<open>Refinement of the contract\<close>

text \<open>
  C12: without other clients, and whatever requests and answers are lost, a write that is
  reported as stored has changed the collection exactly as the documented conditional write
  of the contract does. A write that fails has done nothing, or, where the answer to one of
  its requests was lost, all of it, or it has removed the old document of a rotation and
  nothing else; it never overwrites a collision and never creates what the contract refuses.
\<close>
theorem mongo_write_refines_contract:
  assumes "mongo_lawful cl"
    and "mongo_put (mc_store cl) undisturbed net origin snap json (h, r) = (outcome, (h', r'))"
  shows "case conditional_write origin (s_id snap) (session_doc_of snap json) (mongo_docs cl r) of
      None \<Rightarrow> (\<exists>e. outcome = Failed e) \<and> (mongo_docs cl r' = mongo_docs cl r \<or>
        (\<exists>old. rotation_source origin (s_id snap) = Some old \<and> mongo_docs cl r' = (mongo_docs cl r)(old := None)))
    | Some docs \<Rightarrow> outcome = Stored \<and> mongo_docs cl r' = docs \<or>
        (\<exists>e. outcome = Failed e) \<and> (mongo_docs cl r' = mongo_docs cl r \<or>
          mongo_docs cl r' = docs \<and> (\<exists>k. net k = ReplyLost) \<or>
          (\<exists>old. rotation_source origin (s_id snap) = Some old \<and> mongo_docs cl r' = (mongo_docs cl r)(old := None)))"
  using assms(2)
proof (cases rule: mongo_put_cases)
  case (refused old_id res)
  then show ?thesis
    using mongo_delete_effect[OF assms(1) refused(2)]
    by (auto simp: conditional_write_def rotation_source_def fun_upd_idem split: option.splits if_splits)
next
  case (rotated old_id n w1)
  obtain h1 r1 where w1: "w1 = (h1, r1)" by (rule prod.exhaust)
  have del: "mongo_docs cl r old_id \<noteq> None" "mongo_docs cl r1 = (mongo_docs cl r)(old_id := None)"
    using mongo_delete_effect[OF assms(1) rotated(2)[unfolded w1]] rotated(3) by (auto split: if_splits)
  have origin: "origin = Some old_id" "old_id \<noteq> s_id snap"
    using rotated(1) by (auto simp: rotation_source_def split: option.splits if_splits)
  show ?thesis
    using mongo_insert_effect[OF assms(1) rotated(4)[unfolded w1]] del origin rotated(1)
    by (auto simp: conditional_write_def)
next
  case (replaced res)
  then show ?thesis
    using mongo_replace_effect[OF assms(1), of net 4 "session_doc_of snap json" h r res h' r']
    by (auto simp: conditional_write_def split: if_splits)
next
  case inserted
  then show ?thesis
    using mongo_insert_effect[OF assms(1) inserted(2)] by (auto simp: conditional_write_def)
qed

text \<open>A rotation whose new identity is taken: the old document is revoked, the other one is kept.\<close>

definition colliding_docs :: mongo_db where
  "colliding_docs =
     [(((''db'', ''c''), ''old''), \<lparr>doc_id = ''old'', doc_expires_at = None, doc_session = ''x''\<rparr>),
      (((''db'', ''c''), s_id fresh_session), \<lparr>doc_id = s_id fresh_session, doc_expires_at = None, doc_session = ''y''\<rparr>)]"

theorem mongo_write_refines_contract_witness:
  "\<exists>e h' r'. mongo_put example_mongo undisturbed (\<lambda>k. Delivered) (Some ''old'') fresh_session ''z''
      (fresh_heap, colliding_docs) = (Failed e, (h', r')) \<and>
    (mongo_docs (mongo_example_client (\<lambda>k. Delivered)) r' =
        mongo_docs (mongo_example_client (\<lambda>k. Delivered)) colliding_docs \<or>
     mongo_docs (mongo_example_client (\<lambda>k. Delivered)) r' =
       (mongo_docs (mongo_example_client (\<lambda>k. Delivered)) colliding_docs)(''old'' := None))"
proof -
  let ?cl = "mongo_example_client (\<lambda>k. Delivered)"
  obtain outcome h' r' where run: "mongo_put (mc_store ?cl) undisturbed (\<lambda>k. Delivered) (Some ''old'')
      fresh_session ''z'' (fresh_heap, colliding_docs) = (outcome, (h', r'))"
    by (metis prod.exhaust)
  have old: "rotation_source (Some ''old'') (s_id fresh_session) = Some ''old''"
    by (simp add: rotation_source_def fresh_session_def example_session_def)
  have refused: "conditional_write (Some ''old'') (s_id fresh_session)
      (session_doc_of fresh_session ''z'') (mongo_docs ?cl colliding_docs) = None"
    by (simp add: conditional_write_def mongo_docs_def reference_mongo_view_def colliding_docs_def
        fresh_session_def example_session_def)
  show ?thesis
    using mongo_write_refines_contract[OF mongo_example_lawful run] run refused old by auto
qed

subsection \<open>Errors of undisturbed writes\<close>

lemma mongo_delete_answered:
  assumes "mongo_lawful cl" and "net k = Delivered"
    and "mongo_delete (mc_store cl) undisturbed net k i (h, r) = (res, (h', r'))"
  shows "res = Inr (if mongo_docs cl r i = None then 0 else 1) \<and> mongo_docs cl r' = (mongo_docs cl r)(i := None)"
  using mongo_delete_effect[OF assms(1,3)] assms(2,3) by (auto simp: mongo_delete_def)

lemma mongo_insert_answered:
  assumes "mongo_lawful cl" and "net k = Delivered"
    and "mongo_insert (mc_store cl) undisturbed net k d (h, r) = (outcome, (h', r'))"
  shows "if mongo_docs cl r (doc_id d) = None
     then outcome = Stored \<and> mongo_docs cl r' = (mongo_docs cl r)(doc_id d \<mapsto> d)
     else outcome = Failed BackendFailure \<and> mongo_docs cl r' = mongo_docs cl r"
  using assms(2,3) mongo_lawsD(2,3)[OF assms(1)[unfolded mongo_lawful_def], of r "mongo_coll (mc_store cl)" d]
  by (auto simp: mongo_insert_def mongo_docs_def)

text \<open>
  C38: where every request is answered, the store accepts exactly what the contract accepts. A
  missing source is the conflict of the contract; a collision is the error that the driver
  has for the rejected insertion, and in a rotation the old document has been removed by then.
\<close>
theorem mongo_write_errors:
  assumes "mongo_lawful cl" and "\<And>k. net k = Delivered"
    and "mongo_put (mc_store cl) undisturbed net origin snap json (h, r) = (outcome, (h', r'))"
  shows "mongo_docs cl r' =
     (case rotation_source origin (s_id snap) of
        Some old \<Rightarrow> if outcome = Stored then (mongo_docs cl r)(old := None, s_id snap \<mapsto> session_doc_of snap json)
          else (mongo_docs cl r)(old := None)
      | None \<Rightarrow> if outcome = Stored then (mongo_docs cl r)(s_id snap \<mapsto> session_doc_of snap json)
          else mongo_docs cl r) \<and>
   outcome =
     (case origin of
        None \<Rightarrow> if mongo_docs cl r (s_id snap) = None then Stored else Failed BackendFailure
      | Some src \<Rightarrow>
          if mongo_docs cl r src = None then Failed SessionConflict
          else if src = s_id snap \<or> mongo_docs cl r (s_id snap) = None then Stored
          else Failed BackendFailure)"
  using assms(3)
proof (cases rule: mongo_put_cases)
  case (refused old_id res)
  then show ?thesis
    using mongo_delete_answered[OF assms(1,2) refused(2)]
    by (auto simp: rotation_source_def fun_upd_idem split: option.splits if_splits)
next
  case (rotated old_id n w1)
  obtain h1 r1 where w1: "w1 = (h1, r1)" by (rule prod.exhaust)
  have origin: "origin = Some old_id" "old_id \<noteq> s_id snap"
    using rotated(1) by (auto simp: rotation_source_def split: option.splits if_splits)
  show ?thesis
    using mongo_delete_answered[OF assms(1,2) rotated(2)[unfolded w1]] rotated(3)
      mongo_insert_answered[OF assms(1,2) rotated(4)[unfolded w1]] origin
    by (auto simp: rotation_source_def split: if_splits)
next
  case (replaced res)
  then show ?thesis
    using mongo_replace_effect[OF assms(1), of net 4 "session_doc_of snap json" h r res h' r'] assms(2)
    by (auto simp: rotation_source_def split: if_splits)
next
  case inserted
  then show ?thesis
    using mongo_insert_answered[OF assms(1,2) inserted(2)] by (auto simp: rotation_source_def split: if_splits)
qed

theorem mongo_write_errors_witness:
  "fst (mongo_put example_mongo undisturbed (\<lambda>k. Delivered) (Some ''old'') fresh_session ''z''
      (fresh_heap, colliding_docs)) = Failed BackendFailure \<and>
   mongo_docs (mongo_example_client (\<lambda>k. Delivered)) (snd (snd (mongo_put example_mongo undisturbed
      (\<lambda>k. Delivered) (Some ''old'') fresh_session ''z'' (fresh_heap, colliding_docs)))) ''old'' = None \<and>
   fst (mongo_put example_mongo undisturbed (\<lambda>k. Delivered) (Some ''gone'') fresh_session ''z''
      (fresh_heap, colliding_docs)) = Failed SessionConflict"
proof -
  let ?cl = "mongo_example_client (\<lambda>k. Delivered)"
  have docs: "mongo_docs ?cl colliding_docs ''old'' \<noteq> None" "mongo_docs ?cl colliding_docs ''gone'' = None"
      "mongo_docs ?cl colliding_docs (s_id fresh_session) \<noteq> None"
      "s_id fresh_session \<noteq> ''old''" "s_id fresh_session \<noteq> ''gone''"
    by (simp_all add: mongo_docs_def reference_mongo_view_def colliding_docs_def fresh_session_def
        example_session_def)
  have split: "x = (fst x, (fst (snd x), snd (snd x)))" for x :: "write_outcome \<times> mongo_db remote"
    by simp
  show ?thesis
    using mongo_write_errors[OF mongo_example_lawful _ split, of "\<lambda>k. Delivered" "\<lambda>k. Delivered" "Some ''old''"
        fresh_session "''z''" fresh_heap colliding_docs]
      mongo_write_errors[OF mongo_example_lawful _ split, of "\<lambda>k. Delivered" "\<lambda>k. Delivered" "Some ''gone''"
        fresh_session "''z''" fresh_heap colliding_docs] docs
    by (auto simp: rotation_source_def)
qed

text \<open>
  An undisturbed write is the removal and the write of the lineage protocol, one after the
  other.
\<close>
lemma mongo_put_steps:
  assumes "\<And>k. net k = Delivered" and "mongo_put st undisturbed net origin snap json (h, r) = (Stored, (h', r'))"
  shows "mongo_write st origin (s_id snap) (doc_expires_at (session_doc_of snap json), json)
      (case rotation_source origin (s_id snap) of None \<Rightarrow> r | Some old \<Rightarrow> mongo_erase st old r) = Some r'"
proof -
  have call: "remote_call undisturbed net k f w = (Inr (fst (f (snd w))), (fst w, snd (f (snd w))))" for k f w
    using assms(1) by (rule remote_call_quiet)
  have doc: "session_doc_of snap json =
      \<lparr>doc_id = s_id snap, doc_expires_at = doc_expires_at (session_doc_of snap json), doc_session = json\<rparr>"
    by (simp add: session_doc_of_def)
  show ?thesis
    using assms(2)
    by (auto simp: mongo_put_def mongo_insert_def mongo_delete_def mongo_write_def mongo_erase_def call Let_def
        doc[symmetric] rotation_source_def split_beta split: option.splits if_splits)
qed

end
