(* ===== verification/Store_Contract.thy ===== *)
theory Store_Contract
  imports Redis_Scan Mongo_Contract Sql_Protocol
begin

text \<open>
  What the operations of an external store do together: undisturbed, a store is a map from
  identities to texts, and a session that is created, loaded, edited, rotated and destroyed
  through it is found exactly under its current cookie.
\<close>

subsection \<open>An edited and rotated handle\<close>

text \<open>A handle that was loaded, edited and rotated may replace its record.\<close>

lemma edited_and_rotated:
  assumes "session_allocated h t" "lineage_idle t h" "h_pid h (s_persisted_id t) = Some (s_id t)"
    and "id_from_cookie_value p (generate_cookie p rng SERVER_COOKIE_BYTES) = Inr ident"
  obtains t' where "regenerate p rng t (insert_raw key value t h) = Inr t'"
    and "session_allocated (insert_raw key value t h) t'" and "lineage_idle t' (insert_raw key value t h)"
    and "persistence_origin t' (insert_raw key value t h) = Inr (Some (s_id t))"
    and "s_id t' = ident" and "s_cookie_value t' = Some (generate_cookie p rng SERVER_COOKIE_BYTES)"
    and "s_expiry t' = s_expiry t"
    and "wire_of t' (insert_raw key value t h) = (ident, s_expiry t, (sd_values (h_data h (s_data t)))(key \<mapsto> value))"
  using assms
  by (intro that[of "t\<lparr>s_rotation_from := Some (s_id t), s_id := ident,
        s_cookie_value := Some (generate_cookie p rng SERVER_COOKIE_BYTES), s_metadata_changed := True\<rparr>"])
     (auto simp: regenerate_def insert_raw_def insert_raw_data_def session_allocated_def lineage_idle_def
        is_destroyed_def persistence_origin_def wire_of_def)

subsection \<open>A store and its cookies\<close>

text \<open>
  A store as its clients see it, against the map \<open>texts\<close> of its records: what was saved loads
  with its cookie, an absent record does not, and a deletion removes one record. \<open>ready\<close> says
  that the store is lawful and undisturbed, and \<open>fits\<close> that it can keep an expiry.
\<close>

locale keyed_store =
  fixes save :: "'o \<Rightarrow> codec \<Rightarrow> session \<Rightarrow> 'r remote \<Rightarrow> (error + string option) poll \<times> 'r remote"
    and load :: "'o \<Rightarrow> primitives \<Rightarrow> codec \<Rightarrow> datetime \<Rightarrow> string \<Rightarrow> 'r remote \<Rightarrow>
      (error + session option) \<times> 'r remote"
    and destroy :: "'o \<Rightarrow> session \<Rightarrow> 'r remote \<Rightarrow> (error + unit) poll \<times> 'r remote"
    and texts :: "'o \<Rightarrow> 'r \<Rightarrow> string \<rightharpoonup> string"
    and fits :: "'o \<Rightarrow> datetime option \<Rightarrow> bool"
    and ready :: "'o \<Rightarrow> 'r \<Rightarrow> bool"
  assumes save_then_load: "ready sv r \<Longrightarrow> codec_laws c \<Longrightarrow> session_allocated h s \<Longrightarrow> lineage_idle s h \<Longrightarrow>
      persistence_origin s h = Inr origin \<Longrightarrow> wc_to_json c (wire_of s h) = Inr json \<Longrightarrow>
      fits sv (s_expiry s) \<Longrightarrow> conditional_write origin (s_id s) json (texts sv r) = Some m \<Longrightarrow>
      id_from_cookie_value p cookie = Inr (s_id s) \<Longrightarrow> \<not> is_expired now s \<Longrightarrow>
      \<exists>h1 r1 t h2. save sv c s (h, r) = (Ready (Inr (s_cookie_value s)), (h1, r1)) \<and>
        load sv p c now cookie (h1, r1) = (Inr (Some t), (h2, r1)) \<and>
        wire_of t h2 = wire_of s h \<and> session_allocated h2 t \<and> lineage_idle t h2 \<and>
        h_pid h2 (s_persisted_id t) = Some (s_id s) \<and> texts sv r1 = m \<and> ready sv r1"
    and absent_does_not_load: "ready sv r \<Longrightarrow> texts sv r i = None \<Longrightarrow> id_from_cookie_value p cookie = Inr i \<Longrightarrow>
      load sv p c now cookie (h, r) = (Inr None, (h, r))"
    and destroy_removes: "ready sv r \<Longrightarrow> lineage_idle s h \<Longrightarrow>
      \<exists>h' r'. destroy sv s (h, r) = (Ready (Inr ()), (h', r')) \<and>
        texts sv r' = (texts sv r)(deletion_target s h := None) \<and> ready sv r'"
begin

text \<open>A session is created, loaded with its cookie, edited, given a new identity, and destroyed.\<close>

lemma session_lifecycle:
  assumes ready: "ready sv r" and codec: "codec_laws c"
    and s: "session_allocated h s" "lineage_idle s h" "persistence_origin s h = Inr None"
      "fits sv (s_expiry s)" "\<not> is_expired now s"
    and json: "wc_to_json c (wire_of s h) = Inr json"
      "wc_to_json c (next, s_expiry s, (sd_values (h_data h (s_data s)))(key \<mapsto> value)) = Inr json2"
    and cookie: "id_from_cookie_value p cookie = Inr (s_id s)"
      "id_from_cookie_value p (generate_cookie p rng SERVER_COOKIE_BYTES) = Inr next"
    and free: "texts sv r (s_id s) = None" "texts sv r next = None" "next \<noteq> s_id s"
  shows "\<exists>h1 r1 t h2 t' h3 r3 u h4 h5 r5.
     save sv c s (h, r) =
       (Ready (Inr (s_cookie_value s)), (h1, r1)) \<and>
     load sv p c now cookie (h1, r1) = (Inr (Some t), (h2, r1)) \<and>
     wire_of t h2 = wire_of s h \<and>
     regenerate p rng t (insert_raw key value t h2) = Inr t' \<and>
     save sv c t' (insert_raw key value t h2, r1) =
       (Ready (Inr (Some (generate_cookie p rng SERVER_COOKIE_BYTES))), (h3, r3)) \<and>
     load sv p c now cookie (h3, r3) = (Inr None, (h3, r3)) \<and>
     load sv p c now (generate_cookie p rng SERVER_COOKIE_BYTES) (h3, r3) =
       (Inr (Some u), (h4, r3)) \<and>
     wire_of u h4 = (next, s_expiry s, (sd_values (h_data h (s_data s)))(key \<mapsto> value)) \<and>
     destroy sv u (h4, r3) = (Ready (Inr ()), (h5, r5)) \<and>
     load sv p c now (generate_cookie p rng SERVER_COOKIE_BYTES) (h5, r5) =
       (Inr None, (h5, r5)) \<and>
     texts sv r5 = texts sv r"
proof -
  let ?cookie2 = "generate_cookie p rng SERVER_COOKIE_BYTES"
  have w1: "conditional_write None (s_id s) json (texts sv r) = Some ((texts sv r)(s_id s \<mapsto> json))"
    using free(1) by (simp add: conditional_write_def)
  obtain h1 r1 t h2 where first:
    "save sv c s (h, r) =
       (Ready (Inr (s_cookie_value s)), (h1, r1))"
    "load sv p c now cookie (h1, r1) = (Inr (Some t), (h2, r1))"
    and t: "wire_of t h2 = wire_of s h" "session_allocated h2 t" "lineage_idle t h2"
      "h_pid h2 (s_persisted_id t) = Some (s_id s)"
    and r1: "texts sv r1 = (texts sv r)(s_id s \<mapsto> json)" "ready sv r1"
    using save_then_load[OF ready codec s(1-3) json(1) s(4) w1 cookie(1) s(5)] by blast
  have fields: "s_id t = s_id s" "s_expiry t = s_expiry s"
      "sd_values (h_data h2 (s_data t)) = sd_values (h_data h (s_data s))"
    using t(1) by (simp_all add: wire_of_def)
  have pid: "h_pid h2 (s_persisted_id t) = Some (s_id t)" by (simp add: t(4) fields(1))
  define k where "k = insert_raw key value t h2"
  obtain t' where rot: "regenerate p rng t k = Inr t'"
    and ready': "session_allocated k t'" "lineage_idle t' k" "persistence_origin t' k = Inr (Some (s_id s))"
    and t': "s_id t' = next" "s_cookie_value t' = Some ?cookie2" "s_expiry t' = s_expiry s"
    and wire: "wire_of t' k = (next, s_expiry s, (sd_values (h_data h (s_data s)))(key \<mapsto> value))"
    using edited_and_rotated[OF t(2,3) pid cookie(2), of key "value"] fields k_def by metis
  have live: "fits sv (s_expiry t')" "\<not> is_expired now t'"
    using s(4,5) t'(3) by (simp_all add: is_expired_def)
  have parse: "id_from_cookie_value p ?cookie2 = Inr (s_id t')"
    using cookie(2) by (simp add: t'(1))
  have w2: "conditional_write (Some (s_id s)) (s_id t') json2 (texts sv r1) =
      Some ((texts sv r)(s_id s := None, next \<mapsto> json2))"
    using free by (simp add: conditional_write_def r1(1) t'(1))
  obtain h3 r3 u h4 where second:
    "save sv c t' (k, r1) =
       (Ready (Inr (s_cookie_value t')), (h3, r3))"
    "load sv p c now ?cookie2 (h3, r3) = (Inr (Some u), (h4, r3))"
    and u: "wire_of u h4 = wire_of t' k" "session_allocated h4 u" "lineage_idle u h4"
      "h_pid h4 (s_persisted_id u) = Some (s_id t')"
    and r3: "texts sv r3 = (texts sv r)(s_id s := None, next \<mapsto> json2)" "ready sv r3"
    using save_then_load[OF r1(2) codec ready' json(2)[folded wire] live(1) w2 parse live(2)] by blast
  have target: "deletion_target u h4 = next"
    using u(1,4) wire by (simp add: deletion_target_def persistence_origin_def wire_of_def t'(1))
  obtain h5 r5 where gone: "destroy sv u (h4, r3) = (Ready (Inr ()), (h5, r5))"
      "texts sv r5 = (texts sv r3)(next := None)" "ready sv r5"
    using destroy_removes[OF r3(2) u(3)] by (auto simp: target)
  have old: "load sv p c now cookie (h3, r3) = (Inr None, (h3, r3))"
    by (rule absent_does_not_load[OF r3(2) _ cookie(1)]) (use free in \<open>simp add: r3(1)\<close>)
  have after: "load sv p c now ?cookie2 (h5, r5) = (Inr None, (h5, r5))"
    by (rule absent_does_not_load[OF gone(3) _ cookie(2)]) (simp add: gone(2))
  have last: "texts sv r5 = texts sv r"
    using gone(2) r3(1) free by (auto simp: fun_eq_iff)
  note second = second[unfolded t'(2) k_def]
  show ?thesis
    by (rule exI[of _ h1], rule exI[of _ r1], rule exI[of _ t], rule exI[of _ h2], rule exI[of _ t'],
        rule exI[of _ h3], rule exI[of _ r3], rule exI[of _ u], rule exI[of _ h4], rule exI[of _ h5],
        rule exI[of _ r5])
       (intro conjI first t(1) rot[unfolded k_def] second old u(1)[unfolded wire] gone(1) after last)
qed

end

subsection \<open>A store as a map\<close>

text \<open>
  The requests of a store against the map \<open>texts\<close> of what its lookups find. \<open>ready\<close>: the
  server is lawful, every request arrives, nobody else is active and no record is expired;
  \<open>fits\<close>: the expiry can be stored and has not been reached.
\<close>

locale text_store =
  fixes put :: "'o \<Rightarrow> string option \<Rightarrow> session \<Rightarrow> string \<Rightarrow> 'r remote \<Rightarrow> write_outcome \<times> 'r remote"
    and undo :: "'o \<Rightarrow> string \<Rightarrow> 'r remote \<Rightarrow> (error + unit) \<times> 'r remote"
    and lookup :: "'o \<Rightarrow> string \<Rightarrow> 'r remote \<Rightarrow> (error + string option) \<times> 'r remote"
    and remove :: "'o \<Rightarrow> string \<Rightarrow> 'r remote \<Rightarrow> (error + unit) \<times> 'r remote"
    and texts :: "'o \<Rightarrow> 'r \<Rightarrow> string \<rightharpoonup> string"
    and fits :: "'o \<Rightarrow> datetime option \<Rightarrow> bool"
    and ready :: "'o \<Rightarrow> 'r \<Rightarrow> bool"
  assumes put_texts: "ready sv r \<Longrightarrow> fits sv (s_expiry snap) \<Longrightarrow>
      conditional_write origin (s_id snap) json (texts sv r) = Some m \<Longrightarrow>
      \<exists>r'. put sv origin snap json (h, r) = (Stored, (h, r')) \<and> texts sv r' = m \<and> ready sv r'"
    and lookup_texts: "ready sv r \<Longrightarrow> lookup sv i (h, r) = (Inr (texts sv r i), (h, r))"
    and remove_texts: "ready sv r \<Longrightarrow>
      \<exists>r'. remove sv i (h, r) = (Inr (), (h, r')) \<and> texts sv r' = (texts sv r)(i := None) \<and> ready sv r'"

sublocale text_store \<subseteq> records: remote_records put undo lookup
  "\<lambda>sv origin ident expiry r. ready sv r \<and> fits sv expiry \<and>
     (\<forall>json. conditional_write origin ident json (texts sv r) \<noteq> None)" "\<lambda>sv. True"
proof
  fix sv origin json h and snap :: session and r :: 'r
  assume adm: "ready sv r \<and> fits sv (s_expiry snap) \<and>
      (\<forall>json. conditional_write origin (s_id snap) json (texts sv r) \<noteq> None)"
  then obtain m where m: "conditional_write origin (s_id snap) json (texts sv r) = Some m"
    by blast
  obtain r' where r': "put sv origin snap json (h, r) = (Stored, (h, r'))" "texts sv r' = m" "ready sv r'"
    using put_texts[OF _ _ m] adm by blast
  have "lookup sv (s_id snap) (k, r') = (Inr (Some json), (k, r'))" for k
    using lookup_texts[OF r'(3)] conditional_write_records[OF m] r'(2) by simp
  with r'(1) show "\<exists>r'. put sv origin snap json (h, r) = (Stored, (h, r')) \<and>
      (\<forall>k. lookup sv (s_id snap) (k, r') = (Inr (Some json), (k, r')))" by blast
qed

context text_store
begin

lemma save_then_load:
  assumes ready: "ready sv r" and codec: "codec_laws c"
    and alloc: "session_allocated h s" and idle: "lineage_idle s h"
    and origin: "persistence_origin s h = Inr origin"
    and json: "wc_to_json c (wire_of s h) = Inr json" and fits: "fits sv (s_expiry s)"
    and admitted: "conditional_write origin (s_id s) json (texts sv r) = Some m"
    and cookie: "id_from_cookie_value p cookie = Inr (s_id s)" and live: "\<not> is_expired now s"
  obtains h1 r1 t h2 where
    "remote_store_session c recheck (put sv) (undo sv) undisturbed s (h, r) =
       (Ready (Inr (s_cookie_value s)), (h1, r1))"
    "remote_load_session p c (lookup sv) now cookie (h1, r1) = (Inr (Some t), (h2, r1))"
    "wire_of t h2 = wire_of s h" "session_allocated h2 t" "lineage_idle t h2"
    "h_pid h2 (s_persisted_id t) = Some (s_id s)" "texts sv r1 = m" "ready sv r1"
proof -
  have adm: "ready sv r \<and> fits sv (s_expiry s) \<and>
      (\<forall>json. conditional_write origin (s_id s) json (texts sv r) \<noteq> None)"
    using ready fits admitted conditional_write_admits[of origin "s_id s" json "texts sv r"] by auto
  obtain h1 r1 t h2 snap k where run:
    "remote_store_session c recheck (put sv) (undo sv) undisturbed s (h, r) =
       (Ready (Inr (s_cookie_value s)), (h1, r1))"
    "remote_load_session p c (lookup sv) now cookie (h1, r1) = (Inr (Some t), (h2, r1))"
    "wire_of t h2 = wire_of s h" "session_allocated h2 t" "lineage_idle t h2"
    "h_pid h2 (s_persisted_id t) = Some (s_id s)"
    "put sv origin snap json (k, r) = (Stored, (k, r1))" "s_id snap = s_id s" "s_expiry snap = s_expiry s"
    using records.saved_session_loads[OF TrueI codec alloc idle origin json adm cookie live, where recheck = recheck]
    by (elim exE conjE) (rule that)
  have "texts sv r1 = m \<and> ready sv r1"
    using put_texts[of sv r snap origin json m k] ready fits admitted run(7-9) by auto
  with run(1-6) show ?thesis by (intro that) auto
qed

lemma absent_does_not_load:
  "ready sv r \<Longrightarrow> texts sv r i = None \<Longrightarrow> id_from_cookie_value p cookie = Inr i \<Longrightarrow>
   remote_load_session p c (lookup sv) now cookie (h, r) = (Inr None, (h, r))"
  by (simp add: remote_load_session_def lookup_texts)

lemma destroy_removes:
  assumes "ready sv r" and idle: "lineage_idle s h"
  obtains h' r' where
    "remote_destroy_session (remove sv) undisturbed s (h, r) = (Ready (Inr ()), (h', r'))"
    "texts sv r' = (texts sv r)(deletion_target s h := None)" "ready sv r'"
proof -
  let ?h2 = "upd_life (s_lifecycle s) (\<lambda>w. w\<lparr>ws_locked := True\<rparr>) (session_destroy s h)"
  have target: "deletion_target s ?h2 = deletion_target s h"
    by (simp add: deletion_target_def persistence_origin_def session_destroy_def)
  obtain r' where r': "remove sv (deletion_target s h) (?h2, r) = (Inr (), (?h2, r'))"
      "texts sv r' = (texts sv r)(deletion_target s h := None)" "ready sv r'"
    using remove_texts[OF assms(1), of "deletion_target s h" ?h2] by blast
  have "remote_destroy_session (remove sv) undisturbed s (h, r) =
      (Ready (Inr ()), (delete_guard_drop \<lparr>dg_state = s_lifecycle s, dg_id = deletion_target s h\<rparr> ?h2, r'))"
    using idle r'(1) target
    by (simp add: remote_destroy_session_def begin_delete_locked_def lifecycle_delete_def
        lineage_idle_def session_destroy_def)
  then show ?thesis using that r'(2,3) by blast
qed

end

text \<open>Every such store is one for its clients, with or without the second check for destruction.\<close>

sublocale text_store \<subseteq> keyed: keyed_store
  "\<lambda>sv c. remote_store_session c (snd sv) (put (fst sv)) (undo (fst sv)) undisturbed"
  "\<lambda>sv p c. remote_load_session p c (lookup (fst sv))"
  "\<lambda>sv. remote_destroy_session (remove (fst sv)) undisturbed"
  "\<lambda>sv. texts (fst sv)" "\<lambda>sv. fits (fst sv)" "\<lambda>sv. ready (fst sv)"
proof (unfold_locales, goal_cases)
  case (1 sv r c h s origin json m p cookie now)
  show ?case by (rule save_then_load[OF 1, of "snd sv"]) blast
next
  case (2 sv r i p cookie c now h)
  then show ?case by (rule absent_does_not_load)
next
  case (3 sv r s h)
  show ?case by (rule destroy_removes[OF 3]) blast
qed

subsection \<open>The three kinds of servers\<close>

lemma conditional_write_map:
  "conditional_write origin t (f e) (map_option f \<circ> m) =
     map_option (\<lambda>m'. map_option f \<circ> m') (conditional_write origin t e m)"
  by (auto simp: conditional_write_def fun_eq_iff split: option.splits)

definition redis_texts :: "'r redis_client \<Rightarrow> 'r \<Rightarrow> string \<rightharpoonup> string" where
  "redis_texts cl r = map_option fst \<circ> redis_records (rl_store cl) (rl_view cl) r"

definition redis_fits :: "'r redis_client \<Rightarrow> datetime option \<Rightarrow> bool" where
  "redis_fits cl expiry = (case expiry of None \<Rightarrow> True
     | Some e \<Rightarrow> rl_now cl \<le> e \<and> (\<exists>ms. ttl_millis (nat (e - rl_now cl)) = Inr ms))"

abbreviation redis_putting ::
  "'r redis_client \<Rightarrow> string option \<Rightarrow> session \<Rightarrow> string \<Rightarrow> 'r remote \<Rightarrow> write_outcome \<times> 'r remote" where
  "redis_putting cl \<equiv> redis_put (rl_store cl) (rl_now cl) (rl_others cl) (rl_net cl)"

abbreviation redis_removing :: "nat \<Rightarrow> 'r redis_client \<Rightarrow> string \<Rightarrow> 'r remote \<Rightarrow> (error + unit) \<times> 'r remote" where
  "redis_removing k cl \<equiv> redis_delete (rl_store cl) (rl_others cl) (rl_net cl) k"

abbreviation redis_finding ::
  "'r redis_client \<Rightarrow> string \<Rightarrow> 'r remote \<Rightarrow> (error + string option) \<times> 'r remote" where
  "redis_finding cl \<equiv> redis_lookup (rl_store cl) (rl_others cl) (rl_net cl)"

interpretation redis_map: text_store redis_putting "redis_removing 5" redis_finding "redis_removing 1"
  redis_texts redis_fits "\<lambda>cl r. client_quiet cl"
proof
  fix cl :: "'r redis_client" and r :: 'r and snap origin json m h i
  assume quiet: "client_quiet cl"
  then have laws: "redis_laws (rs_server (rl_store cl)) (rl_view cl)"
    and others: "rl_others cl = undisturbed" and net: "rl_net cl k = Delivered" for k
    by (simp_all add: client_quiet_def client_laws_def)
  show "\<exists>r'. redis_putting cl origin snap json (h, r) = (Stored, (h, r')) \<and> redis_texts cl r' = m \<and>
      client_quiet cl"
    if fits: "redis_fits cl (s_expiry snap)"
      and admitted: "conditional_write origin (s_id snap) json (redis_texts cl r) = Some m"
  proof -
    have map: "map_option (\<lambda>m'. map_option fst \<circ> m')
        (conditional_write origin (s_id snap) (json, px) (redis_records (rl_store cl) (rl_view cl) r)) = Some m" for px
      using admitted conditional_write_map[of origin "s_id snap" fst "(json, px)"] by (simp add: redis_texts_def)
    have "conditional_write origin (s_id snap) (json, None) (redis_records (rl_store cl) (rl_view cl) r) \<noteq> None"
      using map[of None] by auto
    then have "client_admits cl origin (s_id snap) (s_expiry snap) r"
      using fits unfolding client_admits_def redis_fits_def
      by (intro conjI) (erule conditional_write_admits[THEN iffD1])
    then obtain px r' where "redis_putting cl origin snap json (h, r) = (Stored, (h, r'))"
      "conditional_write origin (s_id snap) (json, px) (redis_records (rl_store cl) (rl_view cl) r) =
         Some (redis_records (rl_store cl) (rl_view cl) r')"
      by (rule redis_quiet_put[OF quiet])
    then show ?thesis
      using map[of px] quiet by (auto simp: redis_texts_def)
  qed
  show "redis_finding cl i (h, r) = (Inr (redis_texts cl r i), (h, r))"
    by (simp add: redis_quiet_lookup[OF quiet] redis_texts_def)
  show "\<exists>r'. redis_removing 1 cl i (h, r) = (Inr (), (h, r')) \<and> redis_texts cl r' = (redis_texts cl r)(i := None) \<and>
      client_quiet cl"
    using quiet others net redis_lawsD(5)[OF laws, of "redis_key (rl_store cl) i" r]
    by (auto simp: redis_delete_def redis_texts_def redis_records_def fun_eq_iff[where f = "_ \<circ> _"])
qed

definition mongo_texts :: "'r mongo_client \<Rightarrow> 'r \<Rightarrow> string \<rightharpoonup> string" where
  "mongo_texts cl r = map_option doc_session \<circ> mongo_docs cl r"

interpretation mongo_map: text_store mongo_putting mongo_undoing
  "\<lambda>cl. mongo_lookup (mc_store cl) (mc_others cl) (mc_net cl)"
  "\<lambda>cl. mongo_undo (mc_store cl) (mc_others cl) (mc_net cl) 1"
  mongo_texts "\<lambda>cl expiry. True" "\<lambda>cl r. mongo_quiet cl"
proof
  fix cl :: "'r mongo_client" and r :: 'r and snap origin json m h i
  assume quiet: "mongo_quiet cl"
  then have laws: "mongo_laws (mg_client (mc_store cl)) (mc_view cl)"
    and others: "mc_others cl = undisturbed" and net: "mc_net cl k = Delivered" for k
    by (simp_all add: mongo_quiet_def mongo_lawful_def)
  show "\<exists>r'. mongo_putting cl origin snap json (h, r) = (Stored, (h, r')) \<and> mongo_texts cl r' = m \<and> mongo_quiet cl"
    if admitted: "conditional_write origin (s_id snap) json (mongo_texts cl r) = Some m"
  proof -
    have "doc_session (session_doc_of snap json) = json" by (simp add: session_doc_of_def)
    then have "map_option (\<lambda>m'. map_option doc_session \<circ> m')
        (conditional_write origin (s_id snap) (session_doc_of snap json) (mongo_docs cl r)) = Some m"
      using admitted conditional_write_map[of origin "s_id snap" doc_session "session_doc_of snap json"]
      by (simp add: mongo_texts_def)
    then obtain docs where docs: "conditional_write origin (s_id snap) (session_doc_of snap json) (mongo_docs cl r) = Some docs"
        "m = map_option doc_session \<circ> docs"
      by auto
    show ?thesis
      using mongo_quiet_put[OF quiet docs(1), of h] docs(2) quiet by (auto simp: mongo_texts_def)
  qed
  show "mongo_lookup (mc_store cl) (mc_others cl) (mc_net cl) i (h, r) = (Inr (mongo_texts cl r i), (h, r))"
    using quiet mongo_lawsD(1)[OF laws]
    by (simp add: mongo_quiet_def mongo_lookup_def mongo_texts_def mongo_docs_def)
  show "\<exists>r'. mongo_undo (mc_store cl) (mc_others cl) (mc_net cl) 1 i (h, r) = (Inr (), (h, r')) \<and>
      mongo_texts cl r' = (mongo_texts cl r)(i := None) \<and> mongo_quiet cl"
    using quiet others net mongo_lawsD(7)[OF laws, of "mongo_coll (mc_store cl)" i r]
    by (auto simp: mongo_undo_def mongo_delete_def mongo_texts_def mongo_docs_def fun_eq_iff[where f = "_ \<circ> _"])
qed

text \<open>A row is live when the filter of the query keeps it.\<close>

definition row_live :: "('r, 't) sql_client \<Rightarrow> i64 option \<times> string \<Rightarrow> bool" where
  "row_live cl row = (case fst row of None \<Rightarrow> True | Some e \<Rightarrow> sint (unix_timestamp (sc_now cl)) \<le> sint e)"

definition sql_texts :: "('r, 't) sql_client \<Rightarrow> 'r \<Rightarrow> string \<rightharpoonup> string" where
  "sql_texts cl r = map_option snd \<circ> sc_view cl r"

definition sql_fits :: "('r, 't) sql_client \<Rightarrow> datetime option \<Rightarrow> bool" where
  "sql_fits cl expiry = row_live cl (map_option unix_timestamp expiry, [])"

definition sql_ready :: "('r, 't) sql_client \<Rightarrow> 'r \<Rightarrow> bool" where
  "sql_ready cl r \<longleftrightarrow> sql_quiet cl \<and> (\<forall>row \<in> ran (sc_view cl r). row_live cl row)"

abbreviation sql_removing :: "nat \<Rightarrow> ('r, 't) sql_client \<Rightarrow> string \<Rightarrow> 'r remote \<Rightarrow> (error + unit) \<times> 'r remote" where
  "sql_removing k cl \<equiv> sql_delete (sc_dialect cl) (sc_store cl) (sc_others cl) (sc_net cl) k"

abbreviation sql_finding :: "('r, 't) sql_client \<Rightarrow> string \<Rightarrow> 'r remote \<Rightarrow> (error + string option) \<times> 'r remote" where
  "sql_finding cl \<equiv> sql_lookup (sc_dialect cl) (sc_store cl) (sc_now cl) (sc_others cl) (sc_net cl)"

interpretation sql_map: text_store sql_putting "sql_removing 8" sql_finding "sql_removing 1"
  sql_texts sql_fits sql_ready
proof
  fix cl :: "('r, 't) sql_client" and r :: 'r and snap origin json m h i
  assume ready: "sql_ready cl r"
  then have quiet: "sql_quiet cl" and live: "\<And>i row. sc_view cl r i = Some row \<Longrightarrow> row_live cl row"
    by (auto simp: sql_ready_def intro: ranI)
  have laws: "sql_laws (sc_dialect cl) (sq_table (sc_store cl)) (sq_pool (sc_store cl)) (sc_view cl) (sc_log cl)"
    and o: "sc_others cl = undisturbed" and n: "sc_net cl k = Delivered" for k
    using quiet by (simp_all add: sql_quiet_def client_lawful_def)
  show "\<exists>r'. sql_putting cl origin snap json (h, r) = (Stored, (h, r')) \<and> sql_texts cl r' = m \<and> sql_ready cl r'"
    if fits: "sql_fits cl (s_expiry snap)"
      and admitted: "conditional_write origin (s_id snap) json (sql_texts cl r) = Some m"
  proof -
    obtain rows where rows: "conditional_write origin (s_id snap) (expiry_unix snap, json) (sc_view cl r) = Some rows"
        "m = map_option snd \<circ> rows"
      using admitted conditional_write_map[of origin "s_id snap" snd "(expiry_unix snap, json)"]
      by (auto simp: sql_texts_def)
    have "row_live cl row" if "rows k = Some row" for k row
      using conditional_write_records[OF rows(1), of k] that live fits
      by (auto simp: sql_fits_def row_live_def expiry_unix_def split: if_splits option.splits)
    then show ?thesis
      using sql_quiet_put[OF quiet rows(1), of h] rows(2) quiet
      by (auto simp: sql_texts_def sql_ready_def ran_def)
  qed
  show "sql_finding cl i (h, r) = (Inr (sql_texts cl r i), (h, r))"
    using live[of i] by (auto simp: sql_lookup_def o n sql_row_lawsD(7)[OF laws] sql_texts_def row_live_def
        split: option.splits)
  show "\<exists>r'. sql_removing 1 cl i (h, r) = (Inr (), (h, r')) \<and> sql_texts cl r' = (sql_texts cl r)(i := None) \<and>
      sql_ready cl r'"
    using sql_row_lawsD(5,6)[OF laws, of i r] quiet live
    by (auto simp: sql_delete_def sql_request_def o n sql_texts_def sql_ready_def fun_eq_iff ran_def
        split: sum.splits prod.splits if_splits)
qed

end
