(* ===== verification/Store_Trait.thy ===== *)
theory Store_Trait
  imports Store_Contract
begin

text \<open>
  The trait \<open>SessionStore\<close> of \<open>src/session_store.rs\<close> as a record of its four methods, its six
  implementations, and a client that goes through the life of a session with any of them.
\<close>

subsection \<open>The trait\<close>

text \<open>
  \<open>clear_store\<close> is partial, as the scan of the Redis store is a loop. The memory and the
  client-side stores always answer.
\<close>

record 'w session_store =
  st_load_session :: "string \<Rightarrow> 'w \<Rightarrow> (error + session option) \<times> 'w"
  st_store_session :: "session \<Rightarrow> 'w \<Rightarrow> (error + string option) poll \<times> 'w"
  st_destroy_session :: "session \<Rightarrow> 'w \<Rightarrow> (error + unit) poll \<times> 'w"
  st_clear_store :: "'w \<Rightarrow> ((error + unit) \<times> 'w) option"

text \<open>A method that never waits.\<close>

definition at_once :: "'a \<times> 'w \<Rightarrow> 'a poll \<times> 'w" where
  "at_once res = (Ready (fst res), snd res)"

definition memory_trait :: "primitives \<Rightarrow> world interleaving \<Rightarrow> datetime \<Rightarrow> datetime \<Rightarrow> world session_store" where
  "memory_trait p ij now1 now2 =
     \<lparr>st_load_session = ms_load_session p now1 now2,
      st_store_session = ms_store_session ij,
      st_destroy_session = ms_destroy_session ij,
      st_clear_store = (\<lambda>w. Some (Inr (), ms_clear_store w))\<rparr>"

definition cookie_trait :: "primitives \<Rightarrow> codec \<Rightarrow> (heap \<Rightarrow> heap) \<Rightarrow> datetime \<Rightarrow> heap session_store" where
  "cookie_trait p c others now =
     \<lparr>st_load_session = cookie_load_session p c now,
      st_store_session = (\<lambda>s h. at_once (cookie_store_session p c others s h)),
      st_destroy_session = (\<lambda>s h. at_once (cookie_destroy_session s h)),
      st_clear_store = (\<lambda>h. Some (cookie_clear_store h))\<rparr>"

definition signed_trait ::
  "primitives \<Rightarrow> codec \<Rightarrow> hmac \<Rightarrow> signed_store \<Rightarrow> (heap \<Rightarrow> heap) \<Rightarrow> datetime \<Rightarrow> heap session_store" where
  "signed_trait p c hmac st others now =
     \<lparr>st_load_session = signed_load_session p c hmac now st,
      st_store_session = (\<lambda>s h. at_once (signed_store_session p c hmac others st s h)),
      st_destroy_session = (\<lambda>s h. at_once (signed_destroy_session s h)),
      st_clear_store = (\<lambda>h. Some (signed_clear_store h))\<rparr>"

definition redis_trait ::
  "primitives \<Rightarrow> codec \<Rightarrow> 'r redis_store \<Rightarrow> 'r remote interleaving \<Rightarrow> network \<Rightarrow> datetime \<Rightarrow> datetime \<Rightarrow>
   'r remote session_store" where
  "redis_trait p c st ij net now1 now2 =
     \<lparr>st_load_session = redis_load_session p c st ij net now2,
      st_store_session = redis_store_session c st now1 ij net,
      st_destroy_session = redis_destroy_session st ij net,
      st_clear_store = redis_clear_store st ij net\<rparr>"

definition mongo_trait ::
  "primitives \<Rightarrow> codec \<Rightarrow> 'r mongo_store \<Rightarrow> 'r remote interleaving \<Rightarrow> network \<Rightarrow> datetime \<Rightarrow>
   'r remote session_store" where
  "mongo_trait p c st ij net now =
     \<lparr>st_load_session = mongo_load_session p c st ij net now,
      st_store_session = mongo_store_session c st ij net,
      st_destroy_session = mongo_destroy_session st ij net,
      st_clear_store = (\<lambda>w. Some (mongo_clear_store st ij net w))\<rparr>"

definition sql_trait ::
  "primitives \<Rightarrow> codec \<Rightarrow> sql_dialect \<Rightarrow> ('r, 't) sql_store \<Rightarrow> 'r remote interleaving \<Rightarrow> network \<Rightarrow>
   datetime \<Rightarrow> datetime \<Rightarrow> 'r remote session_store" where
  "sql_trait p c dl st ij net now1 now2 =
     \<lparr>st_load_session = sql_load_session p c dl st ij net now1 now2,
      st_store_session = sql_store_session c dl st ij net,
      st_destroy_session = sql_destroy_session dl st ij net,
      st_clear_store = (\<lambda>w. Some (sql_clear_store st ij net w))\<rparr>"

subsection \<open>A client\<close>

text \<open>
  The life of a session: it is stored; the next request loads it with the cookie, sets a
  value, gives it a new identity, as after a login, and stores it; a third request tries the
  old cookie, a fourth one loads it with the new cookie and destroys it, and the last one
  tries that cookie again. The result has what each load saw, the new cookie and the store.
\<close>

record tour =
  tr_first :: wire_session
  tr_cookie :: string
  tr_old :: "error + session option"
  tr_second :: wire_session
  tr_last :: "error + session option"

definition session_tour ::
  "(heap \<times> 'b) session_store \<Rightarrow> primitives \<Rightarrow> (nat \<Rightarrow> byte list) \<Rightarrow> string \<Rightarrow> string \<Rightarrow> string \<Rightarrow> session \<Rightarrow>
   heap \<times> 'b \<Rightarrow> (tour \<times> 'b) option" where
  "session_tour S p rng cookie key value s w =
     (case st_store_session S s w of
        (Ready (Inr _), w1) \<Rightarrow>
          (case st_load_session S cookie w1 of
             (Inr (Some t), (h2, b2)) \<Rightarrow>
               (case regenerate p rng t (insert_raw key value t h2) of
                  Inr t' \<Rightarrow>
                    (case st_store_session S t' (insert_raw key value t h2, b2) of
                       (Ready (Inr (Some cookie2)), w3) \<Rightarrow>
                         (let (old, w4) = st_load_session S cookie w3 in
                          case st_load_session S cookie2 w4 of
                            (Inr (Some u), w5) \<Rightarrow>
                              (case st_destroy_session S u w5 of
                                 (Ready (Inr _), w6) \<Rightarrow>
                                   (let (last, w7) = st_load_session S cookie2 w6 in
                                    Some (\<lparr>tr_first = wire_of t h2, tr_cookie = cookie2, tr_old = old,
                                           tr_second = wire_of u (fst w5), tr_last = last\<rparr>, snd w7))
                               | _ \<Rightarrow> None)
                          | _ \<Rightarrow> None)
                     | _ \<Rightarrow> None)
                | _ \<Rightarrow> None)
           | _ \<Rightarrow> None)
      | _ \<Rightarrow> None)"

text \<open>What it should see: the values under one cookie at a time, and nothing at the end.\<close>

definition tour_expected :: "string \<Rightarrow> string \<Rightarrow> string \<Rightarrow> string \<Rightarrow> wire_session \<Rightarrow> tour" where
  "tour_expected cookie2 ident key value wire =
     \<lparr>tr_first = wire, tr_cookie = cookie2, tr_old = Inr None,
      tr_second = (ident, fst (snd wire), (snd (snd wire))(key \<mapsto> value)), tr_last = Inr None\<rparr>"

text \<open>A new session, and a generator that gives it another identity, both unknown to the records.\<close>

definition tour_ready ::
  "primitives \<Rightarrow> codec \<Rightarrow> (nat \<Rightarrow> byte list) \<Rightarrow> string \<Rightarrow> string \<Rightarrow> string \<Rightarrow> string \<Rightarrow> session \<Rightarrow> heap \<Rightarrow>
   (string \<rightharpoonup> 'e) \<Rightarrow> bool" where
  "tour_ready p c rng cookie key value ident s h m \<longleftrightarrow>
     session_allocated h s \<and> lineage_idle s h \<and> persistence_origin s h = Inr None \<and>
     id_from_cookie_value p cookie = Inr (s_id s) \<and>
     id_from_cookie_value p (generate_cookie p rng SERVER_COOKIE_BYTES) = Inr ident \<and>
     m (s_id s) = None \<and> m ident = None \<and> ident \<noteq> s_id s \<and>
     (\<exists>json. wc_to_json c (wire_of s h) = Inr json) \<and>
     (\<exists>json. wc_to_json c (ident, s_expiry s, (sd_values (h_data h (s_data s)))(key \<mapsto> value)) = Inr json)"

context keyed_store
begin

lemma session_tour_completes:
  assumes S: "st_store_session S = save sv c" "st_load_session S = load sv p c now"
      "st_destroy_session S = destroy sv"
    and ready: "ready sv r" and codec: "codec_laws c"
    and tour: "tour_ready p c rng cookie key value ident s h (texts sv r)"
    and live: "fits sv (s_expiry s)" "\<not> is_expired now s"
  shows "\<exists>r'. session_tour S p rng cookie key value s (h, r) =
      Some (tour_expected (generate_cookie p rng SERVER_COOKIE_BYTES) ident key value (wire_of s h), r') \<and>
    texts sv r' = texts sv r"
proof -
  obtain json json2 where t: "session_allocated h s" "lineage_idle s h" "persistence_origin s h = Inr None"
      "wc_to_json c (wire_of s h) = Inr json"
      "wc_to_json c (ident, s_expiry s, (sd_values (h_data h (s_data s)))(key \<mapsto> value)) = Inr json2"
      "id_from_cookie_value p cookie = Inr (s_id s)"
      "id_from_cookie_value p (generate_cookie p rng SERVER_COOKIE_BYTES) = Inr ident"
      "texts sv r (s_id s) = None" "texts sv r ident = None" "ident \<noteq> s_id s"
    using tour unfolding tour_ready_def by blast
  show ?thesis
    using session_lifecycle[OF ready codec t(1-3) live t(4-10)]
    by (elim exE conjE) (simp add: session_tour_def S tour_expected_def, simp add: wire_of_def)
qed

end

subsection \<open>The life of a session in each store\<close>

text \<open>
  C15: on a SQL database of any dialect, undisturbed, a session that is created, loaded,
  edited, given a new identity and destroyed is found exactly under its current cookie with
  its current values: the old cookie loads nothing after the rotation, the new one loads
  nothing after the destruction, and the table then has the texts it had at the beginning.
\<close>
theorem sql_session_tour:
  assumes "sql_ready cl r" and "codec_laws c" and "sql_fits cl (s_expiry s)" and "\<not> is_expired now s"
    and "tour_ready p c rng cookie key value ident s h (sql_texts cl r)"
  shows "\<exists>r'. session_tour (sql_trait p c (sc_dialect cl) (sc_store cl) (sc_others cl) (sc_net cl) (sc_now cl) now)
        p rng cookie key value s (h, r) =
      Some (tour_expected (generate_cookie p rng SERVER_COOKIE_BYTES) ident key value (wire_of s h), r') \<and>
    sql_texts cl r' = sql_texts cl r"
proof -
  have "sc_others cl = undisturbed" using assms(1) by (simp add: sql_ready_def sql_quiet_def)
  then show ?thesis
    by (intro sql_map.keyed.session_tour_completes[where sv = "(cl, False)" and c = c and now = now, unfolded fst_conv snd_conv])
       (use assms in \<open>simp_all add: sql_trait_def sql_store_session_def sql_load_session_def[abs_def]
         sql_destroy_session_def\<close>)
qed

text \<open>The same for Redis, where the lifetime must be representable, and for MongoDB.\<close>

theorem redis_session_tour:
  assumes "client_quiet cl" and "codec_laws c" and "redis_fits cl (s_expiry s)" and "\<not> is_expired now s"
    and "tour_ready p c rng cookie key value ident s h (redis_texts cl r)"
  shows "\<exists>r'. session_tour (redis_trait p c (rl_store cl) (rl_others cl) (rl_net cl) (rl_now cl) now)
        p rng cookie key value s (h, r) =
      Some (tour_expected (generate_cookie p rng SERVER_COOKIE_BYTES) ident key value (wire_of s h), r') \<and>
    redis_texts cl r' = redis_texts cl r"
proof -
  have "rl_others cl = undisturbed" using assms(1) by (simp add: client_quiet_def)
  then show ?thesis
    by (intro redis_map.keyed.session_tour_completes[where sv = "(cl, True)" and c = c and now = now, unfolded fst_conv snd_conv])
       (use assms in \<open>simp_all add: redis_trait_def redis_store_session_def redis_load_session_def[abs_def]
         redis_destroy_session_def\<close>)
qed

theorem mongo_session_tour:
  assumes "mongo_quiet cl" and "codec_laws c" and "\<not> is_expired now s"
    and "tour_ready p c rng cookie key value ident s h (mongo_texts cl r)"
  shows "\<exists>r'. session_tour (mongo_trait p c (mc_store cl) (mc_others cl) (mc_net cl) now)
        p rng cookie key value s (h, r) =
      Some (tour_expected (generate_cookie p rng SERVER_COOKIE_BYTES) ident key value (wire_of s h), r') \<and>
    mongo_texts cl r' = mongo_texts cl r"
proof -
  have "mc_others cl = undisturbed" using assms(1) by (simp add: mongo_quiet_def)
  then show ?thesis
    by (intro mongo_map.keyed.session_tour_completes[where sv = "(cl, True)" and c = c and now = now, unfolded fst_conv snd_conv])
       (use assms in \<open>simp_all add: mongo_trait_def mongo_store_session_def mongo_load_session_def[abs_def]
         mongo_destroy_session_def\<close>)
qed

definition next_id :: string where
  "next_id = p_encode reference (p_blake3 reference (constant_rng 9 64))"

lemma tour_ready_reference:
  "tour_ready reference reference_codec (constant_rng 9) reference_cookie ''user'' ''1'' next_id
     fresh_reference fresh_heap Map.empty"
proof -
  have "next_id \<noteq> reference_id"
  proof
    assume "next_id = reference_id"
    then have "b64_decode next_id = b64_decode reference_id" by simp
    then have "take 32 (replicate 64 (9::byte)) = take 32 (replicate 64 7)"
      by (simp only: next_id_def reference_id_def reference_def primitives.simps b64_decode_encode
          constant_rng_def option.inject)
    then show False by simp
  qed
  moreover have "id_from_cookie_value reference (generate_cookie reference (constant_rng 9) SERVER_COOKIE_BYTES) = Inr next_id"
    using ref.generated_cookie_parses[of "constant_rng 9"]
    by (simp add: next_id_def SERVER_COOKIE_BYTES_def)
  ultimately show ?thesis
    by (simp add: tour_ready_def session_allocated_def lineage_idle_def is_destroyed_def persistence_origin_def
        fresh_reference_def fresh_session_def example_session_def wire_of_def reference_codec_def ref_encode_def)
qed

theorem sql_session_tour_witness:
  "\<exists>r'. session_tour (sql_trait reference reference_codec sqlite example_sql undisturbed (\<lambda>k. Delivered) 0 0)
      reference (constant_rng 9) reference_cookie ''user'' ''1'' fresh_reference (fresh_heap, []) =
    Some (tour_expected (generate_cookie reference (constant_rng 9) SERVER_COOKIE_BYTES) next_id ''user'' ''1''
      (reference_id, None, Map.empty), r') \<and> map_of r' = Map.empty"
proof -
  have ready: "sql_ready quiet_sql_client []" "sql_fits quiet_sql_client (s_expiry fresh_reference)"
    using example_sql_laws
    by (simp_all add: sql_ready_def sql_quiet_def client_lawful_def reference_uncontended sql_fits_def row_live_def
        fresh_reference_def fresh_session_def example_session_def)
  have texts: "sql_texts quiet_sql_client [] = Map.empty"
    by (simp add: sql_texts_def fun_eq_iff)
  have wire: "wire_of fresh_reference fresh_heap = (reference_id, None, Map.empty)" "\<not> is_expired 0 fresh_reference"
    by (simp_all add: wire_of_def is_expired_def fresh_reference_def fresh_session_def example_session_def)
  show ?thesis
    using sql_session_tour[OF ready(1) reference_codec_laws ready(2) wire(2), of reference "constant_rng 9"
        reference_cookie "''user''" "''1''" next_id fresh_heap]
      tour_ready_reference texts wire(1)
    by (auto simp: sql_texts_def fun_eq_iff)
qed

end
