(* ===== verification/Custom_Store.thy ===== *)
theory Custom_Store
  imports Store_Trait Cancellation
begin

text \<open>
  A store that an external crate writes against the public protocol of \<open>SessionSave\<close>, as
  \<open>docs/custom-stores.md\<close> prescribes: the one of \<open>tests/custom_store.rs\<close>, a map of texts behind a
  mutex. It composes the operations of \<open>Session_Save\<close>, which no store of the crate does, and
  keeps the same promises as the stores of the crate.
\<close>

subsection \<open>The store\<close>

type_synonym custom_records = "string \<rightharpoonup> string"

text \<open>The fields that the derived \<open>Serialize\<close> of \<open>SessionSnapshot\<close> writes.\<close>

definition snapshot_wire :: "snapshot \<Rightarrow> wire_session" where
  "snapshot_wire sn = (sn_id sn, sn_expiry sn, sn_data sn)"

text \<open>The block of \<open>store_session\<close> that holds the mutex.\<close>

definition custom_write ::
  "string option \<Rightarrow> string \<Rightarrow> string \<Rightarrow> custom_records \<Rightarrow> error + custom_records" where
  "custom_write origin ident encoded m =
     (if (case origin of None \<Rightarrow> False | Some src \<Rightarrow> m src = None) then Inl SessionConflict
      else if origin \<noteq> Some ident \<and> m ident \<noteq> None then Inl SessionConflict
      else
        (let m1 = (case rotation_source origin ident of None \<Rightarrow> m | Some src \<Rightarrow> m(src := None))
         in Inr (m1(ident \<mapsto> encoded))))"

text \<open>
  \<open>store_session\<close>. Other tasks run while the lock is awaited (0), at the gate before the write
  (1), and on other threads after the write (2) and after the check for destruction (3). An
  early return drops the guard and then the save.
\<close>

definition custom_store_session ::
  "codec \<Rightarrow> custom_records remote interleaving \<Rightarrow> session \<Rightarrow> custom_records remote \<Rightarrow>
   (error + string option) poll \<times> custom_records remote" where
  "custom_store_session c ij session w =
     (let (h, m) = w in
      case prepare_save session h of
        (Inl e, h1) \<Rightarrow> (Ready (Inl e), (h1, m))
      | (Inr save, h1) \<Rightarrow>
          (let (h2, m2) = ij 0 (h1, m) in
           case begin_write id save h2 of
             (Pending, save1, h3) \<Rightarrow> (Pending, (h3, m2))
           | (Ready (Inl e), save1, h3) \<Rightarrow> (Ready (Inl e), (save_drop save1 h3, m2))
           | (Ready (Inr g), save1, h3) \<Rightarrow>
               (case wc_to_json c (snapshot_wire (sv_snapshot save1)) of
                  Inl e \<Rightarrow> (Ready (Inl e), (save_drop save1 (write_guard_drop g h3), m2))
                | Inr encoded \<Rightarrow>
                    (case validate_current save1 h3 of
                       Inl e \<Rightarrow> (Ready (Inl e), (save_drop save1 (write_guard_drop g h3), m2))
                     | Inr _ \<Rightarrow>
                         (let (h4, m4) = ij 1 (h3, m2);
                              ident = sn_id (sv_snapshot save1)
                          in case custom_write (sv_origin save1) ident encoded m4 of
                            Inl e \<Rightarrow> (Ready (Inl e), (save_drop save1 (write_guard_drop g h4), m4))
                          | Inr m5 \<Rightarrow>
                              (let (h6, m6) = ij 2 (h4, m5) in
                               if guard_is_destroyed g h6 then
                                 (let (h7, m7) = ij 3 (h6, m6(ident := None));
                                      (res, h8) = save_confirm_removed save1 g h7
                                  in (Ready (case res of Inl e \<Rightarrow> Inl e | Inr _ \<Rightarrow> Inl SessionConflict),
                                      (h8, m7)))
                               else
                                 (let (h7, m7) = ij 3 (h6, m6);
                                      (res, h8) = complete_with_guard save1 g h7
                                  in (Ready res, (h8, m7)))))))))"

definition custom_lookup :: "string \<Rightarrow> custom_records remote \<Rightarrow> (error + string option) \<times> custom_records remote" where
  "custom_lookup ident w = (Inr (snd w ident), w)"

definition custom_load_session ::
  "primitives \<Rightarrow> codec \<Rightarrow> datetime \<Rightarrow> string \<Rightarrow> custom_records remote \<Rightarrow>
   (error + session option) \<times> custom_records remote" where
  "custom_load_session p c = remote_load_session p c custom_lookup"

definition custom_remove :: "string \<Rightarrow> custom_records remote \<Rightarrow> (error + unit) \<times> custom_records remote" where
  "custom_remove ident w = (Inr (), (fst w, (snd w)(ident := None)))"

definition custom_destroy_session ::
  "custom_records remote interleaving \<Rightarrow> session \<Rightarrow> custom_records remote \<Rightarrow>
   (error + unit) poll \<times> custom_records remote" where
  "custom_destroy_session = remote_destroy_session custom_remove"

definition custom_clear_store :: "custom_records remote \<Rightarrow> custom_records remote" where
  "custom_clear_store w = (fst w, Map.empty)"

definition custom_trait ::
  "primitives \<Rightarrow> codec \<Rightarrow> custom_records remote interleaving \<Rightarrow> datetime \<Rightarrow>
   custom_records remote session_store" where
  "custom_trait p c ij now =
     \<lparr>st_load_session = custom_load_session p c now,
      st_store_session = custom_store_session c ij,
      st_destroy_session = custom_destroy_session ij,
      st_clear_store = (\<lambda>w. Some (Inr (), custom_clear_store w))\<rparr>"

subsection \<open>The write\<close>

text \<open>
  The critical section of a custom store is the conditional write that the documentation of
  \<open>SessionSave::origin\<close> asks for, and reports every other case as a conflict.
\<close>
theorem custom_write_is_conditional_write:
  "custom_write origin ident encoded m =
     (case conditional_write origin ident encoded m of None \<Rightarrow> Inl SessionConflict | Some m' \<Rightarrow> Inr m')"
  by (auto simp: custom_write_def conditional_write_def rotation_source_def split: option.splits)

interpretation custom: conditional_backend
  "\<lambda>origin t r m. case custom_write origin t r m of Inl _ \<Rightarrow> None | Inr m' \<Rightarrow> Some m'"
  "\<lambda>t m. m(t := None)" dom "\<lambda>_. True"
proof (rule conditional_backendI[where m = "\<lambda>m. m"])
  show "\<exists>row. conditional_write origin t row m = Some m'"
    if "(case custom_write origin t r m of Inl _ \<Rightarrow> None | Inr m' \<Rightarrow> Some m') = Some m'" for origin t r m m'
    using that by (auto simp: custom_write_def conditional_write_def rotation_source_def split: option.splits if_splits)
qed simp

subsection \<open>The exits of a save\<close>

lemma prepare_save_Inr:
  assumes "prepare_save s h = (Inr save, h1)"
  shows "\<exists>h0. persistence_attempt s h = (Inr (sv_origin save), h0) \<and> h_life h1 = h_life h"
    and "sv_source save = s" "\<not> sv_write_started save" "sn_id (sv_snapshot save) = s_id s"
    "sr_data (sv_revision save) = s_data s"
    "sv_write_receipt save = h_next h" "snapshot_wire (sv_snapshot save) = wire_of s h"
    "sr_revision (sv_revision save) = sd_revision (h_data h (s_data s))"
  using assms
  by (auto simp: prepare_save_def persistence_attempt_def immutable_snapshot_def capture_def alloc_receipt_def
      snapshot_wire_def wire_of_def Let_def split_beta split: sum.splits if_splits prod.splits)

lemma prepare_save_Inl: "prepare_save s h = (Inl e, h1) \<Longrightarrow> e = SessionConflict \<and> h1 = h"
  by (cases "persistence_attempt s h")
     (auto simp: prepare_save_def Let_def split: sum.splits prod.splits dest: persistence_attempt_Inl)

text \<open>The save holds its guard \<open>g\<close> and has passed the checks; its write begins in the world \<open>w4\<close>.\<close>

definition custom_begun ::
  "codec \<Rightarrow> custom_records remote interleaving \<Rightarrow> session \<Rightarrow> custom_records remote \<Rightarrow> session_save \<Rightarrow>
   write_guard \<Rightarrow> string \<Rightarrow> custom_records remote \<Rightarrow> bool" where
  "custom_begun c ij s w save g encoded w4 \<longleftrightarrow>
     (\<exists>h1 h2 m2 h3. prepare_save s (fst w) = (Inr save, h1) \<and> ij 0 (h1, snd w) = (h2, m2) \<and>
        begin_write id save h2 = (Ready (Inr g), save\<lparr>sv_write_started := True\<rparr>, h3) \<and>
        wc_to_json c (snapshot_wire (sv_snapshot save)) = Inr encoded \<and>
        validate_current (save\<lparr>sv_write_started := True\<rparr>) h3 = Inr () \<and> ij 1 (h3, m2) = w4)"

lemma custom_store_cases:
  assumes "custom_store_session c ij s (h, m) = (Ready res, (h', m'))"
  obtains (early) "res = Inl SessionConflict" "h' = h" "m' = m"
  | (refused) save h1 h2 e h3 where "prepare_save s h = (Inr save, h1)" "ij 0 (h1, m) = (h2, m')"
      "begin_guarded_write s (sv_origin save) (Some (sv_write_receipt save)) True h2 = (Ready (Inl e), h3)"
      "res = Inl e" "h' = revision_drop (sv_revision save) h3"
  | (unready) save h1 h2 g e h3 where "prepare_save s h = (Inr save, h1)" "ij 0 (h1, m) = (h2, m')"
      "begin_write id save h2 = (Ready (Inr g), save\<lparr>sv_write_started := True\<rparr>, h3)" "res = Inl e"
      "h' = revision_drop (sv_revision save) (write_guard_drop g h3)"
  | (rejected) save g encoded h4 where "custom_begun c ij s (h, m) save g encoded (h4, m')"
      "custom_write (sv_origin save) (s_id s) encoded m' = Inl SessionConflict" "res = Inl SessionConflict"
      "h' = revision_drop (sv_revision save) (write_guard_drop g h4)"
  | (removed) save g encoded h4 m4 m5 h6 m6 h7 where "custom_begun c ij s (h, m) save g encoded (h4, m4)"
      "custom_write (sv_origin save) (s_id s) encoded m4 = Inr m5" "ij 2 (h4, m5) = (h6, m6)"
      "guard_is_destroyed g h6" "ij 3 (h6, m6(s_id s := None)) = (h7, m')" "res = Inl SessionConflict"
      "h' = revision_drop (sv_revision save) (write_guard_drop (g\<lparr>wg_settled := True\<rparr>) h7)"
  | (completed) save g encoded h4 m4 m5 h6 m6 h7 where "custom_begun c ij s (h, m) save g encoded (h4, m4)"
      "custom_write (sv_origin save) (s_id s) encoded m4 = Inr m5" "ij 2 (h4, m5) = (h6, m6)"
      "\<not> guard_is_destroyed g h6" "ij 3 (h6, m6) = (h7, m')" "complete_with_guard save g h7 = (res, h')"
proof -
  obtain rs h1 where prep: "prepare_save s h = (rs, h1)" by fastforce
  show ?thesis
  proof (cases rs)
    case (Inl e)
    then show ?thesis
      using assms prep prepare_save_Inl[of s h e h1] early by (simp add: custom_store_session_def)
  next
    case (Inr save)
    note prep = prep[unfolded Inr] and sv = prepare_save_Inr[OF prep[unfolded Inr]]
    obtain h2 m2 where w2: "ij 0 (h1, m) = (h2, m2)" by fastforce
    obtain rb h3 where bw: "begin_write id save h2 = (rb, save\<lparr>sv_write_started := True\<rparr>, h3)"
      using sv(3) by (simp add: begin_write_def Let_def split_beta)
    have bg: "begin_guarded_write s (sv_origin save) (Some (sv_write_receipt save)) True h2 = (rb, h3)"
      using bw sv(2,3) by (simp add: begin_write_def Let_def split_beta) (metis prod.collapse)
    have ident: "sn_id (sv_snapshot save) = s_id s" by (rule sv(4))
    note run = assms[unfolded custom_store_session_def Let_def, simplified prep w2 bw prod.case sum.case]
    consider (poll) "rb = Pending" | (no) e where "rb = Ready (Inl e)" | (yes) g where "rb = Ready (Inr g)"
      by (cases rb; cases "case rb of Ready x \<Rightarrow> x") (auto split: sum.splits)
    then show ?thesis
    proof cases
      case poll
      then show ?thesis using run by simp
    next
      case no
      then show ?thesis using run refused[OF prep _ _] w2 bg by (auto simp: save_drop_def)
    next
      case (yes g)
      note bw = bw[unfolded yes]
      have matches: "guard_matches g (sv_write_receipt save)"
        using begin_write_guard[OF bw] by (simp add: guard_matches_def)
      show ?thesis
      proof (cases "\<exists>encoded. wc_to_json c (snapshot_wire (sv_snapshot save)) = Inr encoded \<and>
          validate_current (save\<lparr>sv_write_started := True\<rparr>) h3 = Inr ()")
        case False
        then show ?thesis
          using run yes unready[OF prep _ bw] w2
          by (auto simp: save_drop_def split: sum.splits)
      next
        case True
        then obtain encoded where enc: "wc_to_json c (snapshot_wire (sv_snapshot save)) = Inr encoded"
            "validate_current (save\<lparr>sv_write_started := True\<rparr>) h3 = Inr ()" by blast
        obtain h4 m4 where w4: "ij 1 (h3, m2) = (h4, m4)" by fastforce
        have begun: "custom_begun c ij s (h, m) save g encoded (h4, m4)"
          using prep w2 bw enc w4 by (auto simp: custom_begun_def)
        show ?thesis
        proof (cases "custom_write (sv_origin save) (s_id s) encoded m4")
          case (Inl e)
          moreover have "e = SessionConflict"
            using Inl by (auto simp: custom_write_def Let_def split: if_splits)
          ultimately show ?thesis
            using run yes enc w4[simplified] ident rejected[of save g encoded h4] begun
            by (simp add: save_drop_def)
        next
          case (Inr m5)
          obtain h6 m6 where w6: "ij 2 (h4, m5) = (h6, m6)" by fastforce
          note run = run[unfolded yes, simplified poll.case sum.case prod.case]
          show ?thesis
          proof (cases "guard_is_destroyed g h6")
            case True
            obtain h7 m7 where w7: "ij 3 (h6, m6(s_id s := None)) = (h7, m7)" by fastforce
            show ?thesis
              using run True w7 matches removed[OF begun Inr w6 True]
              by (auto simp: save_confirm_removed_def guard_confirm_removed_def enc ident
                  w4[simplified] w6 Inr)
          next
            case False
            obtain h7 m7 where w7: "ij 3 (h6, m6) = (h7, m7)" by fastforce
            have same: "complete_with_guard (save\<lparr>sv_write_started := True\<rparr>) = complete_with_guard save"
              by (simp add: fun_eq_iff complete_with_guard_def Let_def split_beta)
            show ?thesis
              using run False w7 completed[OF begun Inr w6 False, of h7]
              by (auto simp: enc ident w4[simplified] w6 Inr same split: prod.splits)
          qed
        qed
      qed
    qed
  qed
qed

lemma custom_begun_facts:
  assumes "custom_begun c ij s w save g encoded w4"
  shows "wg_state g = s_lifecycle s" "wg_destroyed g = s_destroy s" "\<not> wg_settled g"
    "wg_receipt g = Some (sv_write_receipt save)" "wg_uncertain_on_drop g \<longleftrightarrow> sv_origin save \<noteq> Some (s_id s)"
    "sr_data (sv_revision save) = s_data s" "sv_source save = s"
    "persistence_origin s (fst w) = Inr (sv_origin save)"
    "\<exists>k k0. snd w4 = snd (ij 1 (k, snd (ij 0 (k0, snd w))))"
proof -
  obtain h1 h2 m2 h3 where begun: "prepare_save s (fst w) = (Inr save, h1)" "ij 0 (h1, snd w) = (h2, m2)"
      "begin_write id save h2 = (Ready (Inr g), save\<lparr>sv_write_started := True\<rparr>, h3)" "ij 1 (h3, m2) = w4"
    using assms unfolding custom_begun_def by blast
  note sv = prepare_save_Inr[OF begun(1)]
  have bg: "begin_guarded_write s (sv_origin save) (Some (sv_write_receipt save)) True h2 = (Ready (Inr g), h3)"
    using begun(3) sv(2,3) by (simp add: begin_write_def Let_def split_beta) (metis prod.collapse)
  show "wg_state g = s_lifecycle s" "wg_destroyed g = s_destroy s" "\<not> wg_settled g"
    "wg_receipt g = Some (sv_write_receipt save)" "wg_uncertain_on_drop g \<longleftrightarrow> sv_origin save \<noteq> Some (s_id s)"
    using begin_guarded_write_Inr[OF bg] by auto
  show "sr_data (sv_revision save) = s_data s" "sv_source save = s" by (rule sv(5), rule sv(2))
  show "persistence_origin s (fst w) = Inr (sv_origin save)"
    using sv(1) by (auto simp: persistence_attempt_def split: if_splits sum.splits)
  show "\<exists>k k0. snd w4 = snd (ij 1 (k, snd (ij 0 (k0, snd w))))"
    using begun(2,4) by (metis snd_conv)
qed

text \<open>The last step of a save that holds its own guard.\<close>

lemma complete_own_guard:
  assumes "complete_with_guard save g h = (res, h')" and "wg_receipt g = Some (sv_write_receipt save)"
    and "sr_data (sv_revision save) = s_data (sv_source save)"
  shows "\<not> ws_locked (h_life h' (wg_state g))"
    and "h_destroy h (wg_destroyed g) \<Longrightarrow> res = Inl SessionConflict \<and> needs_persist (sv_source save) h' \<and>
      (wg_uncertain_on_drop g \<longrightarrow> ws_uncertain (h_life h' (wg_state g)))"
    and "\<not> h_destroy h (wg_destroyed g) \<Longrightarrow> res = Inr (s_cookie_value (sv_source save))"
proof -
  have matches: "guard_matches g (sv_write_receipt save)" using assms(2) by (simp add: guard_matches_def)
  show "\<not> ws_locked (h_life h' (wg_state g))"
    using assms(1) matches
    by (cases "h_destroy h (wg_destroyed g)")
       (auto simp: complete_with_guard_def guard_finish_def guard_is_destroyed_def guard_require_cleanup_def
         acknowledge_revision_def into_cookie_value_def Let_def)
  show "res = Inl SessionConflict \<and> needs_persist (sv_source save) h' \<and>
      (wg_uncertain_on_drop g \<longrightarrow> ws_uncertain (h_life h' (wg_state g)))" if "h_destroy h (wg_destroyed g)"
    using assms(1) matches that needs_persist_drop[OF assms(3)]
    by (auto simp: complete_with_guard_def guard_finish_def guard_is_destroyed_def guard_require_cleanup_def Let_def)
  show "res = Inr (s_cookie_value (sv_source save))" if "\<not> h_destroy h (wg_destroyed g)"
    using assms(1) matches that
    by (auto simp: complete_with_guard_def guard_finish_def guard_is_destroyed_def
         acknowledge_revision_def into_cookie_value_def Let_def)
qed

text \<open>
  C22: however a save to a custom store ends, whatever other tasks do at its suspension points
  and between its last check and its completion, the lifecycle lock is released, unless
  another task holds it. If it reports an error, then nothing has happened or the session still
  needs to be persisted; a record that it was to create is not there, provided that nobody
  else writes it, or every coordinated deletion is refused as uncertain. On success the
  outgoing cookie is the session's own.
\<close>
theorem custom_save_outcomes:
  assumes call: "custom_store_session c ij s (h, m) = (Ready res, (h', m'))"
    and others: "\<And>n w. \<not> ws_locked (h_life (fst w) (s_lifecycle s)) \<Longrightarrow>
      \<not> ws_locked (h_life (fst (ij n w)) (s_lifecycle s))"
    and start: "\<not> ws_locked (h_life h (s_lifecycle s))"
  shows "\<not> ws_locked (h_life h' (s_lifecycle s)) \<and>
    (case res of
       Inr cookie \<Rightarrow> cookie = s_cookie_value s
     | Inl e \<Rightarrow> ((h' = h \<and> m' = m) \<or> needs_persist s h') \<and>
         (m (s_id s) = None \<and> persistence_origin s h \<noteq> Inr (Some (s_id s)) \<and>
            (\<forall>n w. snd w (s_id s) = None \<longrightarrow> snd (ij n w) (s_id s) = None) \<longrightarrow>
          m' (s_id s) = None \<or> fst (begin_delete_locked s h') = Ready (Inl UncertainWrite)))"
proof -
  let ?sealed = "\<forall>n w. snd w (s_id s) = None \<longrightarrow> snd (ij n w) (s_id s) = None"
  have kept: "m2 (s_id s) = None" if "ij n (k, m1) = (k2, m2)" "m1 (s_id s) = None" ?sealed for n k k2 m1 m2
    using that by (metis snd_conv)
  from call show ?thesis
  proof (cases rule: custom_store_cases)
    case early
    then show ?thesis using start by simp
  next
    case (refused save h1 h2 e h3)
    have "\<not> ws_locked (h_life h2 (s_lifecycle s))"
      using others[of "(h1, m)" 0] prepare_save_Inr(1)[OF refused(1)] refused(2) start by auto
    then show ?thesis
      using refused(4,5) begin_guarded_write_Inl[OF refused(3)] prepare_save_Inr(5)[OF refused(1)]
        needs_persist_drop[of "sv_revision save" s] kept[OF refused(2)] by auto
  next
    case (unready save h1 h2 g e h3)
    then show ?thesis
      using begin_write_guard[OF unready(3)] prepare_save_Inr(2,5)[OF unready(1)]
        needs_persist_drop[of "sv_revision save" s] kept[OF unready(2)] by auto
  next
    case (rejected save g encoded h4)
    note f = custom_begun_facts[OF rejected(1)]
    have "ws_uncertain (h_life h' (s_lifecycle s))" if "sv_origin save \<noteq> Some (s_id s)"
      using rejected(4) f(1,3,5) that by simp
    then show ?thesis
      using rejected(3,4) f(1,6,8) needs_persist_drop[of "sv_revision save" s] uncertain_refuses[of h' s] by auto
  next
    case (removed save g encoded h4 m4 m5 h6 m6 h7)
    then show ?thesis
      using custom_begun_facts(1,6)[OF removed(1)] needs_persist_drop[of "sv_revision save" s] kept[OF removed(5)]
      by auto
  next
    case (completed save g encoded h4 m4 m5 h6 m6 h7)
    note f = custom_begun_facts[OF completed(1)]
    note c = complete_own_guard[OF completed(6) f(4) f(6)[folded f(7)], unfolded f(1,2,5,7)]
    show ?thesis
      using c f(8) uncertain_refuses[of h' s] by (cases "h_destroy h7 (s_destroy s)") auto
  qed
qed

text \<open>A logout on another thread, between the last check of a save and its completion.\<close>

definition late_logout :: "session \<Rightarrow> custom_records remote interleaving" where
  "late_logout s n w = (if n = 3 then (session_destroy s (fst w), snd w) else w)"

theorem custom_save_outcomes_witness:
  "\<exists>h' m'. custom_store_session reference_codec (late_logout fresh_reference) fresh_reference (fresh_heap, Map.empty) =
      (Ready (Inl SessionConflict), (h', m')) \<and> m' reference_id \<noteq> None \<and> needs_persist fresh_reference h' \<and>
    fst (begin_delete_locked fresh_reference h') = Ready (Inl UncertainWrite)"
proof -
  obtain h' m' where run: "custom_store_session reference_codec (late_logout fresh_reference) fresh_reference
      (fresh_heap, Map.empty) = (Ready (Inl SessionConflict), (h', m'))" "m' reference_id \<noteq> None"
    by (simp add: custom_store_session_def prepare_save_def persistence_attempt_def is_destroyed_def
        persistence_origin_def immutable_snapshot_def capture_def alloc_receipt_def begin_write_def
        begin_guarded_write_def lifecycle_write_def validate_current_def custom_write_def rotation_source_def
        snapshot_wire_def reference_codec_def ref_encode_def late_logout_def session_destroy_def
        guard_is_destroyed_def complete_with_guard_def guard_matches_def guard_finish_def
        fresh_reference_def fresh_session_def example_session_def Let_def)
  have others: "\<not> ws_locked (h_life (fst (late_logout fresh_reference n w)) (s_lifecycle fresh_reference))"
    if "\<not> ws_locked (h_life (fst w) (s_lifecycle fresh_reference))" for n w
    using that by (simp add: late_logout_def session_destroy_def)
  have start: "\<not> ws_locked (h_life fresh_heap (s_lifecycle fresh_reference))" "s_id fresh_reference = reference_id"
      "persistence_origin fresh_reference fresh_heap = Inr None"
    by (simp_all add: fresh_reference_def fresh_session_def example_session_def persistence_origin_def)
  show ?thesis
    using custom_save_outcomes[OF run(1) others start(1)] run start(2,3)
    by (auto simp: late_logout_def)
qed

subsection \<open>The public protocol and the one of the crate\<close>

text \<open>The same requests, for the handler that the external stores of the crate share.\<close>

definition custom_put ::
  "string option \<Rightarrow> session \<Rightarrow> string \<Rightarrow> custom_records remote \<Rightarrow> write_outcome \<times> custom_records remote" where
  "custom_put origin snap json w =
     (case custom_write origin (s_id snap) json (snd w) of
        Inl e \<Rightarrow> (Failed e, w)
      | Inr m' \<Rightarrow> (Stored, (fst w, m')))"

lemma persistence_origin_stays:
  "persistence_origin s h = Inr (Some i) \<Longrightarrow> h_pid k (s_persisted_id s) = h_pid h (s_persisted_id s) \<Longrightarrow>
   persistence_origin s k = Inr (Some i)"
  by (auto simp: persistence_origin_def Let_def split: option.splits if_splits)

text \<open>An undisturbed save that is admitted, with the heap in which its write begins.\<close>

lemma custom_begins:
  assumes alloc: "session_allocated h s" and idle: "lineage_idle s h"
    and origin: "persistence_origin s h = Inr origin"
  obtains save hp hc g where "prepare_save s h = (Inr save, hp)"
    "begin_write id save hp = (Ready (Inr g), save\<lparr>sv_write_started := True\<rparr>, hc)"
    "validate_current (save\<lparr>sv_write_started := True\<rparr>) hc = Inr ()"
    "sv_source save = s" "sv_origin save = origin" "sn_id (sv_snapshot save) = s_id s"
    "snapshot_wire (sv_snapshot save) = wire_of s h"
    "sv_revision save = \<lparr>sr_data = s_data s, sr_revision = sd_revision (h_data h (s_data s))\<rparr>"
    "g = \<lparr>wg_state = s_lifecycle s, wg_destroyed = s_destroy s, wg_receipt = Some (sv_write_receipt save),
       wg_uncertain_on_drop = (origin \<noteq> Some (s_id s)), wg_settled = False\<rparr>"
    "h_data hc (s_data s) = capture_data (h_data h (s_data s))"
    "h_pid hc = h_pid h" "h_destroy hc = h_destroy h" "h_next hc = Suc (h_next h)"
    "\<not> ws_uncertain (h_life hc (s_lifecycle s))"
proof -
  define ha where "ha = (if origin = None then set_claimed (s_creation_claimed s) True h else h)"
  have att: "persistence_attempt s h = (Inr origin, ha)"
    using idle persistence_origin_Inr[THEN iffD1, OF origin]
    unfolding persistence_attempt_def lineage_idle_def ha_def origin
    by (auto split: option.splits)
  have ha: "h_next ha = h_next h" "h_data ha = h_data h" "h_pid ha = h_pid h"
      "h_life ha = h_life h" "h_destroy ha = h_destroy h"
    by (simp_all add: ha_def)
  define hp where "hp = (upd_data (s_data s) capture_data ha)\<lparr>h_next := Suc (h_next h)\<rparr>"
  define save where "save = \<lparr>sv_source = s,
      sv_snapshot = \<lparr>sn_id = s_id s, sn_expiry = s_expiry s, sn_data = sd_values (h_data h (s_data s))\<rparr>,
      sv_revision = \<lparr>sr_data = s_data s, sr_revision = sd_revision (h_data h (s_data s))\<rparr>, sv_origin = origin,
      sv_write_receipt = h_next h, sv_write_started = False\<rparr>"
  have prep: "prepare_save s h = (Inr save, hp)"
    by (simp add: prepare_save_def att immutable_snapshot_def capture_def alloc_receipt_def ha save_def hp_def)
  have hp: "h_pid hp = h_pid h" "h_destroy hp = h_destroy h" "h_life hp = h_life h" "h_next hp = Suc (h_next h)"
      "h_data hp (s_data s) = capture_data (h_data h (s_data s))"
    by (simp_all add: hp_def ha)
  define hc where "hc = upd_life (s_lifecycle s) (\<lambda>w. w\<lparr>ws_locked := True\<rparr>) hp"
  define g where "g = \<lparr>wg_state = s_lifecycle s, wg_destroyed = s_destroy s, wg_receipt = Some (h_next h),
      wg_uncertain_on_drop = (origin \<noteq> Some (s_id s)), wg_settled = False\<rparr>"
  have same: "persistence_origin s hc = Inr (Some i)" if "origin = Some i" for i
    using origin persistence_origin_stays[of s h i hc] that by (simp add: hc_def hp)
  have "begin_guarded_write s origin (Some (h_next h)) True hp = (Ready (Inr g), hc)"
    using idle same
    by (cases origin) (auto simp: begin_guarded_write_def lifecycle_write_def lineage_idle_def is_destroyed_def
        hp g_def hc_def[symmetric] Let_def)
  then have bw: "begin_write id save hp = (Ready (Inr g), save\<lparr>sv_write_started := True\<rparr>, hc)"
    by (simp add: begin_write_def save_def)
  have ok: "validate_current (save\<lparr>sv_write_started := True\<rparr>) hc = Inr ()"
    using idle same by (cases origin) (simp_all add: validate_current_def save_def is_destroyed_def lineage_idle_def hc_def hp)
  show ?thesis
    using idle
    by (intro that[OF prep bw ok])
       (simp_all add: save_def g_def hc_def hp snapshot_wire_def wire_of_def lineage_idle_def)
qed

lemma custom_quiet_save:
  assumes "session_allocated h s" and "lineage_idle s h" and "persistence_origin s h = Inr origin"
    and json: "wc_to_json c (wire_of s h) = Inr json"
  obtains token hc g where
    "custom_store_session c undisturbed s (h, m) =
       (case custom_write origin (s_id s) json m of
          Inl e \<Rightarrow> (Ready (Inl e), (revision_drop (token) (write_guard_drop g hc), m))
        | Inr m' \<Rightarrow> (Ready (Inr (s_cookie_value s)),
            (write_guard_drop (g\<lparr>wg_settled := True\<rparr>) (acknowledge (token) (mark_persisted s hc)), m')))"
    "token = \<lparr>sr_data = s_data s, sr_revision = sd_revision (h_data h (s_data s))\<rparr>"
    "wg_state g = s_lifecycle s" "wg_uncertain_on_drop g = (origin \<noteq> Some (s_id s))" "\<not> wg_settled g"
    "h_data hc (s_data s) = capture_data (h_data h (s_data s))"
    "h_pid hc = h_pid h" "h_destroy hc = h_destroy h" "h_next hc = Suc (h_next h)"
    "\<not> ws_uncertain (h_life hc (s_lifecycle s))"
proof -
  obtain save hp hc g where begun: "prepare_save s h = (Inr save, hp)"
      "begin_write id save hp = (Ready (Inr g), save\<lparr>sv_write_started := True\<rparr>, hc)"
      "validate_current (save\<lparr>sv_write_started := True\<rparr>) hc = Inr ()"
    and sv: "sv_source save = s" "sv_origin save = origin" "sn_id (sv_snapshot save) = s_id s"
      "snapshot_wire (sv_snapshot save) = wire_of s h"
      "sv_revision save = \<lparr>sr_data = s_data s, sr_revision = sd_revision (h_data h (s_data s))\<rparr>"
    and g: "g = \<lparr>wg_state = s_lifecycle s, wg_destroyed = s_destroy s, wg_receipt = Some (sv_write_receipt save),
       wg_uncertain_on_drop = (origin \<noteq> Some (s_id s)), wg_settled = False\<rparr>"
    and hc: "h_data hc (s_data s) = capture_data (h_data h (s_data s))" "h_pid hc = h_pid h"
      "h_destroy hc = h_destroy h" "h_next hc = Suc (h_next h)" "\<not> ws_uncertain (h_life hc (s_lifecycle s))"
    by (rule custom_begins[OF assms(1-3)])
  have live: "\<not> h_destroy hc (s_destroy s)"
    using assms(2) by (simp add: hc lineage_idle_def is_destroyed_def)
  have run: "custom_store_session c undisturbed s (h, m) =
       (case custom_write origin (s_id s) json m of
          Inl e \<Rightarrow> (Ready (Inl e), (revision_drop (sv_revision save) (write_guard_drop g hc), m))
        | Inr m' \<Rightarrow> (Ready (Inr (s_cookie_value s)),
            (write_guard_drop (g\<lparr>wg_settled := True\<rparr>) (acknowledge (sv_revision save) (mark_persisted s hc)), m')))"
    using live
    by (simp add: custom_store_session_def begun sv(1-4) json save_drop_def guard_is_destroyed_def g
        complete_with_guard_def guard_matches_def guard_finish_def acknowledge_revision_def into_cookie_value_def
        Let_def split: sum.splits)
  show ?thesis by (rule that, rule run, rule sv(5)) (simp_all add: g hc)
qed

lemma uncertain_saves_agree:
  assumes alloc: "session_allocated h s" and json: "wc_to_json c (wire_of s h) = Inr json"
    and att: "persistence_attempt s h = (Inr origin, ha)"
    and lock: "\<not> ws_locked (h_life h (s_lifecycle s))" "ws_uncertain (h_life h (s_lifecycle s))"
  obtains h1 h2 where
    "custom_store_session c undisturbed s (h, m) = (Ready (Inl UncertainWrite), (h1, m))"
    "remote_store_session c True custom_put custom_remove undisturbed s (h, m) =
       (Ready (Inl UncertainWrite), (h2, m))"
    "h_data h1 (s_data s) = h_data h2 (s_data s)" "h_pid h1 (s_persisted_id s) = h_pid h2 (s_persisted_id s)"
    "h_life h1 (s_lifecycle s) = h_life h2 (s_lifecycle s)"
proof -
  have live: "\<not> is_destroyed s h"
      and ha: "ha = (if origin = None then set_claimed (s_creation_claimed s) True h else h)"
    using att by (auto simp: persistence_attempt_def split: if_splits sum.splits)
  have ha: "h_data ha = h_data h" "h_pid ha = h_pid h" "h_life ha = h_life h" "h_destroy ha = h_destroy h"
      "h_next ha = h_next h"
    by (simp_all add: ha)
  obtain h1 where first: "custom_store_session c undisturbed s (h, m) = (Ready (Inl UncertainWrite), (h1, m))"
      "h_life h1 = h_life h" "h_pid h1 = h_pid h" "h_data h1 (s_data s) = drop_data (capture_data (h_data h (s_data s)))"
    using lock
    by (simp add: custom_store_session_def prepare_save_def att immutable_snapshot_def capture_def
        alloc_receipt_def begin_write_def begin_guarded_write_def lifecycle_write_def save_drop_def ha
        revision_drop_def Let_def)
  obtain snap token hb where ps: "persistence_snapshot s ha = ((snap, token), hb)" by (metis surj_pair)
  have "s_data s < h_next ha" using alloc by (simp add: ha session_allocated_def)
  note snapshot = persistence_snapshot_wire[OF ps this]
  have wire: "wire_of snap hb = wire_of s h" using snapshot(1) by (simp add: wire_of_def ha)
  have hb: "h_life hb (s_lifecycle s) = h_life h (s_lifecycle s)" "sr_data token = s_data s"
      "h_pid hb (s_persisted_id s) = h_pid h (s_persisted_id s)"
      "h_data hb (s_data s) = capture_data (h_data h (s_data s))"
    using alloc snapshot(2) by (simp_all add: snapshot(5) ha session_allocated_def)
  obtain h2 where second: "remote_store_session c True custom_put custom_remove undisturbed s (h, m) =
       (Ready (Inl UncertainWrite), (h2, m))"
      "h_life h2 (s_lifecycle s) = h_life h (s_lifecycle s)" "h_pid h2 (s_persisted_id s) = h_pid h (s_persisted_id s)"
      "h_data h2 (s_data s) = drop_data (capture_data (h_data h (s_data s)))"
    using lock live json
    by (simp add: remote_store_session_def att ps wire hb begin_backend_write_def begin_guarded_write_def
        lifecycle_write_def ha is_destroyed_def revision_drop_def Let_def)
  show ?thesis by (rule that[OF first(1) second(1)]) (simp_all add: first(2-4) second(2-4))
qed

lemma admitted_saves_agree:
  assumes alloc: "session_allocated h s" and json: "wc_to_json c (wire_of s h) = Inr json"
    and idle: "lineage_idle s h" and origin: "persistence_origin s h = Inr origin"
  obtains h1 h2 res m1 where
    "custom_store_session c undisturbed s (h, m) = (res, (h1, m1))"
    "remote_store_session c True custom_put custom_remove undisturbed s (h, m) = (res, (h2, m1))"
    "h_data h1 (s_data s) = h_data h2 (s_data s)" "h_pid h1 (s_persisted_id s) = h_pid h2 (s_persisted_id s)"
    "h_life h1 (s_lifecycle s) = h_life h2 (s_lifecycle s)"
proof -
  define outcome where "outcome token g hc = (case custom_write origin (s_id s) json m of
      Inl e \<Rightarrow> (Ready (Inl e), (revision_drop token (write_guard_drop g hc), m))
    | Inr m' \<Rightarrow> (Ready (Inr (s_cookie_value s)),
        (write_guard_drop (g\<lparr>wg_settled := True\<rparr>) (acknowledge token (mark_persisted s hc)), m')))"
    for token g hc
  obtain token hc g where a: "custom_store_session c undisturbed s (h, m) = outcome token g hc"
      "token = \<lparr>sr_data = s_data s, sr_revision = sd_revision (h_data h (s_data s))\<rparr>"
      "wg_state g = s_lifecycle s" "wg_uncertain_on_drop g = (origin \<noteq> Some (s_id s))" "\<not> wg_settled g"
      "h_data hc (s_data s) = capture_data (h_data h (s_data s))" "h_pid hc = h_pid h"
      "\<not> ws_uncertain (h_life hc (s_lifecycle s))"
    by (rule custom_quiet_save[OF alloc idle origin json, of m]) (rule that; (unfold outcome_def)?; assumption)
  obtain hb snap hd he g' where b: "persistence_attempt s h = (Inr origin, hb)" "\<not> is_destroyed s hb"
      "persistence_snapshot s hb = ((snap, token), hd)"
      "begin_backend_write s origin True hd = (Ready (Inr g'), he)"
    and g': "g' = \<lparr>wg_state = s_lifecycle s, wg_destroyed = s_destroy s, wg_receipt = None,
        wg_uncertain_on_drop = (origin \<noteq> Some (s_id s) \<and> True), wg_settled = False\<rparr>"
    and snap: "s_id snap = s_id s" "wire_of snap hd = wire_of s h"
    and he: "h_data he (s_data s) = capture_data (h_data h (s_data s))"
      "h_pid he (s_persisted_id s) = h_pid h (s_persisted_id s)" "\<not> h_destroy he (s_destroy s)"
      "\<not> ws_uncertain (h_life he (s_lifecycle s))"
  proof (rule save_begins[OF alloc idle origin, of True])
    fix ha snap token' hb hc g
    assume *: "persistence_attempt s h = (Inr origin, ha)" "\<not> is_destroyed s ha"
      "persistence_snapshot s ha = ((snap, token'), hb)" "begin_backend_write s origin True hb = (Ready (Inr g), hc)"
      "g = \<lparr>wg_state = s_lifecycle s, wg_destroyed = s_destroy s, wg_receipt = None,
        wg_uncertain_on_drop = (origin \<noteq> Some (s_id s) \<and> True), wg_settled = False\<rparr>"
      "snap = \<lparr>s_id = s_id s, s_expiry = s_expiry s, s_data = h_next h, s_cookie_value = None,
         s_metadata_changed = False, s_persisted_id = h_next h, s_rotation_from = None,
         s_fresh = False, s_creation_claimed = h_next h, s_lifecycle = h_next h, s_destroy = h_next h\<rparr>"
      "token' = \<lparr>sr_data = s_data s, sr_revision = sd_revision (h_data h (s_data s))\<rparr>"
      "h_data hb (h_next h) = session_data_of (sd_values (h_data h (s_data s)))" "h_data hc = h_data hb"
      "h_data hb (s_data s) = capture_data (h_data h (s_data s))"
      "h_pid hc (s_persisted_id s) = h_pid h (s_persisted_id s)" "\<not> h_destroy hc (s_destroy s)"
      "\<not> ws_uncertain (h_life hc (s_lifecycle s))"
    show thesis by (rule that[OF *(1,2) *(3)[unfolded *(7), folded a(2)] *(4,5)]) (simp_all add: * wire_of_def)
  qed
  have b2: "remote_store_session c True custom_put custom_remove undisturbed s (h, m) = outcome token g' he"
    using he(3)
    by (simp add: remote_store_session_def Let_def b snap json custom_put_def guard_finish_def outcome_def
        guard_is_destroyed_def g' acknowledge_revision_def into_cookie_value_def split: sum.splits)
  show ?thesis
  proof (cases "custom_write origin (s_id s) json m")
    case (Inl e)
    have "h_life (write_guard_drop g hc) (s_lifecycle s) = h_life (write_guard_drop g' he) (s_lifecycle s)"
      using a(3-5,8) he(4) by (intro write_state.equality) (simp_all add: g')
    then show ?thesis
      using that[unfolded a(1) b2] Inl a he by (simp add: outcome_def revision_drop_def)
  next
    case (Inr m')
    have "h_life (write_guard_drop (g\<lparr>wg_settled := True\<rparr>) (acknowledge token (mark_persisted s hc))) (s_lifecycle s) =
        h_life (write_guard_drop (g'\<lparr>wg_settled := True\<rparr>) (acknowledge token (mark_persisted s he))) (s_lifecycle s)"
      using a(3,8) he(4) by (intro write_state.equality) (simp_all add: g')
    with Inr show ?thesis
      using that[unfolded a(1) b2] a he
      by (simp add: outcome_def acknowledge_def mark_persisted_def Let_def)
  qed
qed

text \<open>
  C23: the public protocol is the one that the stores of the crate run. Undisturbed, a store
  written against \<open>SessionSave\<close> and the crate's own handler with the same requests return the
  same, leave the same records, and leave the session's data, its persisted identity and its
  lifecycle lock in the same state.
\<close>
theorem public_protocol_agrees:
  assumes "session_allocated h s" and "\<not> ws_locked (h_life h (s_lifecycle s))"
    and json: "wc_to_json c (wire_of s h) = Inr json"
    and custom: "custom_store_session c undisturbed s (h, m) = (res, (h1, m1))"
    and builtin: "remote_store_session c True custom_put custom_remove undisturbed s (h, m) = (res', (h2, m2))"
  shows "res = res' \<and> m1 = m2 \<and> h_data h1 (s_data s) = h_data h2 (s_data s) \<and>
    h_pid h1 (s_persisted_id s) = h_pid h2 (s_persisted_id s) \<and>
    h_life h1 (s_lifecycle s) = h_life h2 (s_lifecycle s)"
proof (cases "persistence_attempt s h")
  case (Pair ra ha)
  show ?thesis
  proof (cases ra)
    case (Inl e)
    then show ?thesis
      using custom builtin Pair
      by (auto simp: custom_store_session_def remote_store_session_def prepare_save_def)
  next
    case (Inr origin)
    note att = Pair[unfolded Inr]
    then have live: "\<not> is_destroyed s h" "persistence_origin s h = Inr origin"
      by (auto simp: persistence_attempt_def split: if_splits sum.splits)
    show ?thesis
    proof (cases "ws_uncertain (h_life h (s_lifecycle s))")
      case True
      show ?thesis
        by (rule uncertain_saves_agree[OF assms(1) json att assms(2) True, of m]) (use custom builtin in auto)
    next
      case False
      then have idle: "lineage_idle s h" using assms(2) live(1) by (simp add: lineage_idle_def)
      show ?thesis
        by (rule admitted_saves_agree[OF assms(1) json idle live(2), of m]) (use custom builtin in auto)
    qed
  qed
qed

theorem public_protocol_agrees_witness:
  "\<exists>h1 h2 m1. custom_store_session reference_codec undisturbed fresh_reference (fresh_heap, Map.empty) =
       (Ready (Inr None), (h1, m1)) \<and>
     remote_store_session reference_codec True custom_put custom_remove undisturbed fresh_reference
       (fresh_heap, Map.empty) = (Ready (Inr None), (h2, m1)) \<and> m1 reference_id \<noteq> None \<and>
     h_pid h1 (s_persisted_id fresh_reference) = h_pid h2 (s_persisted_id fresh_reference)"
proof -
  obtain json where json: "wc_to_json reference_codec (wire_of fresh_reference fresh_heap) = Inr json"
    using fresh_encodes by blast
  have free: "\<not> ws_locked (h_life fresh_heap (s_lifecycle fresh_reference))"
    using quiet_client_ready(3) by (simp add: lineage_idle_def)
  obtain h1 m1 where one: "custom_store_session reference_codec undisturbed fresh_reference (fresh_heap, Map.empty) =
      (Ready (Inr None), (h1, m1))" "m1 reference_id \<noteq> None"
    by (rule custom_quiet_save[OF quiet_client_ready(2-4) json, of Map.empty])
       (simp add: custom_write_def rotation_source_def fresh_reference_def fresh_session_def example_session_def)
  obtain res h2 m2 where two: "remote_store_session reference_codec True custom_put custom_remove undisturbed
      fresh_reference (fresh_heap, Map.empty) = (res, (h2, m2))"
    by (metis surj_pair)
  show ?thesis
    using public_protocol_agrees[OF quiet_client_ready(2) free json one(1) two] one two by auto
qed

subsection \<open>What was saved is what its cookie loads\<close>

interpretation custom_map: keyed_store "\<lambda>_ c. custom_store_session c undisturbed"
  "\<lambda>_ p c. custom_load_session p c" "\<lambda>_. custom_destroy_session undisturbed" "\<lambda>(_ :: unit) m. m"
  "\<lambda>_ _. True" "\<lambda>_ _. True"
proof (unfold_locales, goal_cases)
  case (1 sv m c h s origin json m' p cookie now)
  have written: "custom_write origin (s_id s) json m = Inr m'"
    using 1(8) by (auto simp: custom_write_def conditional_write_def rotation_source_def split: option.splits if_splits)
  obtain h1 where save: "custom_store_session c undisturbed s (h, m) = (Ready (Inr (s_cookie_value s)), (h1, m'))"
    by (rule custom_quiet_save[OF 1(3-6), of m]) (simp add: written)
  have "custom_lookup (s_id s) (h1, m') = (Inr (Some json), (h1, m'))"
    using conditional_write_records[OF 1(8)] by (simp add: custom_lookup_def)
  then show ?case
    using saved_text_loads[where lookup = custom_lookup, OF 1(2,6,9,10)] save
    unfolding custom_load_session_def by metis
next
  case (2 sv m i p cookie c now h)
  then show ?case by (simp add: custom_load_session_def remote_load_session_def custom_lookup_def)
next
  case (3 sv m s h)
  have "deletion_target s (upd_life (s_lifecycle s) (\<lambda>w. w\<lparr>ws_locked := True\<rparr>) (session_destroy s h)) = deletion_target s h"
    by (simp add: deletion_target_def persistence_origin_def session_destroy_def)
  then show ?case
    using 3 by (simp add: custom_destroy_session_def remote_destroy_session_def begin_delete_locked_def
        lifecycle_delete_def lineage_idle_def custom_remove_def session_destroy_def undisturbed_def Let_def)
qed

text \<open>
  In a store that follows the public protocol, undisturbed, a session that is created,
  loaded, edited, given a new identity and destroyed is found exactly under its current cookie
  with its current values, and the records are then what they were at the beginning.
\<close>
theorem custom_session_tour:
  assumes "codec_laws c" and "\<not> is_expired now s"
    and "tour_ready p c rng cookie key value ident s h m"
  shows "session_tour (custom_trait p c undisturbed now) p rng cookie key value s (h, m) =
    Some (tour_expected (generate_cookie p rng SERVER_COOKIE_BYTES) ident key value (wire_of s h), m)"
  using custom_map.session_tour_completes[where S = "custom_trait p c undisturbed now" and c = c and p = p and
      now = now and r = m] assms
  by (simp add: custom_trait_def)

theorem custom_session_tour_witness:
  "session_tour (custom_trait reference reference_codec undisturbed 0) reference (constant_rng 9) reference_cookie
     ''user'' ''1'' fresh_reference (fresh_heap, Map.empty) =
   Some (tour_expected (generate_cookie reference (constant_rng 9) SERVER_COOKIE_BYTES) next_id ''user'' ''1''
     (reference_id, None, Map.empty), Map.empty)"
proof -
  have wire: "wire_of fresh_reference fresh_heap = (reference_id, None, Map.empty)" "\<not> is_expired 0 fresh_reference"
    by (simp_all add: wire_of_def is_expired_def fresh_reference_def fresh_session_def example_session_def)
  show ?thesis
    using custom_session_tour[OF reference_codec_laws wire(2) tour_ready_reference] wire(1) by simp
qed

end
