(* ===== verification/Memory_Tour.thy ===== *)
theory Memory_Tour
  imports Store_Trait
begin

text \<open>
  The life of a session in the in-memory store: the client of \<open>Store_Trait\<close> on the store whose
  records are sessions rather than texts.
\<close>

lemma load_record_ready:
  assumes "id_from_cookie_value p cookie = Inr (s_id r)" "ms_records st (s_id r) = Some r"
    and "\<not> is_destroyed r h" "\<not> is_expired now1 r" "\<not> is_expired now2 r"
  obtains t h' where "ms_load_session p now1 now2 cookie (h, st) = (Inr (Some t), (h', st))"
    and "wire_of t h' = wire_of r h" and "session_allocated h' t" and "lineage_idle t h'"
    and "h_pid h' (s_persisted_id t) = Some (s_id r)"
  using assms
  by (auto simp: ms_load_session_def session_snapshot_def snapshot_values_def Let_def split_beta
      validate_loaded_def is_expired_def is_destroyed_def session_allocated_def wire_of_def lineage_idle_def)

lemma memory_save_then_load:
  assumes s: "session_allocated h s" "lineage_idle s h" "persistence_origin s h = Inr origin"
    and admitted: "conditional_write origin (s_id s) s (ms_records st) \<noteq> None"
    and cookie: "id_from_cookie_value p cookie = Inr (s_id s)"
    and live: "\<not> is_expired now1 s" "\<not> is_expired now2 s"
  obtains h1 st1 r t h2 where
      "ms_store_session undisturbed s (h, st) = (Ready (Inr (s_cookie_value s)), (h1, st1))"
    and "ms_load_session p now1 now2 cookie (h1, st1) = (Inr (Some t), (h2, st1))"
    and "wire_of t h2 = wire_of s h" and "session_allocated h2 t" and "lineage_idle t h2"
    and "h_pid h2 (s_persisted_id t) = Some (s_id s)"
    and "ms_records st1 (s_id s) = Some r"
    and "\<forall>i. i \<noteq> s_id s \<longrightarrow> ms_records st1 i = (if origin = Some i then None else ms_records st i)"
proof -
  obtain h1 st1 r where stored:
      "ms_store_session undisturbed s (h, st) = (Ready (Inr (s_cookie_value s)), (h1, st1))"
      "s_id r = s_id s" "s_expiry r = s_expiry s"
      "sd_values (h_data h1 (s_data r)) = sd_values (h_data h (s_data s))"
      "\<not> is_destroyed r h1" "ms_records st1 (s_id s) = Some r"
      "\<forall>i. i \<noteq> s_id s \<longrightarrow> ms_records st1 i = (if origin = Some i then None else ms_records st i)"
    using stored_undisturbed[OF s admitted] by (elim exE conjE) (rule that)
  have wire: "wire_of r h1 = wire_of s h"
    using stored(2-4) by (simp add: wire_of_def)
  have found: "id_from_cookie_value p cookie = Inr (s_id r)" "ms_records st1 (s_id r) = Some r"
      "\<not> is_expired now1 r" "\<not> is_expired now2 r"
    using cookie live stored(2,3,6) by (simp_all add: is_expired_def)
  show thesis
    by (rule load_record_ready[OF found(1,2) stored(5) found(3,4)])
       (rule that[OF stored(1) _ _ _ _ _ stored(6,7)], simp_all add: wire stored(2))
qed

lemma memory_destroy_removes:
  assumes "lineage_idle s h"
  obtains h' st' where "ms_destroy_session undisturbed s (h, st) = (Ready (Inr ()), (h', st'))"
    and "ms_records st' = (ms_records st)(deletion_target s h := None)"
proof -
  let ?h = "upd_life (s_lifecycle s) (\<lambda>w. w\<lparr>ws_locked := True\<rparr>) (session_destroy s h)"
  have "deletion_target s ?h = deletion_target s h"
    by (simp add: deletion_target_def persistence_origin_def session_destroy_def)
  with assms have "ms_destroy_session undisturbed s (h, st) = (Ready (Inr ()),
      (delete_guard_drop \<lparr>dg_state = s_lifecycle s, dg_id = deletion_target s h\<rparr> ?h,
       snd (state_remove (deletion_target s h) st)))"
    by (simp add: ms_destroy_session_def Let_def begin_delete_locked_def lifecycle_delete_def lineage_idle_def
        session_destroy_def)
  then show thesis by (rule that) simp
qed

lemma memory_absent_does_not_load:
  "id_from_cookie_value p cookie = Inr i \<Longrightarrow> ms_records st i = None \<Longrightarrow>
   ms_load_session p now1 now2 cookie (h, st) = (Inr None, (h, st))"
  by (simp add: ms_load_session_def)

text \<open>
  C16: in the undisturbed memory store a session that is created, loaded, edited, given a new
  identity and destroyed is found exactly under its current cookie with its current values:
  the old cookie loads nothing after the rotation, the new one loads nothing after the
  destruction, and the store then has the records it had at the beginning.
\<close>
theorem memory_session_tour:
  assumes "session_allocated h s" and "lineage_idle s h" and "persistence_origin s h = Inr None"
    and "id_from_cookie_value p cookie = Inr (s_id s)"
    and "id_from_cookie_value p (generate_cookie p rng SERVER_COOKIE_BYTES) = Inr ident"
    and "ms_records st (s_id s) = None" and "ms_records st ident = None" and "ident \<noteq> s_id s"
    and "\<not> is_expired now1 s" and "\<not> is_expired now2 s"
  shows "\<exists>st'. session_tour (memory_trait p undisturbed now1 now2) p rng cookie key value s (h, st) =
      Some (tour_expected (generate_cookie p rng SERVER_COOKIE_BYTES) ident key value (wire_of s h), st') \<and>
    ms_records st' = ms_records st"
proof -
  let ?cookie2 = "generate_cookie p rng SERVER_COOKIE_BYTES"
  have new: "conditional_write None (s_id s) s (ms_records st) \<noteq> None"
    using assms(6) by (simp add: conditional_write_def)
  obtain h1 st1 r1 t h2 where first:
      "ms_store_session undisturbed s (h, st) = (Ready (Inr (s_cookie_value s)), (h1, st1))"
      "ms_load_session p now1 now2 cookie (h1, st1) = (Inr (Some t), (h2, st1))"
    and t: "wire_of t h2 = wire_of s h" "session_allocated h2 t" "lineage_idle t h2"
      "h_pid h2 (s_persisted_id t) = Some (s_id s)"
    and st1: "ms_records st1 (s_id s) = Some r1" "\<forall>i. i \<noteq> s_id s \<longrightarrow> ms_records st1 i = ms_records st i"
    by (rule memory_save_then_load[OF assms(1-3) new assms(4,9,10)]) auto
  have fields: "s_id t = s_id s" "s_expiry t = s_expiry s" using t(1) by (simp_all add: wire_of_def)
  have pid: "h_pid h2 (s_persisted_id t) = Some (s_id t)" by (simp add: t(4) fields(1))
  define k where "k = insert_raw key value t h2"
  obtain t' where t': "regenerate p rng t k = Inr t'" "session_allocated k t'" "lineage_idle t' k"
      "persistence_origin t' k = Inr (Some (s_id s))" "s_id t' = ident" "s_cookie_value t' = Some ?cookie2"
      "s_expiry t' = s_expiry s" "wire_of t' k = (ident, s_expiry s, (sd_values (h_data h2 (s_data t)))(key \<mapsto> value))"
    using edited_and_rotated[OF t(2,3) pid assms(5), of key "value"] fields k_def by metis
  have rotated: "conditional_write (Some (s_id s)) (s_id t') t' (ms_records st1) \<noteq> None"
    using assms(7,8) st1 by (simp add: conditional_write_def t'(5))
  have live: "\<not> is_expired now1 t'" "\<not> is_expired now2 t'"
    using assms(9,10) t'(7) by (simp_all add: is_expired_def)
  have parse: "id_from_cookie_value p ?cookie2 = Inr (s_id t')"
    using assms(5) t'(5) by simp
  obtain h3 st3 r3 u h4 where second:
      "ms_store_session undisturbed t' (k, st1) = (Ready (Inr (Some ?cookie2)), (h3, st3))"
      "ms_load_session p now1 now2 ?cookie2 (h3, st3) = (Inr (Some u), (h4, st3))"
    and u: "wire_of u h4 = wire_of t' k" "lineage_idle u h4" "h_pid h4 (s_persisted_id u) = Some ident"
    and st3: "ms_records st3 ident = Some r3"
      "\<forall>i. i \<noteq> ident \<longrightarrow> ms_records st3 i = (if Some (s_id s) = Some i then None else ms_records st1 i)"
    by (rule memory_save_then_load[OF t'(2-4) rotated parse live]) (auto simp: t'(5,6))
  have target: "deletion_target u h4 = ident"
    using u(1,3) t'(8) by (simp add: deletion_target_def persistence_origin_def wire_of_def)
  obtain h5 st5 where gone: "ms_destroy_session undisturbed u (h4, st3) = (Ready (Inr ()), (h5, st5))"
      "ms_records st5 = (ms_records st3)(ident := None)"
    by (rule memory_destroy_removes[OF u(2)]) (simp add: target)
  have old: "ms_load_session p now1 now2 cookie (h3, st3) = (Inr None, (h3, st3))"
    by (rule memory_absent_does_not_load[OF assms(4)]) (use assms(8) st3(2) in simp)
  have after: "ms_load_session p now1 now2 ?cookie2 (h5, st5) = (Inr None, (h5, st5))"
    by (rule memory_absent_does_not_load[OF assms(5)]) (simp add: gone(2))
  have "ms_records st5 = ms_records st"
    using assms(6,7,8) st1(2) st3(2) by (auto simp: gone(2) fun_eq_iff)
  then show ?thesis
    using t(1) u(1) t'(8)
    by (simp add: session_tour_def memory_trait_def first t'(1) second old gone(1) after tour_expected_def
        del: cookie_lengths flip: k_def) (simp add: wire_of_def)
qed

theorem memory_session_tour_witness:
  "\<exists>st'. session_tour (memory_trait reference undisturbed 0 0) reference (constant_rng 9) reference_cookie
      ''user'' ''1'' fresh_reference (fresh_heap, memory_state_default) =
    Some (tour_expected (generate_cookie reference (constant_rng 9) SERVER_COOKIE_BYTES) next_id ''user'' ''1''
      (reference_id, None, Map.empty), st') \<and> ms_records st' = Map.empty"
proof -
  note r = tour_ready_reference[unfolded tour_ready_def]
  have live: "\<not> is_expired 0 fresh_reference" "ms_records memory_state_default = Map.empty"
      "wire_of fresh_reference fresh_heap = (reference_id, None, Map.empty)" "s_id fresh_reference = reference_id"
    by (simp_all add: is_expired_def wire_of_def fresh_reference_def fresh_session_def example_session_def
        memory_state_default_def)
  show ?thesis
    using memory_session_tour[of fresh_heap fresh_reference reference reference_cookie "constant_rng 9" next_id
        memory_state_default 0 0 "''user''" "''1''"] r live by simp
qed

end
