(* ===== verification/Sql_Schema.thy ===== *)
theory Sql_Schema
  imports Sql_Store
begin

text \<open>
  The schema of the SQL stores: the statements of \<open>migrate\<close>, the name of the expiry index
  and, for SQLite, the split of a possibly qualified and quoted table name. Names are
  UTF-8 strings; all delimiters are ASCII, so that scanning bytes is scanning characters.
\<close>

subsection \<open>Trimming\<close>

text \<open>The UTF-8 encodings of the characters with the property \<open>White_Space\<close>.\<close>

definition white_spaces :: "string list" where
  "white_spaces =
     [[CHR 0x09], [CHR 0x0A], [CHR 0x0B], [CHR 0x0C], [CHR 0x0D], [CHR 0x20],
      [CHR 0xC2, CHR 0x85], [CHR 0xC2, CHR 0xA0], [CHR 0xE1, CHR 0x9A, CHR 0x80],
      [CHR 0xE2, CHR 0x80, CHR 0x80], [CHR 0xE2, CHR 0x80, CHR 0x81], [CHR 0xE2, CHR 0x80, CHR 0x82],
      [CHR 0xE2, CHR 0x80, CHR 0x83], [CHR 0xE2, CHR 0x80, CHR 0x84], [CHR 0xE2, CHR 0x80, CHR 0x85],
      [CHR 0xE2, CHR 0x80, CHR 0x86], [CHR 0xE2, CHR 0x80, CHR 0x87], [CHR 0xE2, CHR 0x80, CHR 0x88],
      [CHR 0xE2, CHR 0x80, CHR 0x89], [CHR 0xE2, CHR 0x80, CHR 0x8A], [CHR 0xE2, CHR 0x80, CHR 0xA8],
      [CHR 0xE2, CHR 0x80, CHR 0xA9], [CHR 0xE2, CHR 0x80, CHR 0xAF], [CHR 0xE2, CHR 0x81, CHR 0x9F],
      [CHR 0xE3, CHR 0x80, CHR 0x80]]"

function strip_start :: "string list \<Rightarrow> string \<Rightarrow> string" where
  "strip_start ws s =
     (case find (\<lambda>w. w \<noteq> [] \<and> take (length w) s = w) ws of
        None \<Rightarrow> s
      | Some w \<Rightarrow> strip_start ws (drop (length w) s))"
  by pat_completeness auto
termination
proof (relation "measure (\<lambda>(ws, s). length s)")
  fix ws s w
  assume "find (\<lambda>w. w \<noteq> [] \<and> take (length w) s = w) ws = Some w"
  then have w: "w \<noteq> []" "take (length w) s = w"
    by (auto simp: find_Some_iff)
  then have "s \<noteq> []" by auto
  then show "((ws, drop (length w) s), (ws, s)) \<in> measure (\<lambda>(ws, s). length s)"
    using w(1) by (cases s; cases w) auto
qed simp

declare strip_start.simps [simp del]

text \<open>\<open>str::trim\<close>\<close>

definition str_trim :: "string \<Rightarrow> string" where
  "str_trim s = rev (strip_start (map rev white_spaces) (rev (strip_start white_spaces s)))"

subsection \<open>The target of the SQLite index\<close>

text \<open>
  The loop over the characters: the delimiter of the quotation it is in, what it has passed,
  and what is left; a dot outside quotations ends it.
\<close>

fun split_schema :: "char option \<Rightarrow> string \<Rightarrow> string \<Rightarrow> (string \<times> string) option" where
  "split_schema quote pre [] = None"
| "split_schema (Some delimiter) pre (ch # rest) =
     (if ch = delimiter then
        (if delimiter \<noteq> CHR '']'' \<and> (case rest of [] \<Rightarrow> False | c # _ \<Rightarrow> c = delimiter)
         then split_schema (Some delimiter) (pre @ [ch, delimiter]) (tl rest)
         else split_schema None (pre @ [ch]) rest)
      else split_schema (Some delimiter) (pre @ [ch]) rest)"
| "split_schema None pre (ch # rest) =
     (if ch = CHR 0x22 \<or> ch = CHR 0x27 \<or> ch = CHR 0x60 then split_schema (Some ch) (pre @ [ch]) rest
      else if ch = CHR ''['' then split_schema (Some (CHR '']'')) (pre @ [ch]) rest
      else if ch = CHR ''.'' then Some (pre, rest)
      else split_schema None (pre @ [ch]) rest)"

definition index_target :: "primitives \<Rightarrow> string \<Rightarrow> string \<times> string" where
  "index_target p table =
     (let index = expiry_index_name p table in
      case split_schema None [] table of
        None \<Rightarrow> (index, table)
      | Some (schema, name) \<Rightarrow> (str_trim schema @ ''.'' @ index, str_trim name))"

subsection \<open>Migrations\<close>

definition pg_create_table :: "string \<Rightarrow> string" where
  "pg_create_table table = ''CREATE TABLE IF NOT EXISTS '' @ table @
     '' (id TEXT PRIMARY KEY NOT NULL, expires BIGINT NULL, session TEXT NOT NULL)''"

definition sqlite_create_table :: "string \<Rightarrow> string" where
  "sqlite_create_table table = ''CREATE TABLE IF NOT EXISTS '' @ table @
     '' (id TEXT PRIMARY KEY NOT NULL, expires INTEGER NULL, session TEXT NOT NULL)''"

definition mysql_create_table :: "string \<Rightarrow> string" where
  "mysql_create_table table = ''CREATE TABLE IF NOT EXISTS '' @ table @
     '' (id VARCHAR(128) PRIMARY KEY NOT NULL, expires BIGINT NULL, session TEXT NOT NULL)''"

definition partial_index_text :: "string \<Rightarrow> string \<Rightarrow> string" where
  "partial_index_text index table = ''CREATE INDEX IF NOT EXISTS '' @ index @ '' ON '' @ table @
     '' (expires, id) WHERE expires IS NOT NULL''"

definition pg_migrate ::
  "primitives \<Rightarrow> ('r, 't) sql_store \<Rightarrow> 'r remote interleaving \<Rightarrow> network \<Rightarrow> 'r remote \<Rightarrow>
   (error + unit) \<times> 'r remote" where
  "pg_migrate p st ij net w =
     (case sql_run st ij net 0 (pg_create_table (sq_table st)) w of
        (Inl e, w1) \<Rightarrow> (Inl e, w1)
      | (Inr _, w1) \<Rightarrow>
          sql_run st ij net 1 (partial_index_text (expiry_index_name p (sq_table st)) (sq_table st)) w1)"

definition sqlite_migrate ::
  "primitives \<Rightarrow> ('r, 't) sql_store \<Rightarrow> 'r remote interleaving \<Rightarrow> network \<Rightarrow> 'r remote \<Rightarrow>
   (error + unit) \<times> 'r remote" where
  "sqlite_migrate p st ij net w =
     (case sql_run st ij net 0 (sqlite_create_table (sq_table st)) w of
        (Inl e, w1) \<Rightarrow> (Inl e, w1)
      | (Inr _, w1) \<Rightarrow>
          (let (index, table) = index_target p (sq_table st) in
           sql_run st ij net 1 (partial_index_text index table) w1))"

text \<open>MySQL: an index that exists already is error 1061 of the server, and is no failure.\<close>

definition mysql_migrate ::
  "primitives \<Rightarrow> ('r, 't) sql_store \<Rightarrow> 'r remote interleaving \<Rightarrow> network \<Rightarrow> 'r remote \<Rightarrow>
   (error + unit) \<times> 'r remote" where
  "mysql_migrate p st ij net w =
     (case sql_run st ij net 0 (mysql_create_table (sq_table st)) w of
        (Inl e, w1) \<Rightarrow> (Inl e, w1)
      | (Inr _, w1) \<Rightarrow>
          (case sql_request st ij net 1
                  (''CREATE INDEX '' @ expiry_index_name p (sq_table st) @ '' ON '' @ sq_table st @
                   '' (expires, id)'') [] w1 of
             (Inl (Database unique number), w2) \<Rightarrow>
               if number \<noteq> 1061 then (Inl BackendFailure, w2) else (Inr (), w2)
           | (Inl Unavailable, w2) \<Rightarrow> (Inl BackendFailure, w2)
           | (Inr _, w2) \<Rightarrow> (Inr (), w2)))"

subsection \<open>Index names\<close>

lemma to_hex_length: "length (to_hex bytes) = 2 * length bytes"
  by (induction bytes) (simp_all add: to_hex_def)

lemma to_hex_chars: "set (to_hex bytes) \<subseteq> set hex_digits"
proof -
  have digit: "hex_digit n \<in> set hex_digits" if "n < 16" for n
    using that unfolding hex_digit_def by (intro nth_mem) (simp add: hex_digits_def)
  have "unat b div 16 < 16" for b :: byte
    using unsigned_less[of b, where ?'a = nat] by (simp add: less_mult_imp_div_less)
  then show ?thesis by (auto simp: to_hex_def intro: digit)
qed

text \<open>The name is 31 characters of a fixed alphabet, whatever the table is called.\<close>

lemma expiry_index_name_safe:
  assumes "length (p_blake3 p (map byte_of_char table)) = 32"
  shows "length (expiry_index_name p table) = 31"
    "set (expiry_index_name p table) \<subseteq> set ''saysion_expiry_'' \<union> set hex_digits"
proof -
  show "length (expiry_index_name p table) = 31"
    by (simp add: expiry_index_name_def Let_def to_hex_length assms)
  have "set (take 16 (to_hex (p_blake3 p (map byte_of_char table)))) \<subseteq> set hex_digits"
    by (rule order_trans[OF set_take_subset to_hex_chars])
  then show "set (expiry_index_name p table) \<subseteq> set ''saysion_expiry_'' \<union> set hex_digits"
    unfolding expiry_index_name_def Let_def set_append by blast
qed

subsection \<open>Qualified names\<close>

text \<open>A quoted identifier: the delimiter is doubled inside.\<close>

fun double_quote :: "char \<Rightarrow> string \<Rightarrow> string" where
  "double_quote q [] = []"
| "double_quote q (ch # cs) = (if ch = q then ch # ch # double_quote q cs else ch # double_quote q cs)"

definition quoted :: "char \<Rightarrow> string \<Rightarrow> string" where
  "quoted q s = q # double_quote q s @ [q]"

lemma split_schema_quoted:
  assumes "q \<noteq> CHR '']''" and "rest = [] \<or> hd rest \<noteq> q"
  shows "split_schema (Some q) pre (double_quote q s @ q # rest) =
    split_schema None (pre @ double_quote q s @ [q]) rest"
proof (induction s arbitrary: pre)
  case Nil
  then show ?case using assms by (cases rest) auto
next
  case (Cons ch s)
  then show ?case using assms(1) by simp
qed

lemma split_schema_plain:
  assumes "set s \<inter> {CHR 0x22, CHR 0x27, CHR 0x60, CHR ''['', CHR ''.''} = {}"
  shows "split_schema None pre (s @ rest) = split_schema None (pre @ s) rest"
  using assms by (induction s arbitrary: pre) auto

lemma find_None_hd:
  assumes "\<forall>w \<in> set ws. hd w \<noteq> ch"
  shows "find (\<lambda>w. w \<noteq> [] \<and> take (length w) (ch # s) = w) ws = None"
  using assms by (auto simp: find_None_iff neq_Nil_conv)

lemma find_untrimmed:
  assumes "t \<noteq> []" and "\<forall>w \<in> set ws. hd w \<noteq> hd t"
  shows "strip_start ws t = t"
proof -
  obtain ch s where t: "t = ch # s" using assms(1) by (cases t) auto
  then have "find (\<lambda>w. w \<noteq> [] \<and> take (length w) t = w) ws = None"
    using find_None_hd[of ws ch s] assms(2) by simp
  then show ?thesis by (subst strip_start.simps) simp
qed

text \<open>Text that neither begins nor ends with a byte of a white space is not trimmed.\<close>

lemma trim_ends:
  assumes "t \<noteq> []" and "hd t \<notin> set (map hd white_spaces)" and "last t \<notin> set (map last white_spaces)"
  shows "str_trim t = t"
proof -
  have "[] \<notin> set white_spaces" by (simp add: white_spaces_def)
  then have last: "hd (rev w) = last w" if "w \<in> set white_spaces" for w
    using that by (metis hd_rev)
  have "strip_start white_spaces t = t"
    using assms(1,2) by (intro find_untrimmed) (metis imageI list.set_map)+
  moreover have "\<forall>w \<in> set white_spaces. last w \<noteq> last t"
    using assms(3) by (metis imageI list.set_map)
  then have "strip_start (map rev white_spaces) (rev t) = rev t"
    using assms(1) last by (intro find_untrimmed) (auto simp: hd_rev)
  ultimately show ?thesis by (simp add: str_trim_def)
qed

text \<open>
  The identifiers of SQLite: plain ones, ones in symmetric delimiters, which are doubled
  inside, and ones in brackets, which have no closing bracket inside.
\<close>

datatype sql_name = Plain string | Quoted char string | Bracketed string

fun name_text :: "sql_name \<Rightarrow> string" where
  "name_text (Plain s) = s"
| "name_text (Quoted q s) = quoted q s"
| "name_text (Bracketed s) = CHR ''['' # s @ [CHR '']'']"

fun name_ok :: "sql_name \<Rightarrow> bool" where
  "name_ok (Plain s) \<longleftrightarrow>
     set s \<inter> {CHR 0x22, CHR 0x27, CHR 0x60, CHR ''['', CHR ''.''} = {} \<and> str_trim s = s"
| "name_ok (Quoted q s) \<longleftrightarrow> q \<in> {CHR 0x22, CHR 0x27, CHR 0x60}"
| "name_ok (Bracketed s) \<longleftrightarrow> CHR '']'' \<notin> set s"

lemma split_schema_bracketed:
  "CHR '']'' \<notin> set s \<Longrightarrow>
   split_schema (Some (CHR '']'')) pre (s @ CHR '']'' # rest) = split_schema None (pre @ s @ [CHR '']'']) rest"
  by (induction s arbitrary: pre) auto

lemma split_schema_name:
  assumes "name_ok n" and "rest = [] \<or> hd rest = CHR ''.''"
  shows "split_schema None [] (name_text n @ rest) = split_schema None (name_text n) rest"
proof (cases n)
  case (Plain s)
  then show ?thesis using assms(1) split_schema_plain[of s "[]" rest] by simp
next
  case (Quoted q s)
  then have "q \<in> {CHR 0x22, CHR 0x27, CHR 0x60}" using assms(1) by simp
  moreover then have "rest = [] \<or> hd rest \<noteq> q" using assms(2) by auto
  ultimately show ?thesis
    using split_schema_quoted[of q rest "[q]" s] Quoted by (auto simp: quoted_def)
next
  case (Bracketed s)
  then show ?thesis
    using assms(1) split_schema_bracketed[of s "[CHR ''['']" rest] by simp
qed

lemma trim_name: "name_ok n \<Longrightarrow> str_trim (name_text n) = name_text n"
proof (cases n)
  case (Quoted q s)
  assume "name_ok n"
  then show ?thesis
    unfolding Quoted by (intro trim_ends) (auto simp: quoted_def white_spaces_def)
next
  case (Bracketed s)
  then show ?thesis by (auto intro!: trim_ends simp: white_spaces_def)
qed simp

text \<open>
  C40: SQLite qualifies the index and not the table. For a schema and a table that are
  identifiers of any of the forms the splitter knows (in one of the three symmetric
  delimiters, whatever characters they contain, dots and doubled delimiters included; in
  brackets, with dots inside; or plain), the index is created in that schema on that table,
  under a name of 31 characters; an unqualified name is kept.
\<close>
theorem sqlite_index_target_quoted:
  assumes "length (p_blake3 p (map byte_of_char (name_text schema @ ''.'' @ name_text name))) = 32"
    and "name_ok schema" and "name_ok name"
  shows "(\<exists>index. length index = 31 \<and>
      index_target p (name_text schema @ ''.'' @ name_text name) =
        (name_text schema @ ''.'' @ index, name_text name)) \<and>
    index_target p (name_text schema) = (expiry_index_name p (name_text schema), name_text schema)"
proof -
  have "split_schema None [] (name_text schema @ ''.'' @ name_text name) =
      Some (name_text schema, name_text name)"
    using split_schema_name[OF assms(2), of "''.'' @ name_text name"] by simp
  then have "\<exists>index. length index = 31 \<and>
      index_target p (name_text schema @ ''.'' @ name_text name) =
        (name_text schema @ ''.'' @ index, name_text name)"
    using expiry_index_name_safe(1)[OF assms(1)] trim_name[OF assms(2)] trim_name[OF assms(3)]
    by (auto simp: index_target_def Let_def)
  moreover have "index_target p (name_text schema) = (expiry_index_name p (name_text schema), name_text schema)"
    using split_schema_name[OF assms(2), of "[]"] by (simp add: index_target_def Let_def)
  ultimately show ?thesis by blast
qed

text \<open>The tables of \<open>tests/sql_cleanup.rs\<close>: plain, quoted and bracketed.\<close>

theorem sqlite_index_target_quoted_witness:
  "(\<exists>index. index_target (reference\<lparr>p_blake3 := \<lambda>bs. replicate 32 7\<rparr>)
        (''aux'' @ ''.'' @ ''sessions'') =
      (''aux'' @ ''.'' @ index, ''sessions'')) \<and>
   (\<exists>index. index_target (reference\<lparr>p_blake3 := \<lambda>bs. replicate 32 7\<rparr>)
        (quoted (CHR 0x22) ''aux.db'' @ ''.'' @ quoted (CHR 0x22) ''quoted.table'') =
      (quoted (CHR 0x22) ''aux.db'' @ ''.'' @ index, quoted (CHR 0x22) ''quoted.table'')) \<and>
   (\<exists>index. index_target (reference\<lparr>p_blake3 := \<lambda>bs. replicate 32 7\<rparr>)
        (''[aux.db]'' @ ''.'' @ ''[bracket.table]'') =
      (''[aux.db]'' @ ''.'' @ index, ''[bracket.table]''))"
proof -
  have plain: "str_trim ''aux'' = ''aux''" "str_trim ''sessions'' = ''sessions''"
    by (simp_all add: trim_ends white_spaces_def)
  have target: "\<exists>index. index_target (reference\<lparr>p_blake3 := \<lambda>bs. replicate 32 7\<rparr>)
       (name_text schema @ ''.'' @ name_text name) = (name_text schema @ ''.'' @ index, name_text name)"
    if "name_ok schema" "name_ok name" for schema name
    using sqlite_index_target_quoted[OF _ that, of "reference\<lparr>p_blake3 := \<lambda>bs. replicate 32 7\<rparr>"] by auto
  show ?thesis
    using target[of "Plain ''aux''" "Plain ''sessions''"]
      target[of "Quoted (CHR 0x22) ''aux.db''" "Quoted (CHR 0x22) ''quoted.table''"]
      target[of "Bracketed ''aux.db''" "Bracketed ''bracket.table''"] plain
    by simp
qed

end
