(* ===== verification/Diagnostics.thy ===== *)
theory Diagnostics
  imports Cookie_Facts Redis_Store Mongo_Store Session_Save
begin

text \<open>
  The \<open>Debug\<close> and \<open>Display\<close> implementations of the crate, which are written by hand so that
  identities, cookies, values and keys do not get into logs. What the library's formatter
  prints for the fields of other types is an argument.
\<close>

subsection \<open>\<open>std::fmt::DebugStruct\<close>\<close>

datatype debug_value =
    Formatted string
  | DebugStruct string "(string \<times> debug_value) list" bool

fun join :: "string \<Rightarrow> string list \<Rightarrow> string" where
  "join sep [] = []"
| "join sep [x] = x"
| "join sep (x # xs) = x @ sep @ join sep xs"

text \<open>The compact format \<open>{:?}\<close>. \<open>finish_non_exhaustive\<close> sets the flag of a structure.\<close>

fun render :: "debug_value \<Rightarrow> string" where
  "render (Formatted text) = text"
| "render (DebugStruct name fs non_exhaustive) =
     (if fs = [] then name @ (if non_exhaustive then '' { .. }'' else [])
      else name @ '' { '' @ join '', '' (map (\<lambda>(k, v). k @ '': '' @ render v) fs) @
        (if non_exhaustive then '', .. }'' else '' }''))"

fun show_nat :: "nat \<Rightarrow> string" where
  "show_nat n =
     (if n < 10 then [''0123456789'' ! n] else show_nat (n div 10) @ [''0123456789'' ! (n mod 10)])"

declare show_nat.simps [simp del]

definition show_bool :: "bool \<Rightarrow> string" where
  "show_bool b = (if b then ''true'' else ''false'')"

definition show_option :: "('a \<Rightarrow> string) \<Rightarrow> 'a option \<Rightarrow> string" where
  "show_option f x = (case x of None \<Rightarrow> ''None'' | Some y \<Rightarrow> ''Some('' @ f y @ '')'')"

subsection \<open>The implementations\<close>

text \<open>\<open>show_date\<close> and \<open>quoted\<close> are \<open>Debug\<close> of \<open>OffsetDateTime\<close> and of \<open>String\<close>.\<close>

definition session_debug :: "(datetime \<Rightarrow> string) \<Rightarrow> session \<Rightarrow> heap \<Rightarrow> debug_value" where
  "session_debug show_date s h =
     DebugStruct ''Session''
       [(''expiry'', Formatted (show_option show_date (s_expiry s))),
        (''destroyed'', Formatted (show_bool (is_destroyed s h)))] True"

definition save_revision_debug :: "save_revision \<Rightarrow> debug_value" where
  "save_revision_debug token = DebugStruct ''SaveRevision'' [] True"

definition snapshot_debug :: "(datetime \<Rightarrow> string) \<Rightarrow> snapshot \<Rightarrow> debug_value" where
  "snapshot_debug show_date sn =
     DebugStruct ''SessionSnapshot'' [(''expiry'', Formatted (show_option show_date (sn_expiry sn)))] True"

definition session_save_debug :: "(datetime \<Rightarrow> string) \<Rightarrow> session_save \<Rightarrow> debug_value" where
  "session_save_debug show_date sv =
     DebugStruct ''SessionSave'' [(''session'', snapshot_debug show_date (sv_snapshot sv))] True"

definition write_guard_debug :: "write_guard \<Rightarrow> debug_value" where
  "write_guard_debug g = DebugStruct ''SessionWriteGuard'' [] True"

definition delete_guard_debug :: "delete_guard \<Rightarrow> debug_value" where
  "delete_guard_debug g = DebugStruct ''SessionDeleteGuard'' [] True"

definition memory_store_debug :: "memory_state \<Rightarrow> debug_value" where
  "memory_store_debug st = DebugStruct ''MemoryStore'' [] True"

definition signed_store_debug :: "signed_store \<Rightarrow> debug_value" where
  "signed_store_debug st =
     DebugStruct ''SignedCookieStore''
       [(''fallback_key_count'', Formatted (show_nat (length (ss_fallback_keys st))))] True"

definition redis_store_debug :: "(string \<Rightarrow> string) \<Rightarrow> 'r redis_store \<Rightarrow> debug_value" where
  "redis_store_debug quoted st = DebugStruct ''RedisStore'' [(''prefix'', Formatted (quoted (rs_prefix st)))] False"

definition mongo_store_debug :: "(string \<Rightarrow> string) \<Rightarrow> 'r mongo_store \<Rightarrow> debug_value" where
  "mongo_store_debug quoted st =
     DebugStruct ''MongoDbStore''
       [(''db'', Formatted (quoted (mg_db st))), (''coll_name'', Formatted (quoted (mg_coll_name st)))] True"

text \<open>\<open>Display for SessionConflict\<close>\<close>

definition session_conflict_display :: string where
  "session_conflict_display = ''session was removed or concurrently replaced''"

subsection \<open>What they do not depend on\<close>

text \<open>
  Two worlds in which the handles have the same expiry and destruction state, and the stores the
  same number of fallback keys and the same names, cannot be told apart by any of the outputs:
  identities, cookies, values, keys, clients, revisions and guards do not influence them.
\<close>

lemma diagnostics_independent:
  assumes "s_expiry s = s_expiry s'" and "is_destroyed s h = is_destroyed s' h'"
    and "sn_expiry (sv_snapshot sv) = sn_expiry (sv_snapshot sv')"
    and "length (ss_fallback_keys st) = length (ss_fallback_keys st')"
    and "rs_prefix r = rs_prefix r'" and "mg_db m = mg_db m'" and "mg_coll_name m = mg_coll_name m'"
  shows "session_debug d s h = session_debug d s' h'" "session_save_debug d sv = session_save_debug d sv'"
    "snapshot_debug d (sv_snapshot sv) = snapshot_debug d (sv_snapshot sv')"
    "signed_store_debug st = signed_store_debug st'" "redis_store_debug q r = redis_store_debug q r'"
    "mongo_store_debug q m = mongo_store_debug q m'" "memory_store_debug ms = memory_store_debug ms'"
    "save_revision_debug t = save_revision_debug t'" "write_guard_debug wg = write_guard_debug wg'"
    "delete_guard_debug dg = delete_guard_debug dg'"
  using assms
  by (simp_all add: session_debug_def session_save_debug_def snapshot_debug_def signed_store_debug_def
      redis_store_debug_def mongo_store_debug_def memory_store_debug_def save_revision_debug_def
      write_guard_debug_def delete_guard_debug_def)

text \<open>What a session prints.\<close>

lemma session_debug_text:
  "render (session_debug d s h) = ''Session { expiry: '' @ show_option d (s_expiry s) @
     '', destroyed: '' @ show_bool (is_destroyed s h) @ '', .. }''"
  by (simp add: session_debug_def)

end
