(* ===== verification/Test_Bench.thy ===== *)
theory Test_Bench
  imports Memory_Tour "HOL-Library.Monad_Syntax"
begin

text \<open>
  The setting in which the unit tests of the crate are replayed on the model. A test is an
  option: \<open>Some ()\<close> if it passes, \<open>None\<close> as soon as an assertion fails, an \<open>unwrap\<close> panics or
  \<open>?\<close> returns an error. The tests that follow are proved to pass by evaluation, for every
  source of random bytes whose identities differ and every codec that is lawful for the values
  of the test: where a definition of the development departed from the code that the crate's
  own tests exercise, one of them would fail here.
\<close>

subsection \<open>Assertions\<close>

definition assert_that :: "bool \<Rightarrow> unit option" where
  "assert_that b = (if b then Some () else None)"

definition unwrapped :: "('e + 'a) \<times> 'w \<Rightarrow> ('a \<times> 'w) option" where
  "unwrapped rw = (case fst rw of Inl _ \<Rightarrow> None | Inr x \<Rightarrow> Some (x, snd rw))"

definition unwrapped_some :: "('e + 'a option) \<times> 'w \<Rightarrow> ('a \<times> 'w) option" where
  "unwrapped_some rw = (case fst rw of Inr (Some x) \<Rightarrow> Some (x, snd rw) | _ \<Rightarrow> None)"

definition awaited :: "('e + 'a) poll \<times> 'w \<Rightarrow> ('a \<times> 'w) option" where
  "awaited rw = (case fst rw of Ready (Inr x) \<Rightarrow> Some (x, snd rw) | _ \<Rightarrow> None)"

definition awaited_some :: "('e + 'a option) poll \<times> 'w \<Rightarrow> ('a \<times> 'w) option" where
  "awaited_some rw = (case fst rw of Ready (Inr (Some x)) \<Rightarrow> Some (x, snd rw) | _ \<Rightarrow> None)"

definition ok :: "'e + 'a \<Rightarrow> 'a option" where
  "ok r = (case r of Inl _ \<Rightarrow> None | Inr x \<Rightarrow> Some x)"

text \<open>\<open>is_err()\<close>\<close>

definition refused :: "('e + 'a) \<times> 'w \<Rightarrow> bool" where
  "refused rw = (case fst rw of Inl _ \<Rightarrow> True | Inr _ \<Rightarrow> False)"

lemma test_monad_simps [simp]:
  "assert_that b = Some () \<longleftrightarrow> b"
  "assert_that True = Some ()"
  "unwrapped (Inr x, w) = Some (x, w)"
  "unwrapped_some (Inr (Some x), w) = Some (x, w)"
  "awaited (Ready (Inr x), w) = Some (x, w)"
  "awaited_some (Ready (Inr (Some x)), w) = Some (x, w)"
  "ok (Inr x) = Some x"
  "refused (Inl e, w)" "\<not> refused (Inr x, w)"
  by (simp_all add: assert_that_def unwrapped_def unwrapped_some_def awaited_def awaited_some_def refused_def ok_def)

subsection \<open>The bench\<close>

text \<open>
  \<open>tb_rng k\<close> fills the cookie of the k-th session of a test; \<open>tb_to_json\<close> and \<open>tb_from_json\<close>
  serialize the values that the test keeps in its sessions.
\<close>

record 'v bench =
  tb_primitives :: primitives
  tb_rng :: "nat \<Rightarrow> nat \<Rightarrow> byte list"
  tb_to_json :: "'v \<Rightarrow> error + string"
  tb_from_json :: "string \<Rightarrow> 'v option"

definition tb_cookie :: "'v bench \<Rightarrow> nat \<Rightarrow> string" where
  "tb_cookie B k = generate_cookie (tb_primitives B) (tb_rng B k) SERVER_COOKIE_BYTES"

definition tb_ident :: "'v bench \<Rightarrow> nat \<Rightarrow> string" where
  "tb_ident B k = p_encode (tb_primitives B) (p_blake3 (tb_primitives B) (tb_rng B k 64))"

text \<open>The laws of a bench for at most \<open>n\<close> sessions.\<close>

definition bench_laws :: "nat \<Rightarrow> 'v bench \<Rightarrow> bool" where
  "bench_laws n B \<longleftrightarrow> base64_laws (tb_primitives B) \<and>
     (\<forall>k < n. length (tb_rng B k 64) = 64) \<and>
     (\<forall>j < n. \<forall>k < n. j \<noteq> k \<longrightarrow> tb_ident B j \<noteq> tb_ident B k) \<and>
     (\<forall>v. \<exists>t. tb_to_json B v = Inr t \<and> tb_from_json B t = Some v)"

definition new_session :: "'v bench \<Rightarrow> nat \<Rightarrow> heap \<Rightarrow> (session \<times> heap) option" where
  "new_session B k h = unwrapped (session_new (tb_primitives B) (tb_rng B k) h)"

lemma bench_parses:
  "bench_laws n B \<Longrightarrow> k < n \<Longrightarrow>
   id_from_cookie_value (tb_primitives B) (tb_cookie B k) = Inr (tb_ident B k)"
  using base64_engine.generated_cookie_parses[of "tb_primitives B" "tb_rng B k"]
  by (simp add: bench_laws_def base64_laws_engine tb_cookie_def tb_ident_def)

lemma bench_idents: "bench_laws n B \<Longrightarrow> j < n \<Longrightarrow> k < n \<Longrightarrow> tb_ident B j = tb_ident B k \<longleftrightarrow> j = k"
  by (auto simp: bench_laws_def)

lemma bench_json:
  assumes "bench_laws n B"
  obtains t where "tb_to_json B v = Inr t" and "tb_from_json B t = Some v"
  using assms that unfolding bench_laws_def by blast

lemma new_session_eq:
  assumes "bench_laws n B" and "k < n"
  shows "new_session B k h = Some
    (\<lparr>s_id = tb_ident B k, s_expiry = None, s_data = h_next h, s_cookie_value = Some (tb_cookie B k),
      s_metadata_changed = False, s_persisted_id = h_next h, s_rotation_from = None,
      s_fresh = True, s_creation_claimed = h_next h, s_lifecycle = h_next h, s_destroy = h_next h\<rparr>,
     snd (alloc_family (session_data_of Map.empty) None False h))"
  using bench_parses[OF assms]
  by (simp add: new_session_def session_new_def tb_cookie_def[symmetric] Let_def split_beta del: cookie_lengths)

definition regenerated :: "'v bench \<Rightarrow> nat \<Rightarrow> session \<Rightarrow> heap \<Rightarrow> session option" where
  "regenerated B k s h = ok (regenerate (tb_primitives B) (tb_rng B k) s h)"

lemma regenerated_eq:
  assumes "bench_laws n B" and "k < n"
  shows "regenerated B k s h = Some
    ((if h_pid h (s_persisted_id s) = Some (s_id s) \<or> s_rotation_from s = h_pid h (s_persisted_id s)
      then s\<lparr>s_rotation_from := h_pid h (s_persisted_id s)\<rparr> else s)
     \<lparr>s_id := tb_ident B k, s_cookie_value := Some (tb_cookie B k), s_metadata_changed := True\<rparr>)"
  using bench_parses[OF assms]
  by (simp add: regenerated_def regenerate_def tb_cookie_def[symmetric] Let_def del: cookie_lengths)

text \<open>A heap without sessions, and the rules that evaluate a test.\<close>

lemma heap_empty_sel [simp]:
  "h_data heap_empty n = session_data_of Map.empty" "h_pid heap_empty n = None" "\<not> h_claimed heap_empty n"
  "\<not> h_destroy heap_empty n" "h_life heap_empty n = write_state_default" "h_next heap_empty = 0"
  by (simp_all add: heap_empty_def)

lemmas session_runs = Let_def split_beta persistence_attempt_def persistence_origin_def is_destroyed_def
  persistence_snapshot_def snapshot_values_def capture_def begin_backend_write_def begin_guarded_write_def
  lifecycle_write_def mark_loaded_def mark_persisted_def acknowledge_revision_def acknowledge_def
  into_cookie_value_def session_insert_def insert_raw_def insert_raw_data_def session_snapshot_def
  validate_loaded_def session_get_def is_expired_def guard_is_destroyed_def data_changed_def data_dirty_def
  capture_data_def acknowledge_data_def drop_data_def reset_data_changed_def reset_data_def get_raw_def
  session_clone_def

lemmas store_runs = session_runs ms_store_session_def ms_commit_def ms_load_session_def memory_state_default_def

end
