(* ===== verification/Session_Tests.thy ===== *)
theory Session_Tests
  imports Test_Bench
begin

text \<open>
  The unit tests of \<open>src/session.rs\<close>, by their names there.
\<close>

subsection \<open>Reads\<close>

text \<open>\<open>as_u64\<close> and \<open>as_json\<close> read a text at the types of the failing reads.\<close>

definition ordinary_and_failed_reads_preserve_values_and_change_tracking ::
  "'v bench \<Rightarrow> (string \<Rightarrow> nat option) \<Rightarrow> (string \<Rightarrow> 'j option) \<Rightarrow> 'v \<Rightarrow> unit option" where
  "ordinary_and_failed_reads_preserve_values_and_change_tracking B as_u64 as_json numbers =
     do {
       (s, h) \<leftarrow> new_session B 0 heap_empty;
       (_, h) \<leftarrow> unwrapped (session_insert (tb_to_json B) ''numbers'' numbers s h);
       let h = insert_raw ''malformed'' ''{'' s h;
       let (s, h) = reset_data_changed s h;
       _ \<leftarrow> assert_that (session_get (tb_from_json B) ''numbers'' s h = Some numbers);
       _ \<leftarrow> assert_that (session_get as_u64 ''numbers'' s h = None);
       _ \<leftarrow> assert_that (session_get as_json ''malformed'' s h = None);
       _ \<leftarrow> assert_that (session_get as_u64 ''missing'' s h = None);
       _ \<leftarrow> assert_that (get_raw ''numbers'' s h = Some ''[1,2,3]'');
       _ \<leftarrow> assert_that (get_raw ''malformed'' s h = Some ''{'');
       assert_that (\<not> data_changed s h)
     }"

lemma ordinary_reads_pass:
  assumes "bench_laws 8 B" and "tb_to_json B numbers = Inr ''[1,2,3]''" and "as_u64 ''[1,2,3]'' = None"
    and "as_json ''{'' = None"
  shows "ordinary_and_failed_reads_preserve_values_and_change_tracking B as_u64 as_json numbers = Some ()"
proof -
  have read: "tb_from_json B ''[1,2,3]'' = Some numbers"
    using bench_json[OF assms(1), of numbers] assms(2) by (metis sum.inject(2))
  show ?thesis
    by (simp add: ordinary_and_failed_reads_preserve_values_and_change_tracking_def new_session_eq[OF assms(1)]
        session_runs read assms(2-4))
qed

text \<open>
  A deserializer that writes to the session it is reading from. The test's probe of the data
  lock has no counterpart: a read is one step, which has ended when the deserializer starts.
\<close>

definition reentrant_value ::
  "(string \<Rightarrow> nat option) \<Rightarrow> (bool \<Rightarrow> error + string) \<Rightarrow> session \<Rightarrow> string \<Rightarrow> heap \<Rightarrow> nat option \<times> heap" where
  "reentrant_value as_u64 bool_json session text h =
     (case as_u64 text of
        None \<Rightarrow> (None, h)
      | Some value \<Rightarrow>
          (case session_insert bool_json ''written_during_deserialization'' True session h of
             (Inl e, h) \<Rightarrow> (None, h)
           | (Inr _, h) \<Rightarrow> (Some value, h)))"

definition deserialize_can_reenter_the_same_session_for_a_write ::
  "'v bench \<Rightarrow> (nat \<Rightarrow> error + string) \<Rightarrow> (string \<Rightarrow> nat option) \<Rightarrow> (bool \<Rightarrow> error + string) \<Rightarrow>
   (string \<Rightarrow> bool option) \<Rightarrow> unit option" where
  "deserialize_can_reenter_the_same_session_for_a_write B u64_json as_u64 bool_json as_bool =
     do {
       (s, h) \<leftarrow> new_session B 0 heap_empty;
       (_, h) \<leftarrow> unwrapped (session_insert u64_json ''value'' 42 s h);
       let (s, h) = reset_data_changed s h;
       let reentrant = session_clone s;
       let (loaded, h) = session_get_with (reentrant_value as_u64 bool_json reentrant) ''value'' s h;
       _ \<leftarrow> assert_that (loaded = Some 42);
       _ \<leftarrow> assert_that (session_get as_bool ''written_during_deserialization'' s h = Some True);
       assert_that (data_changed s h)
     }"

lemma deserialize_can_reenter_passes:
  assumes "bench_laws 8 B" and "u64_json 42 = Inr t" and "as_u64 t = Some 42"
    and "bool_json True = Inr u" and "as_bool u = Some True"
  shows "deserialize_can_reenter_the_same_session_for_a_write B u64_json as_u64 bool_json as_bool = Some ()"
  by (simp add: deserialize_can_reenter_the_same_session_for_a_write_def reentrant_value_def session_get_with_def
      new_session_eq[OF assms(1)] session_runs assms(2-))

subsection \<open>Captures\<close>

definition native_and_bounded_capture_paths_share_overlap_tracking ::
  "'v bench \<Rightarrow> codec \<Rightarrow> 'v \<Rightarrow> unit option" where
  "native_and_bounded_capture_paths_share_overlap_tracking B c one =
     do {
       (s, h) \<leftarrow> new_session B 0 heap_empty;
       (_, h) \<leftarrow> unwrapped (session_insert (tb_to_json B) ''value'' one s h);
       let (s, h) = reset_data_changed s h;
       let ((_, native), h) = persistence_snapshot s h;
       ((_, bounded), h) \<leftarrow> unwrapped (serialize_bounded (wc_to_slice c) 1024 s h);
       let (s, h) = acknowledge_revision s native h;
       let (s, h) = acknowledge_revision s bounded h;
       _ \<leftarrow> assert_that (data_changed s h);
       let (passive, h) = session_snapshot s h;
       _ \<leftarrow> assert_that (\<not> data_changed passive h);
       let ((_, repair), h) = persistence_snapshot s h;
       let (s, h) = acknowledge_revision s repair h;
       assert_that (\<not> data_changed s h)
     }"

lemma overlap_tracking_passes:
  assumes "bench_laws 8 B" and "tb_to_json B one = Inr text"
    and "wc_to_slice c (tb_ident B 0, None, [''value'' \<mapsto> text]) 1024 = Inr payload"
  shows "native_and_bounded_capture_paths_share_overlap_tracking B c one = Some ()"
  by (simp add: native_and_bounded_capture_paths_share_overlap_tracking_def new_session_eq[OF assms(1)]
      session_runs serialize_bounded_def assms(2,3))

definition bounded_failure_before_capture_does_not_create_a_pending_save ::
  "'v bench \<Rightarrow> codec \<Rightarrow> 'v \<Rightarrow> unit option" where
  "bounded_failure_before_capture_does_not_create_a_pending_save B c one =
     do {
       (s, h) \<leftarrow> new_session B 0 heap_empty;
       (_, h) \<leftarrow> unwrapped (session_insert (tb_to_json B) ''value'' one s h);
       let (s, h) = reset_data_changed s h;
       let (r, h) = serialize_bounded (wc_to_slice c) 1 s h;
       _ \<leftarrow> assert_that (refused (r, h));
       _ \<leftarrow> assert_that (\<not> data_changed s h);
       let ((_, repair), h) = persistence_snapshot s h;
       let (s, h) = acknowledge_revision s repair h;
       assert_that (\<not> data_changed s h)
     }"

lemma bounded_failure_passes:
  assumes "bench_laws 8 B" and "tb_to_json B one = Inr text"
    and "wc_to_slice c (tb_ident B 0, None, [''value'' \<mapsto> text]) 1 = Inl e"
  shows "bounded_failure_before_capture_does_not_create_a_pending_save B c one = Some ()"
  by (simp add: bounded_failure_before_capture_does_not_create_a_pending_save_def new_session_eq[OF assms(1)]
      session_runs serialize_bounded_def assms(2) assms(3)[unfolded One_nat_def])

definition bounded_serialization_captures_the_wire_data_and_revision_together ::
  "'v bench \<Rightarrow> codec \<Rightarrow> 'v \<Rightarrow> 'v \<Rightarrow> unit option" where
  "bounded_serialization_captures_the_wire_data_and_revision_together B c one two =
     do {
       (s, h) \<leftarrow> new_session B 0 heap_empty;
       (_, h) \<leftarrow> unwrapped (session_insert (tb_to_json B) ''value'' one s h);
       expected \<leftarrow> ok (wc_to_stdvec c (wire_of s h));
       ((payload, revision), h) \<leftarrow> unwrapped (serialize_bounded (wc_to_slice c) 4096 s h);
       _ \<leftarrow> assert_that (payload = expected);
       wire \<leftarrow> ok (wc_from_bytes c payload);
       let (saved, h) = session_of_wire wire h;
       let editor = session_clone s;
       (_, h) \<leftarrow> unwrapped (session_insert (tb_to_json B) ''value'' two editor h);
       let (s, h) = acknowledge_revision s revision h;
       _ \<leftarrow> assert_that (data_changed editor h);
       _ \<leftarrow> assert_that (session_get (tb_from_json B) ''value'' saved h = Some one);
       assert_that (session_get (tb_from_json B) ''value'' editor h = Some two)
     }"

lemma bounded_serialization_passes:
  assumes "bench_laws 8 B" and "codec_laws c" and "tb_to_json B one = Inr text"
    and "wc_to_stdvec c (tb_ident B 0, None, [''value'' \<mapsto> text]) = Inr payload" and "length payload \<le> 4096"
    and "one \<noteq> two"
  shows "bounded_serialization_captures_the_wire_data_and_revision_together B c one two = Some ()"
proof -
  have slice: "wc_to_slice c (tb_ident B 0, None, [''value'' \<mapsto> text]) 4096 = Inr payload"
    using codec_lawsD(4)[OF assms(2)] assms(4,5) by blast
  have decoded: "wc_from_bytes c payload = Inr (tb_ident B 0, None, [''value'' \<mapsto> text])"
    by (rule codec_lawsD(3)[OF assms(2,4)])
  have read: "tb_from_json B text = Some one"
    using bench_json[OF assms(1), of one] assms(3) by (metis sum.inject(2))
  obtain text2 where two: "tb_to_json B two = Inr text2" "tb_from_json B text2 = Some two"
    by (rule bench_json[OF assms(1)])
  have "text \<noteq> text2" using read two(2) assms(6) by auto
  then show ?thesis
    by (simp add: bounded_serialization_captures_the_wire_data_and_revision_together_def
        new_session_eq[OF assms(1)] session_runs serialize_bounded_def wire_of_def session_of_wire_def assms(3,4)
        slice decoded read two)
qed

subsection \<open>Authority\<close>

definition creation_authority_is_consumed_even_after_failure_or_cancellation :: "'v bench \<Rightarrow> unit option" where
  "creation_authority_is_consumed_even_after_failure_or_cancellation B =
     do {
       (s, h) \<leftarrow> new_session B 0 heap_empty;
       let clone = session_clone s;
       (_, h) \<leftarrow> unwrapped (persistence_attempt s h);
       let (r, h) = persistence_attempt clone h;
       _ \<leftarrow> assert_that (refused (r, h));
       _ \<leftarrow> assert_that (refused (persistence_origin s h, h));
       assert_that (refused (persistence_origin clone h, h))
     }"

lemma creation_authority_passes:
  assumes "bench_laws 8 B"
  shows "creation_authority_is_consumed_even_after_failure_or_cancellation B = Some ()"
  by (simp add: creation_authority_is_consumed_even_after_failure_or_cancellation_def new_session_eq[OF assms]
      session_runs)

definition a_late_update_completion_cannot_roll_back_a_rotated_marker :: "'v bench \<Rightarrow> unit option" where
  "a_late_update_completion_cannot_roll_back_a_rotated_marker B =
     do {
       (s, h) \<leftarrow> new_session B 0 heap_empty;
       let (s, h) = mark_loaded s h;
       let old = session_clone s;
       s \<leftarrow> regenerated B 1 s h;
       let h = mark_persisted s h;
       let h = mark_persisted old h;
       _ \<leftarrow> assert_that (persistence_origin s h = Inr (Some (s_id s)));
       _ \<leftarrow> assert_that (refused (persistence_origin old h, h));
       old \<leftarrow> regenerated B 2 old h;
       assert_that (refused (persistence_origin old h, h))
     }"

lemma late_completion_passes:
  assumes "bench_laws 8 B"
  shows "a_late_update_completion_cannot_roll_back_a_rotated_marker B = Some ()"
  by (simp add: a_late_update_completion_cannot_roll_back_a_rotated_marker_def new_session_eq[OF assms]
      regenerated_eq[OF assms] bench_idents[OF assms] session_runs)

end
