(* ===== verification/Memory_Tests.thy ===== *)
theory Memory_Tests
  imports Test_Bench
begin

text \<open>
  The unit tests of \<open>src/memory_store.rs\<close>, by their names there. The readings of the clock are
  arguments: what a test achieves by sleeping is a premise about them.
\<close>

abbreviation tb_load :: "'v bench \<Rightarrow> datetime \<Rightarrow> string \<Rightarrow> world \<Rightarrow> (error + session option) \<times> world" where
  "tb_load B now \<equiv> ms_load_session (tb_primitives B) now now"

abbreviation seconds :: "int \<Rightarrow> int" where
  "seconds n \<equiv> n * nanos_per_sec"

subsection \<open>Storing and loading\<close>

definition creating_a_new_session_with_no_expiry :: "'v bench \<Rightarrow> datetime \<Rightarrow> 'v \<Rightarrow> unit option" where
  "creating_a_new_session_with_no_expiry B now hello =
     do {
       (s, h) \<leftarrow> new_session B 0 heap_empty;
       (_, h) \<leftarrow> unwrapped (session_insert (tb_to_json B) ''key'' hello s h);
       let cloned = session_clone s;
       (cookie_value, w) \<leftarrow> awaited_some (ms_store_session undisturbed s (h, memory_state_default));
       (loaded, (h, st)) \<leftarrow> unwrapped_some (tb_load B now cookie_value w);
       _ \<leftarrow> assert_that (s_id cloned = s_id loaded);
       _ \<leftarrow> assert_that (session_get (tb_from_json B) ''key'' loaded h = Some hello);
       _ \<leftarrow> assert_that (\<not> is_expired now loaded);
       assert_that (session_validate now loaded \<noteq> None)
     }"

lemma creating_a_new_session_with_no_expiry_passes:
  assumes "bench_laws 8 B"
  shows "creating_a_new_session_with_no_expiry B now hello = Some ()"
proof -
  obtain t where "tb_to_json B hello = Inr t" "tb_from_json B t = Some hello"
    by (rule bench_json[OF assms])
  then show ?thesis
    by (simp add: creating_a_new_session_with_no_expiry_def new_session_eq[OF assms] bench_parses[OF assms]
        session_validate_def store_runs)
qed

definition updating_a_session :: "'v bench \<Rightarrow> datetime \<Rightarrow> 'v \<Rightarrow> 'v \<Rightarrow> unit option" where
  "updating_a_session B now v other =
     do {
       (s, h) \<leftarrow> new_session B 0 heap_empty;
       (_, h) \<leftarrow> unwrapped (session_insert (tb_to_json B) ''key'' v s h);
       (cookie_value, w) \<leftarrow> awaited_some (ms_store_session undisturbed s (h, memory_state_default));
       (s, (h, st)) \<leftarrow> unwrapped_some (tb_load B now cookie_value w);
       (_, h) \<leftarrow> unwrapped (session_insert (tb_to_json B) ''key'' other s h);
       (answer, w) \<leftarrow> awaited (ms_store_session undisturbed s (h, st));
       _ \<leftarrow> assert_that (answer = None);
       (s, (h, st)) \<leftarrow> unwrapped_some (tb_load B now cookie_value w);
       assert_that (session_get (tb_from_json B) ''key'' s h = Some other)
     }"

lemma updating_a_session_passes:
  assumes "bench_laws 8 B"
  shows "updating_a_session B now v other = Some ()"
proof -
  obtain t where t: "tb_to_json B v = Inr t" "tb_from_json B t = Some v"
    by (rule bench_json[OF assms])
  obtain t' where t': "tb_to_json B other = Inr t'" "tb_from_json B t' = Some other"
    by (rule bench_json[OF assms])
  show ?thesis
    by (simp add: updating_a_session_def new_session_eq[OF assms] bench_parses[OF assms] t t' store_runs)
qed

text \<open>The first expiry is set at \<open>now0\<close>, the second at \<open>now2\<close>; the last load is after the sleep.\<close>

definition updating_a_session_extending_expiry ::
  "'v bench \<Rightarrow> datetime \<Rightarrow> datetime \<Rightarrow> datetime \<Rightarrow> datetime \<Rightarrow> datetime \<Rightarrow> unit option" where
  "updating_a_session_extending_expiry B now0 now1 now2 now3 now4 =
     do {
       (s, h) \<leftarrow> new_session B 0 heap_empty;
       s \<leftarrow> expire_in (nat (seconds 1)) now0 s;
       original_expires \<leftarrow> s_expiry s;
       (cookie_value, w) \<leftarrow> awaited_some (ms_store_session undisturbed s (h, memory_state_default));
       (s, (h, st)) \<leftarrow> unwrapped_some (tb_load B now1 cookie_value w);
       _ \<leftarrow> assert_that (s_expiry s = Some original_expires);
       s \<leftarrow> expire_in (nat (seconds 3)) now2 s;
       new_expires \<leftarrow> s_expiry s;
       (answer, w) \<leftarrow> awaited (ms_store_session undisturbed s (h, st));
       _ \<leftarrow> assert_that (answer = None);
       (s, w) \<leftarrow> unwrapped_some (tb_load B now3 cookie_value w);
       _ \<leftarrow> assert_that (s_expiry s = Some new_expires);
       (answer, w) \<leftarrow> unwrapped (tb_load B now4 cookie_value w);
       assert_that (answer = None)
     }"

lemma updating_a_session_extending_expiry_passes:
  assumes "bench_laws 8 B" and "now0 \<le> now1" and "now1 \<le> now0 + seconds 1" and "now2 \<le> now3"
    and "now3 \<le> now2 + seconds 3" and "now2 + seconds 3 < now4"
    and "now0 + seconds 1 \<le> datetime_max" and "now2 + seconds 3 \<le> datetime_max"
  shows "updating_a_session_extending_expiry B now0 now1 now2 now3 now4 = Some ()"
  using assms(2-)
  by (simp add: updating_a_session_extending_expiry_def new_session_eq[OF assms(1)] bench_parses[OF assms(1)]
      expire_in_def set_expiry_def store_runs)

definition creating_a_new_session_with_expiry ::
  "'v bench \<Rightarrow> datetime \<Rightarrow> datetime \<Rightarrow> datetime \<Rightarrow> 'v \<Rightarrow> unit option" where
  "creating_a_new_session_with_expiry B now0 now1 now2 v =
     do {
       (s, h) \<leftarrow> new_session B 0 heap_empty;
       s \<leftarrow> expire_in (nat (seconds 3)) now0 s;
       (_, h) \<leftarrow> unwrapped (session_insert (tb_to_json B) ''key'' v s h);
       let cloned = session_clone s;
       (cookie_value, w) \<leftarrow> awaited_some (ms_store_session undisturbed s (h, memory_state_default));
       (loaded, (h, st)) \<leftarrow> unwrapped_some (tb_load B now1 cookie_value w);
       _ \<leftarrow> assert_that (s_id cloned = s_id loaded);
       _ \<leftarrow> assert_that (session_get (tb_from_json B) ''key'' loaded h = Some v);
       _ \<leftarrow> assert_that (\<not> is_expired now1 loaded);
       (answer, w) \<leftarrow> unwrapped (tb_load B now2 cookie_value (h, st));
       assert_that (answer = None)
     }"

lemma creating_a_new_session_with_expiry_passes:
  assumes "bench_laws 8 B" and "now1 \<le> now0 + seconds 3" and "now0 + seconds 3 < now2"
    and "now0 + seconds 3 \<le> datetime_max"
  shows "creating_a_new_session_with_expiry B now0 now1 now2 v = Some ()"
proof -
  obtain t where t: "tb_to_json B v = Inr t" "tb_from_json B t = Some v"
    by (rule bench_json[OF assms(1)])
  show ?thesis
    using assms(2-)
    by (simp add: creating_a_new_session_with_expiry_def new_session_eq[OF assms(1)] bench_parses[OF assms(1)]
        expire_in_def set_expiry_def store_runs t)
qed

subsection \<open>Removing\<close>

text \<open>\<open>store.store_session(Session::new()).await?\<close> for each of some sessions.\<close>

fun store_new_sessions :: "'v bench \<Rightarrow> nat list \<Rightarrow> world \<Rightarrow> world option" where
  "store_new_sessions B [] w = Some w"
| "store_new_sessions B (k # ks) w =
     do {
       (s, h) \<leftarrow> new_session B k (fst w);
       (_, w) \<leftarrow> awaited (ms_store_session undisturbed s (h, snd w));
       store_new_sessions B ks w
     }"

definition destroying_a_single_session :: "'v bench \<Rightarrow> datetime \<Rightarrow> unit option" where
  "destroying_a_single_session B now =
     do {
       w \<leftarrow> store_new_sessions B [0, 1, 2] (heap_empty, memory_state_default);
       (s, h) \<leftarrow> new_session B 3 (fst w);
       (cookie, w) \<leftarrow> awaited_some (ms_store_session undisturbed s (h, snd w));
       _ \<leftarrow> assert_that (4 = ms_count (snd w));
       (s, w) \<leftarrow> unwrapped_some (tb_load B now cookie w);
       (_, w) \<leftarrow> awaited (ms_destroy_session undisturbed (session_clone s) w);
       (answer, w) \<leftarrow> unwrapped (tb_load B now cookie w);
       _ \<leftarrow> assert_that (answer = None);
       _ \<leftarrow> assert_that (3 = ms_count (snd w));
       (_, w) \<leftarrow> awaited (ms_destroy_session undisturbed s w);
       Some ()
     }"

lemmas destroy_runs = ms_destroy_session_def begin_delete_locked_def lifecycle_delete_def session_destroy_def
  deletion_target_def ms_count_def state_clear_def ms_clear_store_def

lemma destroying_a_single_session_passes:
  assumes "bench_laws 8 B"
  shows "destroying_a_single_session B now = Some ()"
  by (simp add: destroying_a_single_session_def new_session_eq[OF assms] bench_parses[OF assms]
      bench_idents[OF assms] store_runs destroy_runs)

definition clearing_the_whole_store :: "'v bench \<Rightarrow> unit option" where
  "clearing_the_whole_store B =
     do {
       w \<leftarrow> store_new_sessions B [0, 1, 2] (heap_empty, memory_state_default);
       _ \<leftarrow> assert_that (3 = ms_count (snd w));
       let w = ms_clear_store w;
       assert_that (0 = ms_count (snd w))
     }"

lemma clearing_the_whole_store_passes:
  assumes "bench_laws 8 B"
  shows "clearing_the_whole_store B = Some ()"
  by (simp add: clearing_the_whole_store_def new_session_eq[OF assms] bench_idents[OF assms] store_runs destroy_runs)

subsection \<open>Wrong records and concurrent edits\<close>

definition a_misbound_record_is_rejected_instead_of_loading_another_identity ::
  "'v bench \<Rightarrow> datetime \<Rightarrow> 'v \<Rightarrow> unit option" where
  "a_misbound_record_is_rejected_instead_of_loading_another_identity B now v =
     do {
       (s, h) \<leftarrow> new_session B 0 heap_empty;
       (first_cookie, (h, st)) \<leftarrow> awaited_some (ms_store_session undisturbed s (h, memory_state_default));
       first_id \<leftarrow> ok (id_from_cookie_value (tb_primitives B) first_cookie);
       (other, h) \<leftarrow> new_session B 1 h;
       (_, h) \<leftarrow> unwrapped (session_insert (tb_to_json B) ''owner'' v other h);
       let other_id = s_id other;
       (other_cookie, (h, st)) \<leftarrow> awaited_some (ms_store_session undisturbed other (h, st));
       record \<leftarrow> ms_records st other_id;
       let (wrong, h) = session_snapshot record h;
       let st = snd (state_insert first_id wrong st);
       let (r, w) = tb_load B now first_cookie (h, st);
       _ \<leftarrow> assert_that (refused (r, w));
       (loaded, (h, st)) \<leftarrow> unwrapped_some (tb_load B now other_cookie w);
       assert_that (session_get (tb_from_json B) ''owner'' loaded h = Some v)
     }"

lemma a_misbound_record_is_rejected_passes:
  assumes "bench_laws 8 B"
  shows "a_misbound_record_is_rejected_instead_of_loading_another_identity B now v = Some ()"
proof -
  obtain t where "tb_to_json B v = Inr t" "tb_from_json B t = Some v"
    by (rule bench_json[OF assms])
  then show ?thesis
    by (simp add: a_misbound_record_is_rejected_instead_of_loading_another_identity_def new_session_eq[OF assms]
        bench_parses[OF assms] bench_idents[OF assms] store_runs)
qed

text \<open>The edit comes while the save waits for the lock of the store.\<close>

definition edit_while_blocked :: "'v bench \<Rightarrow> session \<Rightarrow> 'v \<Rightarrow> world interleaving" where
  "edit_while_blocked B editor v n w =
     (if n = 1 then (snd (session_insert (tb_to_json B) ''value'' v editor (fst w)), snd w) else w)"

definition saving_a_snapshot_does_not_clear_a_later_clone_edit ::
  "'v bench \<Rightarrow> datetime \<Rightarrow> 'v \<Rightarrow> 'v \<Rightarrow> unit option" where
  "saving_a_snapshot_does_not_clear_a_later_clone_edit B now one two =
     do {
       (s, h) \<leftarrow> new_session B 0 heap_empty;
       (_, h) \<leftarrow> unwrapped (session_insert (tb_to_json B) ''value'' one s h);
       let editor = session_clone s;
       (cookie, w) \<leftarrow> awaited_some (ms_store_session (edit_while_blocked B editor two) s (h, memory_state_default));
       _ \<leftarrow> assert_that (data_changed editor (fst w));
       (loaded, (h, st)) \<leftarrow> unwrapped_some (tb_load B now cookie w);
       _ \<leftarrow> assert_that (session_get (tb_from_json B) ''value'' loaded h = Some one);
       (_, w) \<leftarrow> awaited (ms_store_session undisturbed (session_clone editor) (h, st));
       _ \<leftarrow> assert_that (\<not> data_changed editor (fst w));
       (loaded, (h, st)) \<leftarrow> unwrapped_some (tb_load B now cookie w);
       assert_that (session_get (tb_from_json B) ''value'' loaded h = Some two)
     }"

lemma saving_a_snapshot_passes:
  assumes "bench_laws 8 B" and "one \<noteq> two"
  shows "saving_a_snapshot_does_not_clear_a_later_clone_edit B now one two = Some ()"
proof -
  obtain t where t: "tb_to_json B one = Inr t" "tb_from_json B t = Some one"
    by (rule bench_json[OF assms(1)])
  obtain t2 where t2: "tb_to_json B two = Inr t2" "tb_from_json B t2 = Some two"
    by (rule bench_json[OF assms(1)])
  have "t \<noteq> t2" using t(2) t2(2) assms(2) by auto
  then show ?thesis
    by (simp add: saving_a_snapshot_does_not_clear_a_later_clone_edit_def edit_while_blocked_def
        new_session_eq[OF assms(1)] bench_parses[OF assms(1)] store_runs t t2)
qed

subsection \<open>Expiry\<close>

definition cleanup_cutoff_keeps_equal_timestamps_and_removes_past_ones ::
  "'v bench \<Rightarrow> datetime \<Rightarrow> unit option" where
  "cleanup_cutoff_keeps_equal_timestamps_and_removes_past_ones B now =
     do {
       (s, h) \<leftarrow> new_session B 0 heap_empty;
       let s = set_expiry now s;
       let ident = s_id s;
       let st = snd (state_insert ident s memory_state_default);
       _ \<leftarrow> assert_that (expired_candidates now 10 st = []);
       assert_that (expired_candidates (now + 1) 10 st = [ident])
     }"

lemmas cleanup_runs = set_expiry_def expire_in_def state_insert_def state_remove_def btree_insert_def
  btree_remove_def expired_candidates_def memory_state_default_def

lemma cleanup_cutoff_passes:
  assumes "bench_laws 8 B"
  shows "cleanup_cutoff_keeps_equal_timestamps_and_removes_past_ones B now = Some ()"
  by (simp add: cleanup_cutoff_keeps_equal_timestamps_and_removes_past_ones_def new_session_eq[OF assms]
      cleanup_runs Let_def numeral_eq_Suc)

text \<open>
  The counter \<open>SNAPSHOT_CALLS\<close>: a snapshot allocates the cells of its copy, so that a load without
  allocation has taken none; the validation of a session that has passed allocates once more.
\<close>

definition loading_expired_records_never_copies_the_session_payload ::
  "'v bench \<Rightarrow> datetime \<Rightarrow> datetime \<Rightarrow> string \<Rightarrow> unit option" where
  "loading_expired_records_never_copies_the_session_payload B now later large =
     do {
       (s, h) \<leftarrow> new_session B 0 heap_empty;
       let h = insert_raw ''large'' large s h;
       let s = set_expiry (now - seconds 1) s;
       (cookie, w) \<leftarrow> awaited_some (ms_store_session undisturbed s (h, memory_state_default));
       let before = h_next (fst w);
       (answer, w) \<leftarrow> unwrapped (tb_load B later cookie w);
       _ \<leftarrow> assert_that (answer = None);
       (answer, w) \<leftarrow> unwrapped (tb_load B later cookie w);
       _ \<leftarrow> assert_that (answer = None);
       (answer, w) \<leftarrow> unwrapped (tb_load B later cookie w);
       _ \<leftarrow> assert_that (answer = None);
       let after = h_next (fst w);
       _ \<leftarrow> assert_that (after = before);
       (s, h) \<leftarrow> new_session B 1 (fst w);
       (cookie, w) \<leftarrow> awaited_some (ms_store_session undisturbed s (h, snd w));
       let before = h_next (fst w);
       (_, w) \<leftarrow> unwrapped_some (tb_load B later cookie w);
       let after_valid = h_next (fst w);
       assert_that (after_valid = before + 1 + 1)
     }"

lemma loading_expired_passes:
  assumes "bench_laws 8 B" and "now \<le> later"
  shows "loading_expired_records_never_copies_the_session_payload B now later large = Some ()"
  using assms(2)
  by (simp add: loading_expired_records_never_copies_the_session_payload_def new_session_eq[OF assms(1)]
      bench_parses[OF assms(1)] bench_idents[OF assms(1)] set_expiry_def store_runs)

text \<open>\<open>assert_index_consistent\<close>\<close>

definition index_consistent :: "memory_state \<Rightarrow> bool" where
  "index_consistent st \<longleftrightarrow>
     set (ms_expiries st) = {(expiry, ident). \<exists>s. ms_records st ident = Some s \<and> s_expiry s = Some expiry}"

definition cleanup_rechecks_renewed_candidates_before_removal ::
  "'v bench \<Rightarrow> datetime \<Rightarrow> datetime \<Rightarrow> unit option" where
  "cleanup_rechecks_renewed_candidates_before_removal B now later =
     do {
       (s, h) \<leftarrow> new_session B 0 heap_empty;
       let s = set_expiry (now + seconds 3600) s;
       let renewed = session_clone s;
       (cookie, (h, st)) \<leftarrow> awaited_some (ms_store_session undisturbed s (h, memory_state_default));
       let (removed, st) = state_remove (s_id renewed) st;
       expired \<leftarrow> removed;
       let expired = set_expiry (now - seconds 1) expired;
       let st = snd (state_insert (s_id expired) expired st);
       let candidates = expired_candidates now 10 st;
       _ \<leftarrow> assert_that (candidates = [s_id renewed]);
       let renewed = set_expiry (now + seconds 3600) renewed;
       (_, (h, st)) \<leftarrow> awaited (ms_store_session undisturbed renewed (h, st));
       let (n, st) = remove_expired_candidates undisturbed now candidates st;
       _ \<leftarrow> assert_that (n = 0);
       _ \<leftarrow> assert_that (ms_count st = 1);
       (_, w) \<leftarrow> unwrapped_some (tb_load B later cookie (h, st));
       assert_that (index_consistent (snd w))
     }"

lemma chunks_one [simp]: "0 < n \<Longrightarrow> chunks n [x] = [[x]]"
  by (subst chunks.simps, cases n) (simp_all add: chunks.simps[of _ "[]"])

lemma cleanup_rechecks_passes:
  assumes "bench_laws 8 B" and "later \<le> now + seconds 3600"
  shows "cleanup_rechecks_renewed_candidates_before_removal B now later = Some ()"
  using assms(2)
  by (simp add: cleanup_rechecks_renewed_candidates_before_removal_def new_session_eq[OF assms(1)]
      bench_parses[OF assms(1)] store_runs cleanup_runs destroy_runs remove_expired_candidates_def
      still_expired_def index_consistent_def numeral_eq_Suc)
     auto

definition expiry_index_tracks_updates_rotations_destruction_and_clear ::
  "'v bench \<Rightarrow> datetime \<Rightarrow> datetime \<Rightarrow> unit option" where
  "expiry_index_tracks_updates_rotations_destruction_and_clear B now0 now =
     do {
       (s, h) \<leftarrow> new_session B 0 heap_empty;
       s \<leftarrow> expire_in (nat (seconds 3600)) now0 s;
       old_expiry \<leftarrow> s_expiry s;
       let old_id = s_id s;
       (old_cookie, w) \<leftarrow> awaited_some (ms_store_session undisturbed s (h, memory_state_default));
       (loaded, w) \<leftarrow> unwrapped_some (tb_load B now old_cookie w);
       let loaded = set_expiry (old_expiry + seconds 3600) loaded;
       (_, (h, st)) \<leftarrow> awaited (ms_store_session undisturbed loaded w);
       _ \<leftarrow> assert_that ((old_expiry, old_id) \<notin> set (ms_expiries st));
       _ \<leftarrow> assert_that (length (ms_expiries st) = 1);
       _ \<leftarrow> assert_that (index_consistent st);
       (rotating, (h, st)) \<leftarrow> unwrapped_some (tb_load B now old_cookie (h, st));
       rotating \<leftarrow> regenerated B 1 rotating h;
       (cookie, (h, st)) \<leftarrow> awaited_some (ms_store_session undisturbed rotating (h, st));
       _ \<leftarrow> assert_that (index_consistent st);
       (loaded, w) \<leftarrow> unwrapped_some (tb_load B now cookie (h, st));
       (_, (h, st)) \<leftarrow> awaited (ms_destroy_session undisturbed loaded w);
       _ \<leftarrow> assert_that (ms_expiries st = []);
       (s, h) \<leftarrow> new_session B 2 h;
       s \<leftarrow> expire_in (nat (seconds 3600)) now s;
       (_, (h, st)) \<leftarrow> awaited (ms_store_session undisturbed s (h, st));
       w \<leftarrow> store_new_sessions B [3] (h, st);
       let (h, st) = ms_clear_store w;
       _ \<leftarrow> assert_that (dom (ms_records st) = {});
       assert_that (ms_expiries st = [])
     }"

lemma consistent_one:
  "index_consistent \<lparr>ms_records = [i \<mapsto> s], ms_expiries = [(e, i)]\<rparr> \<longleftrightarrow> s_expiry s = Some e"
  by (auto simp: index_consistent_def split: if_splits)

lemma expiry_index_tracks_passes:
  assumes "bench_laws 8 B" and "now0 \<le> now" and "now \<le> now0 + seconds 3600"
    and "now + seconds 3600 \<le> datetime_max"
  shows "expiry_index_tracks_updates_rotations_destruction_and_clear B now0 now = Some ()"
  using assms(2-)
  by (simp add: expiry_index_tracks_updates_rotations_destruction_and_clear_def new_session_eq[OF assms(1)]
      bench_parses[OF assms(1)] bench_idents[OF assms(1)] regenerated_eq[OF assms(1)] store_runs cleanup_runs
      destroy_runs consistent_one)

end
