(* ===== verification/Cleanup_Tests.thy ===== *)
theory Cleanup_Tests
  imports Memory_Tests
begin

text \<open>
  The unit tests of \<open>src/memory_store.rs\<close> that fill the store with up to 40,003 sessions. They
  are not evaluated but follow from what one cleanup call does to a state whose expired
  records are counted.
\<close>

subsection \<open>Filling the store\<close>

text \<open>\<open>state.insert(session.id().to_owned(), session)\<close> for new sessions with the given expiries.\<close>

fun insert_sessions :: "'v bench \<Rightarrow> (nat \<times> datetime option) list \<Rightarrow> world \<Rightarrow> world option" where
  "insert_sessions B [] w = Some w"
| "insert_sessions B ((k, expiry) # ks) w =
     do {
       (s, h) \<leftarrow> new_session B k (fst w);
       let s = (case expiry of None \<Rightarrow> s | Some e \<Rightarrow> set_expiry e s);
       insert_sessions B ks (h, snd (state_insert (s_id s) s (snd w)))
     }"

text \<open>The identities of a state with their expiries.\<close>

definition stored :: "memory_state \<Rightarrow> (string \<times> datetime option) set" where
  "stored st = {(i, e). \<exists>s. ms_records st i = Some s \<and> s_expiry s = e}"

text \<open>Some record has an expiry that is not past.\<close>

definition live_indexed :: "datetime \<Rightarrow> memory_state \<Rightarrow> bool" where
  "live_indexed now st \<longleftrightarrow> (\<exists>i s e. ms_records st i = Some s \<and> s_expiry s = Some e \<and> now \<le> e)"

lemma stored_insert:
  "ms_records st i = None \<Longrightarrow> stored (snd (state_insert i s st)) = insert (i, s_expiry s) (stored st)"
  by (auto simp: stored_def split: if_splits)

lemma insert_sessions_spec:
  assumes "bench_laws n B" and "fst ` set ks \<subseteq> {..<n}" and "distinct (map fst ks)" and "index_inv (snd w)"
    and "\<forall>k \<in> fst ` set ks. ms_records (snd w) (tb_ident B k) = None"
  shows "\<exists>h st. insert_sessions B ks w = Some (h, st) \<and> index_inv st \<and>
     stored st = (\<lambda>(k, e). (tb_ident B k, e)) ` set ks \<union> stored (snd w)"
  using assms(2-)
proof (induction ks arbitrary: w)
  case Nil
  then show ?case by (cases w) simp
next
  case (Cons ke ks)
  obtain k e where ke: "ke = (k, e)" by fastforce
  then have k: "k < n" using Cons.prems(1) by simp
  define h where "h = snd (alloc_family (session_data_of Map.empty) None False (fst w))"
  obtain s where s: "new_session B k (fst w) = Some (s, h)" "s_id s = tb_ident B k" "s_expiry s = None"
    using new_session_eq[OF assms(1) k, of "fst w"] by (simp add: h_def)
  define s' where "s' = (case e of None \<Rightarrow> s | Some x \<Rightarrow> set_expiry x s)"
  have s': "s_id s' = tb_ident B k" "s_expiry s' = e"
    using s(2,3) by (simp_all add: s'_def set_expiry_def split: option.splits)
  define w1 where "w1 = (h, snd (state_insert (s_id s') s' (snd w)))"
  have "tb_ident B j \<noteq> tb_ident B k" if "j \<in> fst ` set ks" for j
    using that Cons.prems(1,2) ke k bench_idents[OF assms(1), of j k] by auto
  then have "\<forall>j \<in> fst ` set ks. ms_records (snd w1) (tb_ident B j) = None"
    using Cons.prems(4) by (auto simp: w1_def s'(1))
  moreover have "index_inv (snd w1)" using Cons.prems(3) by (simp add: w1_def index_inv_insert)
  ultimately have "\<exists>h st. insert_sessions B ks w1 = Some (h, st) \<and> index_inv st \<and>
      stored st = (\<lambda>(k, e). (tb_ident B k, e)) ` set ks \<union> stored (snd w1)"
    using Cons.prems(1,2) by (intro Cons.IH) auto
  moreover have "stored (snd w1) = insert (tb_ident B k, e) (stored (snd w))"
    using Cons.prems(4) ke s' by (simp add: w1_def stored_insert)
  moreover have "insert_sessions B (ke # ks) w = insert_sessions B ks w1"
    by (simp add: ke s(1) Let_def s'_def[symmetric] w1_def)
  ultimately show ?case by (simp add: ke)
qed

lemma filled_store:
  assumes "bench_laws n B" and "fst ` set ks \<subseteq> {..<n}" and "distinct (map fst ks)"
  obtains h st where "insert_sessions B ks (heap_empty, memory_state_default) = Some (h, st)"
    and "index_inv st" and "finite (dom (ms_records st))" and "ms_count st = length ks"
    and "card (expired_ids now st) = length (filter (\<lambda>(k, e). \<exists>x. e = Some x \<and> x < now) ks)"
    and "live_indexed now st \<longleftrightarrow> (\<exists>k e. (k, Some e) \<in> set ks \<and> now \<le> e)"
    and "length (ms_expiries st) = length (filter (\<lambda>(k, e). \<exists>x. e = Some x) ks)"
proof -
  let ?f = "\<lambda>(k, e). (tb_ident B k, e)" and ?past = "\<lambda>(k, e). \<exists>x. e = Some x \<and> x < now"
  obtain h st where run: "insert_sessions B ks (heap_empty, memory_state_default) = Some (h, st)" "index_inv st"
      and "stored st = ?f ` set ks \<union> stored memory_state_default"
    using insert_sessions_spec[OF assms, of "(heap_empty, memory_state_default)"] index_inv_default
    by (auto simp: memory_state_default_def)
  then have st: "stored st = ?f ` set ks"
    by (simp add: stored_def memory_state_default_def)
  have inj: "inj_on (tb_ident B) (fst ` set ks)"
    using assms(2) bench_idents[OF assms(1)] by (auto simp: inj_on_def subset_iff)
  let ?dated = "\<lambda>(k, e). \<exists>x. e = Some x"
  have idents: "card (tb_ident B ` fst ` S) = card S" if "S \<subseteq> set ks" for S
  proof -
    have "inj_on fst S" using assms(3) that by (auto simp: distinct_map inj_on_subset)
    moreover have "inj_on (tb_ident B) (fst ` S)" using inj that by (auto intro: inj_on_subset)
    ultimately show ?thesis by (simp add: card_image)
  qed
  have "dom (ms_records st) = fst ` stored st" by (force simp: stored_def)
  also have "\<dots> = tb_ident B ` fst ` set ks" by (force simp: st)
  finally have doms: "dom (ms_records st) = tb_ident B ` fst ` set ks" .
  then have count: "ms_count st = length ks"
    using idents[of "set ks"] assms(3) by (simp add: ms_count_def distinct_card distinct_map)
  have "expired_ids now st = {i. \<exists>x. (i, Some x) \<in> stored st \<and> x < now}"
    by (auto simp: expired_ids_def still_expired_iff stored_def)
  also have "\<dots> = tb_ident B ` fst ` set (filter ?past ks)"
    by (force simp: st)
  finally have past: "expired_ids now st = tb_ident B ` fst ` set (filter ?past ks)" .
  have "card (set (filter ?past ks)) = length (filter ?past ks)"
    by (rule distinct_card) (use assms(3) in \<open>simp add: distinct_map\<close>)
  then have "card (expired_ids now st) = length (filter ?past ks)"
    unfolding past idents[OF filter_is_subset] .
  moreover have "length (ms_expiries st) = length (filter ?dated ks)"
  proof -
    have mem: "(e, i) \<in> set (ms_expiries st) \<longleftrightarrow> (i, Some e) \<in> stored st" for e i
      using run(2) by (simp add: index_inv_def stored_def)
    have "inj_on snd (set (ms_expiries st))" by (auto simp: inj_on_def mem) (auto simp: stored_def)
    then have "length (ms_expiries st) = card (snd ` set (ms_expiries st))"
      using run(2) by (simp add: index_inv_def card_image distinct_card)
    also have "snd ` set (ms_expiries st) = {i. \<exists>e. (i, Some e) \<in> stored st}"
      unfolding image_def Bex_def split_paired_Ex mem snd_conv by blast
    also have "\<dots> = tb_ident B ` fst ` set (filter ?dated ks)" by (force simp: st)
    also have "card \<dots> = length (filter ?dated ks)"
      unfolding idents[OF filter_is_subset]
      by (rule distinct_card) (use assms(3) in \<open>simp add: distinct_map\<close>)
    finally show ?thesis .
  qed
  moreover have "live_indexed now st \<longleftrightarrow> (\<exists>i e. (i, Some e) \<in> stored st \<and> now \<le> e)"
    by (auto simp: stored_def live_indexed_def)
  ultimately show thesis
    using that[OF run _ count] by (force simp: st doms)
qed

subsection \<open>One cleanup call\<close>

lemma cleanup_call:
  assumes "index_inv st" and "1 \<le> limit" and "limit \<le> 10000" and "finite (dom (ms_records st))"
  obtains st' where "cleanup_batch undisturbed limit now st = (Inr (min (unat limit) (card (expired_ids now st))), st')"
    and "index_inv st'" and "finite (dom (ms_records st'))"
    and "card (expired_ids now st') = card (expired_ids now st) - unat limit"
    and "ms_count st' = ms_count st - min (unat limit) (card (expired_ids now st))"
    and "live_indexed now st' \<longleftrightarrow> live_indexed now st"
proof -
  let ?c = "expired_candidates now (unat limit) st"
  let ?r = "remove_expired_candidates undisturbed now ?c st"
  note removed = removed_candidates[OF assms(1), of now "unat limit"]
  have sub: "set ?c \<subseteq> expired_ids now st" and len: "card (set ?c) = min (unat limit) (card (expired_ids now st))"
    using mem.oldest_expired[OF assms(1)] mem.oldest_length[OF assms(1)] distinct_card[OF mem.oldest_distinct[OF assms(1)]]
    by auto
  have doms: "dom (ms_records (snd ?r)) = dom (ms_records st) - set ?c" "set ?c \<subseteq> dom (ms_records st)"
    using sub by (auto simp: removed(2) expired_ids_def still_expired_iff split: if_splits)
  have live: "ms_records (snd ?r) i = Some s" if "ms_records st i = Some s" "s_expiry s = Some e" "now \<le> e" for i s e
    using that sub by (auto simp: removed(2) expired_ids_def still_expired_iff)
  have rest: "ms_records (snd ?r) i = Some s \<Longrightarrow> ms_records st i = Some s" for i s
    by (simp add: removed(2) split: if_splits)
  show thesis
  proof (rule that[of "snd ?r"])
    show "cleanup_batch undisturbed limit now st = (Inr (min (unat limit) (card (expired_ids now st))), snd ?r)"
      using removed(1) assms(2,3) by (simp add: cleanup_batch_eq apfst_def map_prod_def split_beta)
    show "ms_count (snd ?r) = ms_count st - min (unat limit) (card (expired_ids now st))"
      using card_Diff_subset[OF List.finite_set doms(2)] len by (simp add: ms_count_def doms(1))
    show "live_indexed now (snd ?r) \<longleftrightarrow> live_indexed now st"
      unfolding live_indexed_def using live rest by blast
  qed (use removed assms(4) doms in simp_all)
qed

subsection \<open>The tests\<close>

text \<open>
  One reading of the clock serves all calls of a test. \<open>examined\<close> is what a call adds to the
  counter \<open>cleanup_entries_examined\<close>.
\<close>

definition examined :: "32 word \<Rightarrow> datetime \<Rightarrow> memory_state \<Rightarrow> nat" where
  "examined limit now st =
     (if 1 \<le> limit \<and> limit \<le> MAX_CLEANUP_LIMIT then entries_examined now (unat limit) (ms_expiries st) else 0)"

lemma examined_eq:
  assumes "index_inv st" and "1 \<le> limit" and "limit \<le> 10000"
  shows "examined limit now st =
    min (unat limit) (card (expired_ids now st) + (if live_indexed now st then 1 else 0))"
  using assms by (simp add: examined_def MAX_CLEANUP_LIMIT_def inspected live_indexed_def)

definition cleanup_default_and_explicit_limits_bound_inspection_and_removal ::
  "'v bench \<Rightarrow> datetime \<Rightarrow> datetime \<Rightarrow> unit option" where
  "cleanup_default_and_explicit_limits_bound_inspection_and_removal B now later =
     do {
       let expiry = now - seconds 1;
       (h, st) \<leftarrow> insert_sessions B (map (\<lambda>k. (k, Some expiry)) [0..<1007]) (heap_empty, memory_state_default);
       _ \<leftarrow> assert_that (refused (cleanup_batch undisturbed 0 later st));
       _ \<leftarrow> assert_that (refused (cleanup_batch undisturbed 10001 later st));
       let seen = examined 0 later st + examined 10001 later st;
       _ \<leftarrow> assert_that (seen = 0);
       let seen = seen + examined DEFAULT_CLEANUP_LIMIT later st;
       (_, st) \<leftarrow> unwrapped (cleanup undisturbed later st);
       _ \<leftarrow> assert_that (ms_count st = 7);
       _ \<leftarrow> assert_that (seen = 1000);
       let seen = seen + examined 3 later st;
       (n, st) \<leftarrow> unwrapped (cleanup_batch undisturbed 3 later st);
       _ \<leftarrow> assert_that (n = 3);
       _ \<leftarrow> assert_that (ms_count st = 4);
       _ \<leftarrow> assert_that (seen = 1003);
       (n, st) \<leftarrow> unwrapped (cleanup_batch undisturbed 10000 later st);
       _ \<leftarrow> assert_that (n = 4);
       (n, st) \<leftarrow> unwrapped (cleanup_batch undisturbed 10000 later st);
       _ \<leftarrow> assert_that (n = 0);
       _ \<leftarrow> assert_that (dom (ms_records st) = {});
       _ \<leftarrow> assert_that (ms_expiries st = []);
       assert_that (index_consistent st)
     }"

lemma index_inv_consistent: "index_inv st \<Longrightarrow> index_consistent st"
  by (auto simp: index_inv_def index_consistent_def)

lemma empty_index: "index_inv st \<Longrightarrow> dom (ms_records st) = {} \<Longrightarrow> ms_expiries st = []"
  by (cases "ms_expiries st") (auto simp: index_inv_def)

lemma cleanup_limits_pass:
  assumes "bench_laws 1007 B" and "now \<le> later"
  shows "cleanup_default_and_explicit_limits_bound_inspection_and_removal B now later = Some ()"
proof -
  let ?ks = "map (\<lambda>k. (k, Some (now - seconds 1))) [0..<1007]"
  have past: "filter (\<lambda>(k, e). \<exists>x. e = Some x \<and> x < later) ?ks = ?ks"
    using assms(2) by (subst filter_True) auto
  have ks: "fst ` set ?ks \<subseteq> {..<1007}" "distinct (map fst ?ks)"
    by (auto simp: comp_def)
  obtain h st where st: "insert_sessions B ?ks (heap_empty, memory_state_default) = Some (h, st)"
      "index_inv st" "finite (dom (ms_records st))" "ms_count st = 1007" "card (expired_ids later st) = 1007"
      "\<not> live_indexed later st"
    by (rule filled_store[OF assms(1) ks, of later]) (use assms(2) in \<open>auto simp: past\<close>)
  obtain st1 where st1: "cleanup_batch undisturbed 1000 later st = (Inr 1000, st1)" "index_inv st1"
      "finite (dom (ms_records st1))" "card (expired_ids later st1) = 7" "ms_count st1 = 7" "\<not> live_indexed later st1"
    by (rule cleanup_call[OF st(2) _ _ st(3), of 1000 later]) (use st in simp_all)
  obtain st2 where st2: "cleanup_batch undisturbed 3 later st1 = (Inr 3, st2)" "index_inv st2"
      "finite (dom (ms_records st2))" "card (expired_ids later st2) = 4" "ms_count st2 = 4"
    by (rule cleanup_call[OF st1(2) _ _ st1(3), of 3 later]) (use st1 in simp_all)
  obtain st3 where st3: "cleanup_batch undisturbed 10000 later st2 = (Inr 4, st3)" "index_inv st3"
      "finite (dom (ms_records st3))" "card (expired_ids later st3) = 0" "ms_count st3 = 0"
    by (rule cleanup_call[OF st2(2) _ _ st2(3), of 10000 later]) (use st2 in simp_all)
  obtain st4 where st4: "cleanup_batch undisturbed 10000 later st3 = (Inr 0, st4)" "index_inv st4"
      "finite (dom (ms_records st4))" "ms_count st4 = 0"
    by (rule cleanup_call[OF st3(2) _ _ st3(3), of 10000 later]) (use st3 in simp_all)
  have empty: "dom (ms_records st4) = {}" using st4(3,4) by (simp add: ms_count_def)
  have seen: "examined 1000 later st = 1000" "examined 3 later st1 = 3"
    using examined_eq[OF st(2), of 1000 later] examined_eq[OF st1(2), of 3 later] st(5,6) st1(4,6) by simp_all
  have none: "cleanup_batch undisturbed 0 later st = (Inl BatchLimit, st)"
      "cleanup_batch undisturbed 10001 later st = (Inl BatchLimit, st)"
      "examined 0 later st = 0" "examined 10001 later st = 0"
    by (simp_all add: cleanup_batch_def examined_def MAX_CLEANUP_LIMIT_def)
  show ?thesis
    unfolding cleanup_default_and_explicit_limits_bound_inspection_and_removal_def
    by (simp add: Let_def st(1)[unfolded mult_1] none seen st1 st2 st3 st4 empty[unfolded dom_eq_empty_conv] cleanup_def DEFAULT_CLEANUP_LIMIT_def
        empty_index[OF st4(2) empty] index_inv_consistent[OF st4(2)] del: upt_conv_Cons map_upt_Suc)
qed

text \<open>\<open>n\<close> pairs of a live and a permanent session, and three expired ones.\<close>

definition large_store :: "nat \<Rightarrow> datetime \<Rightarrow> (nat \<times> datetime option) list" where
  "large_store n now =
     concat (map (\<lambda>k. [(2 * k, Some (now + seconds 3600)), (2 * k + 1, None)]) [0..<n]) @
     map (\<lambda>k. (2 * n + k, Some (now - seconds 1))) [0..<3]"

definition cleanup_does_not_scan_large_live_or_permanent_record_sets ::
  "'v bench \<Rightarrow> datetime \<Rightarrow> datetime \<Rightarrow> unit option" where
  "cleanup_does_not_scan_large_live_or_permanent_record_sets B now later =
     do {
       (h, st) \<leftarrow> insert_sessions B (large_store 20000 now) (heap_empty, memory_state_default);
       _ \<leftarrow> assert_that (length (ms_expiries st) = 20003);
       let seen = examined 2 later st;
       (n, st) \<leftarrow> unwrapped (cleanup_batch undisturbed 2 later st);
       _ \<leftarrow> assert_that (n = 2);
       _ \<leftarrow> assert_that (seen = 2);
       let seen = seen + examined 10 later st;
       (n, st) \<leftarrow> unwrapped (cleanup_batch undisturbed 10 later st);
       _ \<leftarrow> assert_that (n = 1);
       _ \<leftarrow> assert_that (seen = 4);
       let seen = seen + examined 10000 later st;
       (n, st) \<leftarrow> unwrapped (cleanup_batch undisturbed 10000 later st);
       _ \<leftarrow> assert_that (n = 0);
       _ \<leftarrow> assert_that (seen = 5);
       _ \<leftarrow> assert_that (ms_count st = 40000);
       assert_that (index_consistent st)
     }"

lemma upto_3: "[0..<3] = [0, 1, 2 :: nat]"
  by code_simp

lemma large_store_keys:
  "fst ` set (large_store n now) = {..<2 * n + 3}" (is ?set)
  "distinct (map fst (large_store n now))" (is ?distinct)
  "length (large_store n now) = 2 * n + 3" (is ?length)
proof -
  have "concat (map (\<lambda>k. [2 * k, 2 * k + 1]) [0..<n]) = [0..<2 * n]" by (induction n) simp_all
  then have keys: "map fst (large_store n now) = [0..<2 * n + 3]"
    by (simp add: large_store_def map_concat comp_def upto_3 numeral_3_eq_3)
  from arg_cong[OF this, of set] arg_cong[OF this, of length] show ?set ?length
    by (simp_all add: atLeast0LessThan)
  show ?distinct unfolding keys by simp
qed

lemma large_store_expired:
  assumes "now \<le> later" and "later \<le> now + seconds 3600"
  shows "length (filter (\<lambda>(k, e). \<exists>x. e = Some x \<and> x < later) (large_store n now)) = 3"
proof -
  have "filter (\<lambda>(k, e). \<exists>x. e = Some x \<and> x < later)
      (concat (map (\<lambda>k. [(2 * k, Some (now + seconds 3600)), (2 * k + 1, None)]) [0..<n])) = []"
    using assms(2) by (induction n) simp_all
  then show ?thesis using assms(1) by (simp add: large_store_def upto_3)
qed

lemma large_store_dated:
  "length (filter (\<lambda>(k, e). \<exists>x. e = Some x) (large_store n now)) = n + 3"
proof -
  have "length (filter (\<lambda>(k, e). \<exists>x. e = Some x)
      (concat (map (\<lambda>k. [(2 * k, Some (now + seconds 3600)), (2 * k + 1, None)]) [0..<n]))) = n"
    by (induction n) simp_all
  then show ?thesis by (simp add: large_store_def upto_3)
qed

lemma large_store_live:
  assumes "later \<le> now + seconds 3600" and "0 < n"
  shows "\<exists>k e. (k, Some e) \<in> set (large_store n now) \<and> later \<le> e"
proof (intro exI conjI)
  show "(0, Some (now + seconds 3600)) \<in> set (large_store n now)"
    using assms(2) by (force simp: large_store_def)
qed (rule assms(1))

lemma large_store_passes:
  assumes "bench_laws 40003 B" and "now \<le> later" and "later \<le> now + seconds 3600"
  shows "cleanup_does_not_scan_large_live_or_permanent_record_sets B now later = Some ()"
proof -
  define ks where "ks = large_store 20000 now"
  have ks: "fst ` set ks \<subseteq> {..<40003}" "distinct (map fst ks)" "length ks = 40003"
    "length (filter (\<lambda>(k, e). \<exists>x. e = Some x \<and> x < later) ks) = 3"
    "\<exists>k e. (k, Some e) \<in> set ks \<and> later \<le> e" "length (filter (\<lambda>(k, e). \<exists>x. e = Some x) ks) = 20003"
    using large_store_dated[of 20000 now] large_store_keys[of 20000 now] large_store_expired[OF assms(2,3), of 20000]
      large_store_live[OF assms(3), of 20000] by (simp_all add: ks_def)
  obtain h st where st: "insert_sessions B ks (heap_empty, memory_state_default) = Some (h, st)"
      "index_inv st" "finite (dom (ms_records st))" "ms_count st = 40003" "card (expired_ids later st) = 3"
      "live_indexed later st" "length (ms_expiries st) = 20003"
    by (rule filled_store[OF assms(1) ks(1,2), of later]) (simp add: ks(3-6))
  obtain st1 where st1: "cleanup_batch undisturbed 2 later st = (Inr 2, st1)" "index_inv st1"
      "finite (dom (ms_records st1))" "card (expired_ids later st1) = 1" "ms_count st1 = 40001" "live_indexed later st1"
    by (rule cleanup_call[OF st(2) _ _ st(3), of 2 later]) (use st in simp_all)
  obtain st2 where st2: "cleanup_batch undisturbed 10 later st1 = (Inr 1, st2)" "index_inv st2"
      "finite (dom (ms_records st2))" "card (expired_ids later st2) = 0" "ms_count st2 = 40000" "live_indexed later st2"
    by (rule cleanup_call[OF st1(2) _ _ st1(3), of 10 later]) (use st1 in simp_all)
  obtain st3 where st3: "cleanup_batch undisturbed 10000 later st2 = (Inr 0, st3)" "index_inv st3" "ms_count st3 = 40000"
    by (rule cleanup_call[OF st2(2) _ _ st2(3), of 10000 later]) (use st2 in simp_all)
  have seen: "examined 2 later st = 2" "examined 10 later st1 = 2" "examined 10000 later st2 = 1"
    using examined_eq[OF st(2), of 2 later] examined_eq[OF st1(2), of 10 later] examined_eq[OF st2(2), of 10000 later]
      st(5,6) st1(4,6) st2(4,6) by simp_all
  show ?thesis
    by (simp add: cleanup_does_not_scan_large_live_or_permanent_record_sets_def Let_def ks_def[symmetric] st(1,7) seen
        st1 st2 st3 index_inv_consistent[OF st3(2)])
qed

definition overlapping_cleanup_batches_do_not_delete_additional_records ::
  "'v bench \<Rightarrow> datetime \<Rightarrow> unit option" where
  "overlapping_cleanup_batches_do_not_delete_additional_records B now =
     do {
       (h, st) \<leftarrow> insert_sessions B (map (\<lambda>k. (k, Some (now - seconds 1))) [0..<5]) (heap_empty, memory_state_default);
       let first = expired_candidates now 3 st;
       let second = expired_candidates now 3 st;
       _ \<leftarrow> assert_that (first = second);
       let (n, st) = remove_expired_candidates undisturbed now first st;
       _ \<leftarrow> assert_that (n = 3);
       let (n, st) = remove_expired_candidates undisturbed now second st;
       _ \<leftarrow> assert_that (n = 0);
       _ \<leftarrow> assert_that (ms_count st = 2);
       _ \<leftarrow> assert_that (index_consistent st);
       (n, st) \<leftarrow> unwrapped (cleanup_batch undisturbed 3 now st);
       _ \<leftarrow> assert_that (n = 2);
       assert_that (ms_count st = 0)
     }"

lemma removed_twice:
  fixes now n st
  defines "cands \<equiv> expired_candidates now n st"
  defines "st1 \<equiv> snd (remove_expired_candidates undisturbed now cands st)"
  assumes inv: "index_inv st"
  shows "fst (remove_expired_candidates undisturbed now cands st1) = 0"
    and "ms_records (snd (remove_expired_candidates undisturbed now cands st1)) = ms_records st1"
    and "index_inv (snd (remove_expired_candidates undisturbed now cands st1))"
proof -
  have gone: "\<not> still_expired now st1 i" if "i \<in> set cands" for i
    using that removed_candidates(2)[OF inv, of now n] by (simp add: st1_def cands_def still_expired_iff)
  then have none: "{i \<in> set cands. still_expired now st1 i} = {}" by blast
  note again = remove_batches_undisturbed[of 1 now "chunks CLEANUP_BATCH_SIZE cands" st1]
  show "fst (remove_expired_candidates undisturbed now cands st1) = 0"
    using again mem.oldest_distinct[OF inv, of now n]
    by (simp add: remove_expired_candidates_def concat_chunks none cands_def[symmetric])
  show "ms_records (snd (remove_expired_candidates undisturbed now cands st1)) = ms_records st1"
    using again gone by (auto simp: remove_expired_candidates_def concat_chunks fun_eq_iff)
  show "index_inv (snd (remove_expired_candidates undisturbed now cands st1))"
    using again removed_candidates(3)[OF inv, of now n]
    by (simp add: remove_expired_candidates_def st1_def cands_def)
qed

lemma overlapping_cleanup_passes:
  assumes "bench_laws 5 B"
  shows "overlapping_cleanup_batches_do_not_delete_additional_records B now = Some ()"
proof -
  define ks where "ks = map (\<lambda>k. (k, Some (now - seconds 1))) [0..<5]"
  have ks: "fst ` set ks \<subseteq> {..<5}" "distinct (map fst ks)" "length ks = 5"
      "filter (\<lambda>(k, e). \<exists>x. e = Some x \<and> x < now) ks = ks"
    by (auto simp: ks_def comp_def)
  obtain h st where st: "insert_sessions B ks (heap_empty, memory_state_default) = Some (h, st)"
      "index_inv st" "finite (dom (ms_records st))" "ms_count st = 5" "card (expired_ids now st) = 5"
    by (rule filled_store[OF assms ks(1,2), of now]) (simp add: ks(3,4))
  define cands where "cands = expired_candidates now 3 st"
  define r1 where "r1 = remove_expired_candidates undisturbed now cands st"
  define r2 where "r2 = remove_expired_candidates undisturbed now cands (snd r1)"
  have r1: "fst r1 = 3" "card (expired_ids now (snd r1)) = 2"
    using removed_candidates(1,5)[OF st(2), of now 3] st(5) by (simp_all add: r1_def cands_def)
  have r2: "fst r2 = 0" "ms_records (snd r2) = ms_records (snd r1)" "index_inv (snd r2)"
    using removed_twice[OF st(2), of now 3] by (simp_all add: r2_def r1_def cands_def)
  obtain st1 where one: "cleanup_batch undisturbed 3 now st = (Inr 3, st1)" "ms_count st1 = 2"
      "finite (dom (ms_records st1))"
    by (rule cleanup_call[OF st(2) _ _ st(3), of 3 now]) (use st in simp_all)
  then have "st1 = snd r1"
    by (auto simp: cleanup_batch_eq r1_def cands_def apfst_def map_prod_def split: prod.splits)
  then have count: "ms_count (snd r2) = 2" "finite (dom (ms_records (snd r2)))"
    using one(2,3) r2(2) by (simp_all add: ms_count_def)
  have left: "card (expired_ids now (snd r2)) = 2"
    using r1(2) r2(2) by (simp add: expired_ids_def still_expired_iff)
  obtain st3 where st3: "cleanup_batch undisturbed 3 now (snd r2) = (Inr 2, st3)" "ms_count st3 = 0"
    by (rule cleanup_call[OF r2(3) _ _ count(2), of 3 now]) (use count left in simp_all)
  show ?thesis
    unfolding overlapping_cleanup_batches_do_not_delete_additional_records_def ks_def[symmetric]
    by (simp add: st(1) Let_def split_beta st3 r1(1) r2(1) count index_inv_consistent[OF r2(3)]
        flip: cands_def r1_def r2_def)
qed

subsection \<open>More expired sessions than one locked step removes\<close>

text \<open>\<open>insert(session.id().to_owned(), session.snapshot())\<close> for new sessions with one expiry.\<close>

fun insert_snapshots :: "'v bench \<Rightarrow> datetime \<Rightarrow> nat list \<Rightarrow> world \<Rightarrow> world option" where
  "insert_snapshots B expiry [] w = Some w"
| "insert_snapshots B expiry (k # ks) w =
     do {
       (s, h) \<leftarrow> new_session B k (fst w);
       let s = set_expiry expiry s;
       let (snap, h) = session_snapshot s h;
       insert_snapshots B expiry ks (h, snd (state_insert (s_id s) snap (snd w)))
     }"

lemma insert_snapshots_spec:
  assumes "bench_laws n B" and "set ks \<subseteq> {..<n}" and "distinct ks" and "index_inv (snd w)"
    and "\<forall>k \<in> set ks. ms_records (snd w) (tb_ident B k) = None"
  shows "\<exists>h st. insert_snapshots B e ks w = Some (h, st) \<and> index_inv st \<and>
     stored st = (\<lambda>k. (tb_ident B k, Some e)) ` set ks \<union> stored (snd w)"
  using assms(2-)
proof (induction ks arbitrary: w)
  case Nil
  then show ?case by (cases w) simp
next
  case (Cons k ks)
  then have k: "k < n" by simp
  obtain s h where s: "new_session B k (fst w) = Some (s, h)" "s_id s = tb_ident B k"
    using new_session_eq[OF assms(1) k, of "fst w"] by simp
  obtain snap h1 where snap: "session_snapshot (set_expiry e s) h = (snap, h1)" by fastforce
  then have id: "s_id snap = tb_ident B k" "s_expiry snap = Some e" "s_id (set_expiry e s) = tb_ident B k"
    using s(2) by (auto simp: session_snapshot_def snapshot_values_def set_expiry_def Let_def split_beta)
  define w1 where "w1 = (h1, snd (state_insert (tb_ident B k) snap (snd w)))"
  have "tb_ident B j \<noteq> tb_ident B k" if "j \<in> set ks" for j
    using that Cons.prems(1,2) k bench_idents[OF assms(1), of j k] by auto
  then have "\<forall>j \<in> set ks. ms_records (snd w1) (tb_ident B j) = None"
    using Cons.prems(4) by (auto simp: w1_def)
  moreover have "index_inv (snd w1)" using Cons.prems(3) id by (simp add: w1_def index_inv_insert)
  ultimately have "\<exists>h st. insert_snapshots B e ks w1 = Some (h, st) \<and> index_inv st \<and>
      stored st = (\<lambda>k. (tb_ident B k, Some e)) ` set ks \<union> stored (snd w1)"
    using Cons.prems(1,2) by (intro Cons.IH) auto
  moreover have "stored (snd w1) = insert (tb_ident B k, Some e) (stored (snd w))"
    using Cons.prems(4) id by (simp add: w1_def stored_insert)
  moreover have "insert_snapshots B e (k # ks) w = insert_snapshots B e ks w1"
    by (simp add: s(1) Let_def snap id(3) w1_def)
  ultimately show ?case by simp
qed

definition cleanup_removes_expired_sessions_across_batches :: "'v bench \<Rightarrow> datetime \<Rightarrow> unit option" where
  "cleanup_removes_expired_sessions_across_batches B now =
     do {
       w \<leftarrow> insert_snapshots B (now - seconds 1) [0..<CLEANUP_BATCH_SIZE + 1] (heap_empty, memory_state_default);
       (s, h) \<leftarrow> new_session B 257 (fst w);
       let s = set_expiry (now + seconds 3600) s;
       (live_cookie, w) \<leftarrow> awaited_some (ms_store_session undisturbed s (h, snd w));
       (s, h) \<leftarrow> new_session B 258 (fst w);
       (permanent_cookie, (h, st)) \<leftarrow> awaited_some (ms_store_session undisturbed s (h, snd w));
       (_, st) \<leftarrow> unwrapped (cleanup undisturbed now st);
       _ \<leftarrow> assert_that (ms_count st = 2);
       (_, (h, st)) \<leftarrow> unwrapped_some (tb_load B now live_cookie (h, st));
       (_, w) \<leftarrow> unwrapped_some (tb_load B now permanent_cookie (h, st));
       Some ()
     }"

text \<open>What saving and loading a new session does to the heap and the store.\<close>

definition new_at :: "'v bench \<Rightarrow> nat \<Rightarrow> datetime option \<Rightarrow> nat \<Rightarrow> session" where
  "new_at B k e n =
     \<lparr>s_id = tb_ident B k, s_expiry = e, s_data = n, s_cookie_value = Some (tb_cookie B k),
      s_metadata_changed = (e \<noteq> None), s_persisted_id = n, s_rotation_from = None,
      s_fresh = True, s_creation_claimed = n, s_lifecycle = n, s_destroy = n\<rparr>"

definition saved_at :: "'v bench \<Rightarrow> nat \<Rightarrow> datetime option \<Rightarrow> nat \<Rightarrow> session" where
  "saved_at B k e n =
     \<lparr>s_id = tb_ident B k, s_expiry = e, s_data = n, s_cookie_value = None,
      s_metadata_changed = False, s_persisted_id = n, s_rotation_from = None,
      s_fresh = False, s_creation_claimed = n, s_lifecycle = n, s_destroy = n\<rparr>"

lemma saved_new_session:
  assumes "ms_records st (tb_ident B k) = None"
  shows "\<exists>h1. ms_store_session undisturbed (new_at B k e (h_next h))
      (snd (alloc_family (session_data_of Map.empty) None False h), st) =
      (Ready (Inr (Some (tb_cookie B k))),
       (h1, snd (state_insert (tb_ident B k) (saved_at B k e (Suc (h_next h))) st))) \<and>
    h_next h1 = Suc (Suc (h_next h)) \<and> \<not> h_destroy h1 (Suc (h_next h)) \<and>
    (\<forall>a < h_next h. h_destroy h1 a = h_destroy h a)"
  using assms by (simp add: new_at_def saved_at_def store_runs)

lemma bench_session_loads:
  assumes "bench_laws n B" and "k < n" and "ms_records st (tb_ident B k) = Some (saved_at B k e a)"
    and "\<not> h_destroy h a" and "a < h_next h" and "\<forall>x. e = Some x \<longrightarrow> now \<le> x"
  shows "\<exists>t h1. tb_load B now (tb_cookie B k) (h, st) = (Inr (Some t), (h1, st)) \<and>
    h_next h \<le> h_next h1 \<and> (\<forall>a < h_next h. h_destroy h1 a = h_destroy h a)"
  using assms(3-)
  by (cases e) (simp_all add: bench_parses[OF assms(1,2)] saved_at_def store_runs)

lemma cleanup_across_batches_passes:
  assumes "bench_laws 259 B"
  shows "cleanup_removes_expired_sessions_across_batches B now = Some ()"
proof -
  let ?live = "tb_ident B 257" and ?perm = "tb_ident B 258"
  define e where "e = now - seconds 1"
  have none: "stored memory_state_default = {}" "ms_records memory_state_default i = None" for i
    by (simp_all add: stored_def memory_state_default_def)
  have sub: "set [0..<257] \<subseteq> {..<259 :: nat}" by auto
  obtain h st where filled: "insert_snapshots B e [0..<257] (heap_empty, memory_state_default) = Some (h, st)"
      and inv: "index_inv st" and old: "stored st = (\<lambda>k. (tb_ident B k, Some e)) ` {0..<257}"
    using insert_snapshots_spec[OF assms sub distinct_upt, of "(heap_empty, memory_state_default)" e]
    by (auto simp: index_inv_default none)
  have past: "s_expiry s = Some e \<and> (\<exists>k < 257. i = tb_ident B k)" if "ms_records st i = Some s" for i s
  proof -
    have "(i, s_expiry s) \<in> stored st" using that by (auto simp: stored_def)
    then show ?thesis unfolding old by auto
  qed
  have new: "ms_records st (tb_ident B k) = None" if "257 \<le> k" "k < 259" for k
  proof (rule ccontr)
    assume "ms_records st (tb_ident B k) \<noteq> None"
    then obtain j where "j < 257" "tb_ident B k = tb_ident B j" using past by blast
    with that show False using bench_idents[OF assms, of k j] by simp
  qed
  then have free: "ms_records st ?live = None" "ms_records st ?perm = None" by simp_all
  obtain h1 where one: "ms_store_session undisturbed (new_at B 257 (Some (now + seconds 3600)) (h_next h))
      (snd (alloc_family (session_data_of Map.empty) None False h), st) = (Ready (Inr (Some (tb_cookie B 257))),
       (h1, snd (state_insert ?live (saved_at B 257 (Some (now + seconds 3600)) (Suc (h_next h))) st)))"
    "h_next h1 = Suc (Suc (h_next h))" "\<not> h_destroy h1 (Suc (h_next h))"
    using saved_new_session[OF free(1), of "Some (now + seconds 3600)" h] by (elim exE conjE) (rule that)
  define live perm where "live = saved_at B 257 (Some (now + seconds 3600)) (Suc (h_next h))"
    and "perm = saved_at B 258 None (Suc (h_next h1))"
  define st1 where "st1 = snd (state_insert ?live live st)"
  have differ: "?perm \<noteq> ?live" using bench_idents[OF assms, of 258 257] by simp
  then have "ms_records st1 ?perm = None" using free(2) by (simp add: st1_def)
  from saved_new_session[OF this, of None h1] obtain h2 where two:
    "ms_store_session undisturbed (new_at B 258 None (h_next h1))
      (snd (alloc_family (session_data_of Map.empty) None False h1), st1) = (Ready (Inr (Some (tb_cookie B 258))),
       (h2, snd (state_insert ?perm (saved_at B 258 None (Suc (h_next h1))) st1)))"
    "h_next h2 = Suc (Suc (h_next h1))" "\<not> h_destroy h2 (Suc (h_next h1))" "\<forall>a < h_next h1. h_destroy h2 a = h_destroy h1 a"
    by (elim exE conjE) (rule that)
  define st2 where "st2 = snd (state_insert ?perm perm st1)"
  have inv2: "index_inv st2"
    using inv by (simp add: st2_def st1_def live_def perm_def saved_at_def index_inv_insert)
  have records: "ms_records st2 = (ms_records st)(?live \<mapsto> live, ?perm \<mapsto> perm)"
    by (simp add: st2_def st1_def fun_eq_iff)
  have live: "\<not> still_expired now st2 ?live" "\<not> still_expired now st2 ?perm"
    using differ by (simp_all add: records still_expired_iff live_def perm_def saved_at_def)
  have dead: "still_expired now st2 i" if "ms_records st i = Some s" "i \<noteq> ?live" "i \<noteq> ?perm" for i s
    using past[OF that(1)] that by (auto simp: records still_expired_iff e_def)
  define st3 where "st3 = snd (remove_expired_candidates undisturbed now (expired_candidates now 1000 st2) st2)"
  note removed = removed_candidates[OF inv2, of now 1000, folded st3_def]
  have "expired_ids now st2 \<subseteq> tb_ident B ` {0..<257}"
    using past live by (fastforce simp: expired_ids_def still_expired_iff records split: if_splits)
  then have small: "card (expired_ids now st2) \<le> 257" and fin: "finite (expired_ids now st2)"
    using surj_card_le[of "{0..<257}" "expired_ids now st2" "tb_ident B"] by (auto intro: finite_subset)
  have "finite (expired_ids now st3)" using fin by (simp add: removed(4))
  then have clean: "expired_ids now st3 = {}" using removed(5) small by simp
  have records3: "ms_records st3 i = (if i = ?live then Some live else if i = ?perm then Some perm else None)" for i
  proof -
    have "i \<notin> set (expired_candidates now 1000 st2)" if "\<not> still_expired now st2 i"
      using that mem.oldest_expired[OF inv2] by (auto simp: expired_ids_def)
    moreover have "ms_records st3 i = None" if "still_expired now st2 i"
      using that clean by (auto simp: removed(2) expired_ids_def still_expired_iff split: if_splits)
    ultimately show ?thesis
      using live dead differ by (cases "ms_records st i") (auto simp: removed(2) records split: if_splits)
  qed
  then have count: "ms_count st3 = 2"
  proof -
    have "dom (ms_records st3) = {?live, ?perm}" using records3 by (auto simp: dom_def)
    then show ?thesis using differ by (simp add: ms_count_def)
  qed
  have swept: "cleanup undisturbed now st2 = (Inr (), st3)"
    by (simp add: cleanup_def DEFAULT_CLEANUP_LIMIT_def cleanup_batch_eq apfst_def map_prod_def split_beta st3_def)
  have at: "Suc (h_next h) < h_next h2" "\<not> h_destroy h2 (Suc (h_next h))" using one two by simp_all
  obtain t1 h3 where load1: "tb_load B now (tb_cookie B 257) (h2, st3) = (Inr (Some t1), (h3, st3))"
      "h_next h2 \<le> h_next h3" "\<forall>a < h_next h2. h_destroy h3 a = h_destroy h2 a"
    using bench_session_loads[OF assms, of 257 st3 "Some (now + seconds 3600)" "Suc (h_next h)" h2 now] at
    by (auto simp: records3 live_def)
  obtain t2 h4 where load2: "tb_load B now (tb_cookie B 258) (h3, st3) = (Inr (Some t2), (h4, st3))"
    using bench_session_loads[OF assms, of 258 st3 None "Suc (h_next h1)" h3 now] two load1 differ
    by (auto simp: records3 perm_def)
  have new: "new_session B k g = Some (new_at B k None (h_next g), snd (alloc_family (session_data_of Map.empty) None False g))"
    if "k < 259" for k g
    using new_session_eq[OF assms that] by (simp add: new_at_def)
  have dated: "set_expiry x (new_at B k None n) = new_at B k (Some x) n" for x k n
    by (simp add: set_expiry_def new_at_def)
  show ?thesis
    using one(1) two(1) unfolding live_def[symmetric] perm_def[symmetric] st1_def[symmetric] st2_def[symmetric]
    by (simp add: cleanup_removes_expired_sessions_across_batches_def CLEANUP_BATCH_SIZE_def filled[unfolded e_def mult_1]
        new dated swept count load1(1) load2 del: upt_conv_Cons upt_Suc)
qed

end
