(* ===== verification/Cookie_Tests.thy ===== *)
theory Cookie_Tests
  imports Memory_Tests Diagnostics
begin

unbundle bit_operations_syntax

text \<open>
  The unit tests of \<open>src/cookie_store.rs\<close> and \<open>src/signed_cookie_store.rs\<close>, by their names
  there. Where two tests of the modules share a name, the one of the second is prefixed.
\<close>

subsection \<open>The codec of a test\<close>

definition codec_ready :: "codec \<Rightarrow> bool" where
  "codec_ready c \<longleftrightarrow> codec_laws c \<and> (\<forall>w. \<exists>bs. wc_to_stdvec c w = Inr bs)"

lemma codec_readyE:
  assumes "codec_ready c"
  obtains enc where "\<And>w. wc_to_stdvec c w = Inr (enc w)" and "\<And>w. wc_from_bytes c (enc w) = Inr w"
    and "\<And>w rest. wc_take_from_bytes c (enc w @ rest) = Inr (w, rest)"
    and "\<And>w. wc_take_from_bytes c (enc w) = Inr (w, [])"
    and "\<And>w n. length (enc w) \<le> n \<Longrightarrow> wc_to_slice c w n = Inr (enc w)"
proof -
  have laws: "codec_laws c" using assms by (simp add: codec_ready_def)
  obtain enc where enc: "\<And>w. wc_to_stdvec c w = Inr (enc w)"
    using assms unfolding codec_ready_def by metis
  show thesis
    by (rule that[of enc, OF enc codec_lawsD(3)[OF laws enc] codec_lawsD(1)[OF laws enc] codec_lawsD(2)[OF laws enc]])
       (simp add: codec_lawsD(4)[OF laws] enc)
qed

lemma bench_decodes: "bench_laws n B \<Longrightarrow> p_decode (tb_primitives B) (p_encode (tb_primitives B) bs) = Inr bs"
  by (simp add: bench_laws_def base64_laws_def)

subsection \<open>Unauthenticated cookies\<close>

definition cookie_creating_a_new_session_with_no_expiry ::
  "'v bench \<Rightarrow> codec \<Rightarrow> datetime \<Rightarrow> 'v \<Rightarrow> unit option" where
  "cookie_creating_a_new_session_with_no_expiry B c now hello =
     do {
       (s, h) \<leftarrow> new_session B 0 heap_empty;
       (_, h) \<leftarrow> unwrapped (session_insert (tb_to_json B) ''key'' hello s h);
       let cloned = session_clone s;
       (cookie_value, h) \<leftarrow> unwrapped_some (cookie_store_session (tb_primitives B) c id s h);
       (loaded, h) \<leftarrow> unwrapped_some (cookie_load_session (tb_primitives B) c now cookie_value h);
       _ \<leftarrow> assert_that (s_id cloned = s_id loaded);
       _ \<leftarrow> assert_that (session_get (tb_from_json B) ''key'' loaded h = Some hello);
       _ \<leftarrow> assert_that (\<not> is_expired now loaded);
       assert_that (session_validate now loaded \<noteq> None)
     }"

lemmas cookie_runs = session_runs cookie_store_session_def cookie_load_session_def wire_of_def session_of_wire_def
  session_validate_def expire_in_def set_expiry_def

lemma cookie_creating_passes:
  assumes "bench_laws 8 B" and "codec_ready c"
  shows "cookie_creating_a_new_session_with_no_expiry B c now hello = Some ()"
proof -
  obtain t where t: "tb_to_json B hello = Inr t" "tb_from_json B t = Some hello"
    by (rule bench_json[OF assms(1)])
  obtain enc where enc: "\<And>w. wc_to_stdvec c w = Inr (enc w)" "\<And>w. wc_from_bytes c (enc w) = Inr w"
    by (rule codec_readyE[OF assms(2)]) blast
  show ?thesis
    by (simp add: cookie_creating_a_new_session_with_no_expiry_def new_session_eq[OF assms(1)]
        bench_decodes[OF assms(1)] cookie_runs t enc)
qed

definition cookie_updating_a_session :: "'v bench \<Rightarrow> codec \<Rightarrow> datetime \<Rightarrow> 'v \<Rightarrow> 'v \<Rightarrow> unit option" where
  "cookie_updating_a_session B c now v other =
     do {
       (s, h) \<leftarrow> new_session B 0 heap_empty;
       (_, h) \<leftarrow> unwrapped (session_insert (tb_to_json B) ''key'' v s h);
       (cookie_value, h) \<leftarrow> unwrapped_some (cookie_store_session (tb_primitives B) c id s h);
       (s, h) \<leftarrow> unwrapped_some (cookie_load_session (tb_primitives B) c now cookie_value h);
       (_, h) \<leftarrow> unwrapped (session_insert (tb_to_json B) ''key'' other s h);
       (new_cookie_value, h) \<leftarrow> unwrapped_some (cookie_store_session (tb_primitives B) c id s h);
       (s, h) \<leftarrow> unwrapped_some (cookie_load_session (tb_primitives B) c now new_cookie_value h);
       assert_that (session_get (tb_from_json B) ''key'' s h = Some other)
     }"

lemma cookie_updating_passes:
  assumes "bench_laws 8 B" and "codec_ready c"
  shows "cookie_updating_a_session B c now v other = Some ()"
proof -
  obtain t where t: "tb_to_json B v = Inr t" "tb_from_json B t = Some v"
    by (rule bench_json[OF assms(1)])
  obtain t' where t': "tb_to_json B other = Inr t'" "tb_from_json B t' = Some other"
    by (rule bench_json[OF assms(1)])
  obtain enc where enc: "\<And>w. wc_to_stdvec c w = Inr (enc w)" "\<And>w. wc_from_bytes c (enc w) = Inr w"
    by (rule codec_readyE[OF assms(2)]) blast
  show ?thesis
    by (simp add: cookie_updating_a_session_def new_session_eq[OF assms(1)] bench_decodes[OF assms(1)]
        cookie_runs t t' enc)
qed

definition cookie_updating_a_session_extending_expiry ::
  "'v bench \<Rightarrow> codec \<Rightarrow> datetime \<Rightarrow> datetime \<Rightarrow> datetime \<Rightarrow> datetime \<Rightarrow> datetime \<Rightarrow> unit option" where
  "cookie_updating_a_session_extending_expiry B c now0 now1 now2 now3 now4 =
     do {
       (s, h) \<leftarrow> new_session B 0 heap_empty;
       s \<leftarrow> expire_in (nat (seconds 1)) now0 s;
       original_expires \<leftarrow> s_expiry s;
       (cookie_value, h) \<leftarrow> unwrapped_some (cookie_store_session (tb_primitives B) c id s h);
       (s, h) \<leftarrow> unwrapped_some (cookie_load_session (tb_primitives B) c now1 cookie_value h);
       _ \<leftarrow> assert_that (s_expiry s = Some original_expires);
       s \<leftarrow> expire_in (nat (seconds 3)) now2 s;
       new_expires \<leftarrow> s_expiry s;
       (cookie_value, h) \<leftarrow> unwrapped_some (cookie_store_session (tb_primitives B) c id s h);
       (s, h) \<leftarrow> unwrapped_some (cookie_load_session (tb_primitives B) c now3 cookie_value h);
       _ \<leftarrow> assert_that (s_expiry s = Some new_expires);
       (answer, h) \<leftarrow> unwrapped (cookie_load_session (tb_primitives B) c now4 cookie_value h);
       assert_that (answer = None)
     }"

lemma cookie_extending_passes:
  assumes "bench_laws 8 B" and "codec_ready c" and "now1 \<le> now0 + seconds 1" and "now3 \<le> now2 + seconds 3"
    and "now2 + seconds 3 < now4" and "now0 + seconds 1 \<le> datetime_max" and "now2 + seconds 3 \<le> datetime_max"
  shows "cookie_updating_a_session_extending_expiry B c now0 now1 now2 now3 now4 = Some ()"
proof -
  obtain enc where enc: "\<And>w. wc_to_stdvec c w = Inr (enc w)" "\<And>w. wc_from_bytes c (enc w) = Inr w"
    by (rule codec_readyE[OF assms(2)]) blast
  show ?thesis
    using assms(3-)
    by (simp add: cookie_updating_a_session_extending_expiry_def new_session_eq[OF assms(1)]
        bench_decodes[OF assms(1)] cookie_runs enc)
qed

definition cookie_creating_a_new_session_with_expiry ::
  "'v bench \<Rightarrow> codec \<Rightarrow> datetime \<Rightarrow> datetime \<Rightarrow> datetime \<Rightarrow> 'v \<Rightarrow> unit option" where
  "cookie_creating_a_new_session_with_expiry B c now0 now1 now2 v =
     do {
       (s, h) \<leftarrow> new_session B 0 heap_empty;
       s \<leftarrow> expire_in (nat (seconds 3)) now0 s;
       (_, h) \<leftarrow> unwrapped (session_insert (tb_to_json B) ''key'' v s h);
       let cloned = session_clone s;
       (cookie_value, h) \<leftarrow> unwrapped_some (cookie_store_session (tb_primitives B) c id s h);
       (loaded, h) \<leftarrow> unwrapped_some (cookie_load_session (tb_primitives B) c now1 cookie_value h);
       _ \<leftarrow> assert_that (s_id cloned = s_id loaded);
       _ \<leftarrow> assert_that (session_get (tb_from_json B) ''key'' loaded h = Some v);
       _ \<leftarrow> assert_that (\<not> is_expired now1 loaded);
       (answer, h) \<leftarrow> unwrapped (cookie_load_session (tb_primitives B) c now2 cookie_value h);
       assert_that (answer = None)
     }"

lemma cookie_expiry_passes:
  assumes "bench_laws 8 B" and "codec_ready c" and "now1 \<le> now0 + seconds 3" and "now0 + seconds 3 < now2"
    and "now0 + seconds 3 \<le> datetime_max"
  shows "cookie_creating_a_new_session_with_expiry B c now0 now1 now2 v = Some ()"
proof -
  obtain t where t: "tb_to_json B v = Inr t" "tb_from_json B t = Some v"
    by (rule bench_json[OF assms(1)])
  obtain enc where enc: "\<And>w. wc_to_stdvec c w = Inr (enc w)" "\<And>w. wc_from_bytes c (enc w) = Inr w"
    by (rule codec_readyE[OF assms(2)]) blast
  show ?thesis
    using assms(3-)
    by (simp add: cookie_creating_a_new_session_with_expiry_def new_session_eq[OF assms(1)]
        bench_decodes[OF assms(1)] cookie_runs t enc)
qed

subsection \<open>Signed cookies\<close>

definition KEY :: "byte list" where
  "KEY = replicate 32 42"

definition OTHER_KEY :: "byte list" where
  "OTHER_KEY = replicate 32 99"

lemma key_lengths [simp]: "length KEY = 32" "length OTHER_KEY = 32"
  by (simp_all add: KEY_def OTHER_KEY_def)

text \<open>A session whose serialization fits a cookie, the one that is given.\<close>

definition fits_cookie :: "codec \<Rightarrow> wire_session \<Rightarrow> byte list \<Rightarrow> bool" where
  "fits_cookie c w bs \<longleftrightarrow> wc_to_stdvec c w = Inr bs \<and> length bs \<le> MAX_BINARY_LEN - TAG_LEN"

lemma fits_cookieD:
  assumes "codec_laws c" and "fits_cookie c w bs"
  shows "wc_to_slice c w 2815 = Inr bs" and "wc_take_from_bytes c bs = Inr (w, [])"
    and "wc_to_stdvec c w = Inr bs" and "length bs \<le> 2815"
    and "wc_take_from_bytes c (bs @ rest) = Inr (w, rest)"
  using assms codec_lawsD(1,2,4)[OF assms(1)] by (auto simp: fits_cookie_def)

text \<open>A cookie with a tag of the right length.\<close>

lemma load_tagged:
  assumes "bench_laws n B" and "length tag = 32" and "length bs \<le> 2815"
  shows "signed_load_session (tb_primitives B) c hmac now st (PREFIX @ p_encode (tb_primitives B) (tag @ bs)) h =
    (if list_ex (\<lambda>key. signed_mac hmac key bs = tag) (ss_signing_key st # ss_fallback_keys st)
     then case wc_take_from_bytes c bs of
        Inl _ \<Rightarrow> (Inr None, h)
      | Inr (w, rest) \<Rightarrow>
          (let (s, h1) = session_of_wire w h in
           if rest \<noteq> [] then (Inr None, h1) else (Inr (session_validate now s), h1))
     else (Inr None, h))"
    (is "signed_load_session _ _ _ _ _ ?cookie _ = _")
proof -
  have "length ?cookie = 3 + 4 * ((length bs + 34) div 3)"
    using assms(1,2) by (simp add: bench_laws_def base64_laws_def add.commute)
  moreover have "(length bs + 34) div 3 \<le> 2849 div 3"
    using assms(3) by (intro div_le_mono) simp
  ultimately have "length ?cookie \<le> 3800" by simp
  then show ?thesis
    using assms(2) bench_decodes[OF assms(1)]
    by (simp add: signed_load_session_def split_at_checked_def not_less[symmetric])
qed

lemma cookie_length:
  assumes "bench_laws n B" and "hmac_laws hmac" and "length bs \<le> 2815"
  shows "length (PREFIX @ p_encode (tb_primitives B) (signed_mac hmac key bs @ bs)) \<le> 3800"
  using signed_cookie_length[of "tb_primitives B", OF _ assms(2,3), of key] assms(1)
  by (simp add: bench_laws_def del: length_append)

lemmas signed_runs = session_runs signed_new_def signed_key_def with_fallback_key_def signed_store_session_def
  serialize_bounded_def session_of_wire_def
  session_validate_def expire_in_def set_expiry_def

definition authenticated_roundtrip_and_expiry ::
  "'v bench \<Rightarrow> codec \<Rightarrow> hmac \<Rightarrow> datetime \<Rightarrow> datetime \<Rightarrow> 'v \<Rightarrow> unit option" where
  "authenticated_roundtrip_and_expiry B c hmac now later v =
     do {
       store \<leftarrow> ok (signed_new KEY);
       (s, h) \<leftarrow> new_session B 0 heap_empty;
       (_, h) \<leftarrow> unwrapped (session_insert (tb_to_json B) ''user_id'' v s h);
       s \<leftarrow> expire_in (nat (seconds 1800)) now s;
       expiry \<leftarrow> s_expiry s;
       (cookie, h) \<leftarrow> unwrapped_some (signed_store_session (tb_primitives B) c hmac id store s h);
       _ \<leftarrow> assert_that (length cookie \<le> MAX_VALUE_LEN);
       (loaded, h) \<leftarrow> unwrapped_some (signed_load_session (tb_primitives B) c hmac later store cookie h);
       _ \<leftarrow> assert_that (session_get (tb_from_json B) ''user_id'' loaded h = Some v);
       _ \<leftarrow> assert_that (s_expiry loaded = Some expiry);
       _ \<leftarrow> assert_that (\<not> data_changed loaded h);
       (expired, h) \<leftarrow> new_session B 1 h;
       let expired = set_expiry (now - seconds 1) expired;
       (cookie, h) \<leftarrow> unwrapped_some (signed_store_session (tb_primitives B) c hmac id store expired h);
       (answer, h) \<leftarrow> unwrapped (signed_load_session (tb_primitives B) c hmac later store cookie h);
       assert_that (answer = None)
     }"

lemma authenticated_roundtrip_passes:
  assumes "bench_laws 8 B" and "codec_laws c" and "hmac_laws hmac" and "tb_to_json B v = Inr t"
    and "fits_cookie c (tb_ident B 0, Some (now + seconds 1800), [''user_id'' \<mapsto> t]) bs0"
    and "fits_cookie c (tb_ident B 1, Some (now - seconds 1), Map.empty) bs1"
    and "now \<le> later" and "later \<le> now + seconds 1800" and "now + seconds 1800 \<le> datetime_max"
  shows "authenticated_roundtrip_and_expiry B c hmac now later v = Some ()"
proof -
  have v: "tb_from_json B t = Some v"
    using bench_json[OF assms(1), of v] assms(4) by (metis sum.inject(2))
  note wires = fits_cookieD[OF assms(2,5)] fits_cookieD[OF assms(2,6)]
  show ?thesis
    using assms(7-9)
    by (simp add: authenticated_roundtrip_and_expiry_def new_session_eq[OF assms(1)] signed_runs v assms(4) wires[simplified]
        load_tagged[OF assms(1)] signed_mac_length[OF assms(3)] cookie_length[OF assms(1,3), simplified])
qed

definition fallback_keys_verify_but_never_sign ::
  "'v bench \<Rightarrow> codec \<Rightarrow> hmac \<Rightarrow> datetime \<Rightarrow> unit option" where
  "fallback_keys_verify_but_never_sign B c hmac now =
     do {
       old \<leftarrow> ok (signed_new KEY);
       current \<leftarrow> ok (signed_new OTHER_KEY);
       rotating \<leftarrow> ok (with_fallback_key KEY current);
       (s, h) \<leftarrow> new_session B 0 heap_empty;
       (old_cookie, h) \<leftarrow> unwrapped_some (signed_store_session (tb_primitives B) c hmac id old s h);
       (_, h) \<leftarrow> unwrapped_some (signed_load_session (tb_primitives B) c hmac now rotating old_cookie h);
       (answer, h) \<leftarrow> unwrapped (signed_load_session (tb_primitives B) c hmac now current old_cookie h);
       _ \<leftarrow> assert_that (answer = None);
       (s, h) \<leftarrow> new_session B 1 h;
       (new_cookie, h) \<leftarrow> unwrapped_some (signed_store_session (tb_primitives B) c hmac id rotating s h);
       (_, h) \<leftarrow> unwrapped_some (signed_load_session (tb_primitives B) c hmac now current new_cookie h);
       (answer, h) \<leftarrow> unwrapped (signed_load_session (tb_primitives B) c hmac now old new_cookie h);
       assert_that (answer = None)
     }"

lemma fallback_keys_pass:
  assumes "bench_laws 8 B" and "codec_laws c" and "hmac_laws hmac"
    and "fits_cookie c (tb_ident B 0, None, Map.empty) bs0" and "fits_cookie c (tb_ident B 1, None, Map.empty) bs1"
    and "signed_mac hmac KEY bs0 \<noteq> signed_mac hmac OTHER_KEY bs0"
    and "signed_mac hmac KEY bs1 \<noteq> signed_mac hmac OTHER_KEY bs1"
  shows "fallback_keys_verify_but_never_sign B c hmac now = Some ()"
proof -
  note wires = fits_cookieD[OF assms(2,4)] fits_cookieD[OF assms(2,5)]
  show ?thesis
    by (simp add: fallback_keys_verify_but_never_sign_def new_session_eq[OF assms(1)] signed_runs wires[simplified]
        load_tagged[OF assms(1)] signed_mac_length[OF assms(3)] assms(6,7) assms(6,7)[symmetric])
qed

text \<open>
  \<open>unsigned\<close> is \<open>serialized\<close> in Base64, which has no dot, and nobody has guessed a tag: with these
  premises the forgeries of the test are rejected.
\<close>

definition rejects_forgery_tampering_and_wrong_keys ::
  "'v bench \<Rightarrow> codec \<Rightarrow> hmac \<Rightarrow> datetime \<Rightarrow> 'v \<Rightarrow> unit option" where
  "rejects_forgery_tampering_and_wrong_keys B c hmac now admin =
     do {
       let p = tb_primitives B;
       store \<leftarrow> ok (signed_new KEY);
       (forged, h) \<leftarrow> new_session B 0 heap_empty;
       (_, h) \<leftarrow> unwrapped (session_insert (tb_to_json B) ''role'' admin forged h);
       (unsigned, h) \<leftarrow> unwrapped_some (cookie_store_session p c id forged h);
       (answer, h) \<leftarrow> unwrapped (signed_load_session p c hmac now store unsigned h);
       _ \<leftarrow> assert_that (answer = None);
       (answer, h) \<leftarrow> unwrapped (signed_load_session p c hmac now store (PREFIX @ unsigned) h);
       _ \<leftarrow> assert_that (answer = None);
       (s, h) \<leftarrow> new_session B 1 h;
       (cookie, h) \<leftarrow> unwrapped_some (signed_store_session p c hmac id store s h);
       wrong_key \<leftarrow> ok (signed_new OTHER_KEY);
       (answer, h) \<leftarrow> unwrapped (signed_load_session p c hmac now wrong_key cookie h);
       _ \<leftarrow> assert_that (answer = None);
       encoded \<leftarrow> strip_prefix PREFIX cookie;
       original \<leftarrow> ok (p_decode p encoded);
       assert_that (list_all (\<lambda>position.
         fst (signed_load_session p c hmac now store
           (PREFIX @ p_encode p (original[position := original ! position XOR 1])) h) = Inr None)
         [0, TAG_LEN, length original - 1])
     }"

lemma load_rejected:
  assumes "bench_laws n B"
    and "\<forall>key \<in> set (ss_signing_key st # ss_fallback_keys st). signed_mac hmac key (drop 32 bs) \<noteq> take 32 bs"
  shows "signed_load_session (tb_primitives B) c hmac now st (PREFIX @ p_encode (tb_primitives B) bs) h = (Inr None, h)"
  using assms(2) bench_decodes[OF assms(1)]
  by (auto simp: signed_load_session_def split_at_checked_def list_ex_iff split: option.splits)

lemma xor_one [simp]: "(a :: byte) XOR 1 \<noteq> a"
proof
  assume "a XOR 1 = a"
  then have "a XOR (a XOR 1) = 0" by simp
  moreover have "a XOR (a XOR 1) = 1" by (simp flip: xor.assoc)
  ultimately show False by simp
qed

lemma tampered_tag:
  fixes tag :: "byte list"
  assumes "length tag = 32"
  shows "take 32 ((tag @ bs)[0 := (tag @ bs) ! 0 XOR 1]) \<noteq> tag" (is "?new \<noteq> _")
    and "drop 32 ((tag @ bs)[0 := (tag @ bs) ! 0 XOR 1]) = bs"
proof -
  have tag: "tag \<noteq> []" using assms by auto
  then have "?new ! 0 = tag ! 0 XOR 1" using assms by (simp add: list_update_append nth_append)
  then show "?new \<noteq> tag" by (metis xor_one)
  show "drop 32 ((tag @ bs)[0 := (tag @ bs) ! 0 XOR 1]) = bs"
    using assms tag by (simp add: list_update_append)
qed

lemma tampered_payload:
  fixes tag :: "byte list"
  assumes "length tag = 32" and "i < length bs"
  shows "take 32 ((tag @ bs)[32 + i := (tag @ bs) ! (32 + i) XOR 1]) = tag"
    and "drop 32 ((tag @ bs)[32 + i := (tag @ bs) ! (32 + i) XOR 1]) = bs[i := bs ! i XOR 1]"
  using assms by (simp_all add: list_update_append nth_append)

lemma rejects_forgery_passes:
  assumes "bench_laws 8 B" and "codec_laws c" and "hmac_laws hmac"
    and "tb_to_json B admin = Inr t" and "wc_to_stdvec c (tb_ident B 0, None, [''role'' \<mapsto> t]) = Inr forged"
    and "strip_prefix PREFIX (p_encode (tb_primitives B) forged) = None"
    and "signed_mac hmac KEY (drop 32 forged) \<noteq> take 32 forged"
    and "fits_cookie c (tb_ident B 1, None, Map.empty) bs" and "bs \<noteq> []"
    and "signed_mac hmac OTHER_KEY bs \<noteq> signed_mac hmac KEY bs"
    and "\<forall>i < length bs. signed_mac hmac KEY (bs[i := bs ! i XOR 1]) \<noteq> signed_mac hmac KEY bs"
  shows "rejects_forgery_tampering_and_wrong_keys B c hmac now admin = Some ()"
proof -
  let ?p = "tb_primitives B" and ?tag = "signed_mac hmac KEY bs"
  let ?st = "\<lparr>ss_signing_key = KEY, ss_fallback_keys = []\<rparr>"
  have tag: "length ?tag = 32" by (rule signed_mac_length[OF assms(3)])
  note wires = fits_cookieD[OF assms(2,8)]
  have unsigned: "signed_load_session ?p c hmac now ?st (p_encode ?p forged) h = (Inr None, h)" for h
    by (simp add: signed_load_session_def assms(6))
  have forged: "signed_load_session ?p c hmac now ?st (PREFIX @ p_encode ?p forged) h = (Inr None, h)" for h
    by (rule load_rejected[OF assms(1)]) (simp add: assms(7))
  have wrong: "signed_load_session ?p c hmac now \<lparr>ss_signing_key = OTHER_KEY, ss_fallback_keys = []\<rparr>
      (PREFIX @ p_encode ?p (?tag @ bs)) h = (Inr None, h)" for h
    by (rule load_rejected[OF assms(1)]) (simp add: assms(10) tag)
  have first: "signed_load_session ?p c hmac now ?st
      (PREFIX @ p_encode ?p ((?tag @ bs)[0 := (?tag @ bs) ! 0 XOR 1])) h = (Inr None, h)" for h
    by (rule load_rejected[OF assms(1)]) (use tampered_tag[OF tag, of bs] in auto)
  have later: "signed_load_session ?p c hmac now ?st
      (PREFIX @ p_encode ?p ((?tag @ bs)[32 + i := (?tag @ bs) ! (32 + i) XOR 1])) h = (Inr None, h)"
    if "i < length bs" for h i
    by (rule load_rejected[OF assms(1)]) (use assms(11) that in \<open>simp add: tampered_payload[OF tag that]\<close>)
  have last_position: "length (?tag @ bs) - 1 = 32 + (length bs - 1)"
    using tag assms(9) by (cases bs) simp_all
  have tampered: "list_all (\<lambda>i. fst (signed_load_session ?p c hmac now ?st
      (PREFIX @ p_encode ?p ((?tag @ bs)[i := (?tag @ bs) ! i XOR 1])) h) = Inr None)
      [0, 32, length (?tag @ bs) - 1]" for h
    unfolding last_position using first[of h] later[of 0 h] later[of "length bs - 1" h] assms(9) by simp
  show ?thesis
    by (simp add: rejects_forgery_tampering_and_wrong_keys_def new_session_eq[OF assms(1)] signed_runs wires[simplified]
        cookie_store_session_def wire_of_def assms(4,5) unsigned forged wrong bench_decodes[OF assms(1)]
        tampered[simplified])
qed

definition signed_test_cookie :: "primitives \<Rightarrow> hmac \<Rightarrow> byte list \<Rightarrow> string" where
  "signed_test_cookie p hmac payload = PREFIX @ p_encode p (signed_mac hmac KEY payload @ payload)"

definition rejects_malformed_versions_and_oversized_cookies ::
  "'v bench \<Rightarrow> codec \<Rightarrow> hmac \<Rightarrow> datetime \<Rightarrow> unit option" where
  "rejects_malformed_versions_and_oversized_cookies B c hmac now =
     do {
       let p = tb_primitives B;
       store \<leftarrow> ok (signed_new KEY);
       let rejected = (\<lambda>value h. fst (signed_load_session p c hmac now store value h) = Inr None);
       _ \<leftarrow> assert_that (list_all (\<lambda>value. rejected value heap_empty) [[], ''s2.AAAA'', ''s1.!'', ''s1.AAAA'']);
       _ \<leftarrow> assert_that (rejected (replicate (MAX_VALUE_LEN + 1) CHR ''A'') heap_empty);
       (large, h) \<leftarrow> new_session B 0 heap_empty;
       let h = insert_raw ''large'' (replicate MAX_VALUE_LEN CHR ''A'') large h;
       _ \<leftarrow> assert_that (refused (signed_store_session p c hmac id store large h));
       _ \<leftarrow> assert_that (list_all (\<lambda>payload. rejected (signed_test_cookie p hmac payload) h)
         [map byte_of_char ''invalid postcard'', []]);
       (s, h) \<leftarrow> new_session B 1 h;
       serialized \<leftarrow> ok (wc_to_stdvec c (wire_of s h));
       assert_that (rejected (signed_test_cookie p hmac (serialized @ [0])) h)
     }"

text \<open>
  What the test says of Base64 and of \<open>postcard\<close>: an exclamation mark is no text of the first,
  \<open>AAAA\<close> are three bytes, and neither payload is a session.
\<close>

lemma rejects_malformed_passes:
  assumes "bench_laws 8 B" and "codec_laws c" and "hmac_laws hmac"
    and "p_decode (tb_primitives B) ''!'' = Inl e" and "p_decode (tb_primitives B) ''AAAA'' = Inr [0, 0, 0]"
    and "wc_take_from_bytes c (map byte_of_char ''invalid postcard'') = Inl e1" and "wc_take_from_bytes c [] = Inl e2"
    and "wc_to_slice c (tb_ident B 0, None, [''large'' \<mapsto> replicate MAX_VALUE_LEN CHR ''A'']) 2815 = Inl e3"
    and "wc_to_stdvec c (tb_ident B 1, None, Map.empty) = Inr bs" and "length bs < 2815"
  shows "rejects_malformed_versions_and_oversized_cookies B c hmac now = Some ()"
proof -
  let ?st = "\<lparr>ss_signing_key = KEY, ss_fallback_keys = []\<rparr>"
  note load = load_tagged[OF assms(1) signed_mac_length[OF assms(3)], of _ c hmac now ?st KEY]
  have bad: "fst (signed_load_session (tb_primitives B) c hmac now ?st x h) = Inr None"
    if "x \<in> {[], ''s2.AAAA'', ''s1.!'', ''s1.AAAA''}" for x h
    using that assms(4,5)
    by (auto simp: signed_load_session_def strip_prefix_def PREFIX_def split_at_checked_def)
  have long: "fst (signed_load_session (tb_primitives B) c hmac now ?st (replicate 3801 x) h) = Inr None"
    for x h by (simp add: signed_load_session_def)
  have trailing: "wc_take_from_bytes c (bs @ [0]) = Inr ((tb_ident B 1, None, Map.empty), [0])"
    by (rule codec_lawsD(1)[OF assms(2,9)])
  have payloads: "fst (signed_load_session (tb_primitives B) c hmac now ?st
      (signed_test_cookie (tb_primitives B) hmac payload) h) = Inr None"
    if "payload \<in> {map byte_of_char ''invalid postcard'', [], bs @ [0]}" for payload h
    using that assms(6,7,10) load[of "[]"] by (auto simp: signed_test_cookie_def load trailing split_beta)
  have large: "refused (signed_store_session (tb_primitives B) c hmac id ?st s h)"
    if "wire_of s h = (tb_ident B 0, None, [''large'' \<mapsto> replicate MAX_VALUE_LEN CHR ''A''])" for s h
    using that assms(8) by (simp add: signed_store_session_def serialize_bounded_def wire_of_def)
  have store: "signed_new KEY = Inr ?st" by (simp add: signed_new_def signed_key_def)
  have wires: "wire_of \<lparr>s_id = i, s_expiry = None, s_data = d, s_cookie_value = x, s_metadata_changed = y,
      s_persisted_id = a, s_rotation_from = None, s_fresh = True, s_creation_claimed = b, s_lifecycle = l,
      s_destroy = f\<rparr> h = (i, None, sd_values (h_data h d))" for i d x y a b l f h
    by (simp add: wire_of_def)
  show ?thesis
    unfolding rejects_malformed_versions_and_oversized_cookies_def store
    by (simp add: new_session_eq[OF assms(1)] bad long large payloads wires insert_raw_def insert_raw_data_def
        assms(9)[simplified] Let_def del: replicate.simps)
qed

definition contains :: "string \<Rightarrow> string \<Rightarrow> bool" where
  "contains pat s \<longleftrightarrow> list_ex (\<lambda>n. take (length pat) (drop n s) = pat) [0..<Suc (length s)]"

definition requires_strong_keys_and_redacts_debug :: "unit option" where
  "requires_strong_keys_and_redacts_debug =
     do {
       _ \<leftarrow> assert_that (refused (signed_new [], ()));
       _ \<leftarrow> assert_that (refused (signed_new (replicate 31 0), ()));
       store \<leftarrow> ok (signed_new KEY);
       _ \<leftarrow> assert_that (refused (with_fallback_key (replicate 31 0) store, ()));
       store \<leftarrow> ok (signed_new (map byte_of_char ''a-secret-key-that-must-never-be-logged''));
       assert_that (\<not> contains ''secret'' (render (signed_store_debug store)))
     }"

lemma requires_strong_keys_passes: "requires_strong_keys_and_redacts_debug = Some ()"
proof -
  have "render (signed_store_debug \<lparr>ss_signing_key = k, ss_fallback_keys = []\<rparr>) =
      ''SignedCookieStore { fallback_key_count: 0, .. }''" for k
    by (simp add: signed_store_debug_def show_nat.simps)
  moreover have "\<not> contains ''secret'' ''SignedCookieStore { fallback_key_count: 0, .. }''"
    by code_simp
  ultimately show ?thesis
    by (simp add: requires_strong_keys_and_redacts_debug_def signed_new_def signed_key_def with_fallback_key_def)
qed

end
