(* ===== verification/Backend_Tests.thy ===== *)
theory Backend_Tests
  imports Test_Bench Redis_Store Mongo_Store
begin

text \<open>
  The unit tests of \<open>src/redis_store.rs\<close> and \<open>src/mongodb_store.rs\<close>, by their names there. They
  have no parameters: each one is a closed computation.
\<close>

subsection \<open>Redis\<close>

definition redis_ttl_rounds_up_to_milliseconds :: "unit option" where
  "redis_ttl_rounds_up_to_milliseconds =
     do {
       _ \<leftarrow> assert_that (ttl_millis 0 = Inr 1);
       _ \<leftarrow> assert_that (ttl_millis 1 = Inr 1);
       _ \<leftarrow> assert_that (ttl_millis (1001 * 1000) = Inr 2);
       assert_that (ttl_millis (1999 * 1000000) = Inr 1999)
     }"

lemma redis_ttl_passes: "redis_ttl_rounds_up_to_milliseconds = Some ()"
  by (simp add: redis_ttl_rounds_up_to_milliseconds_def ttl_millis_def div_ceil_def)

text \<open>0x5C is the backslash.\<close>

definition scan_prefix_escapes_glob_metacharacters :: "unit option" where
  "scan_prefix_escapes_glob_metacharacters =
     do {
       _ \<leftarrow> assert_that (prefix_pattern (''app*?[]'' @ [CHR 0x5C] @ ''/'') =
         ''app'' @ concat (map (\<lambda>x. [CHR 0x5C, x]) (''*?[]'' @ [CHR 0x5C])) @ ''/*'');
       _ \<leftarrow> assert_that (prefix_pattern ''plain/'' = ''plain/*'');
       assert_that (prefix_pattern [] = ''*'')
     }"

lemma scan_prefix_passes: "scan_prefix_escapes_glob_metacharacters = Some ()"
  by code_simp

subsection \<open>MongoDB\<close>

definition ttl_timestamp_rounds_up_including_before_epoch :: "unit option" where
  "ttl_timestamp_rounds_up_including_before_epoch =
     assert_that (list_all (\<lambda>(nanos, millis). sint (expiry_datetime nanos) = millis)
       [(0, 0), (1, 1), (1000000, 1), (1000001, 2), (999999999, 1000), (- 1, 0), (- 1000001, - 1)])"

lemma ttl_timestamp_passes: "ttl_timestamp_rounds_up_including_before_epoch = Some ()"
  by (simp add: ttl_timestamp_rounds_up_including_before_epoch_def expiry_datetime_def unix_timestamp_def
      nanosecond_def div_ceil_def)

end
