(* ===== verification/Doc_Examples.thy ===== *)
theory Doc_Examples
  imports Test_Bench
begin

text \<open>
  The examples in the documentation of \<open>src/session.rs\<close>, which the crate runs as tests, named
  after the method they document. As in the unit tests, what an example achieves by sleeping is
  a premise about the readings of the clock.
\<close>

subsection \<open>Change tracking\<close>

definition change_tracking_example :: "'v bench \<Rightarrow> 'v \<Rightarrow> 'v \<Rightarrow> unit option" where
  "change_tracking_example B one two =
     do {
       (s, h) \<leftarrow> new_session B 0 heap_empty;
       _ \<leftarrow> assert_that (\<not> data_changed s h);
       (_, h) \<leftarrow> unwrapped (session_insert (tb_to_json B) ''key'' one s h);
       _ \<leftarrow> assert_that (data_changed s h);
       let (s, h) = reset_data_changed s h;
       _ \<leftarrow> assert_that (session_get (tb_from_json B) ''key'' s h = Some one);
       _ \<leftarrow> assert_that (\<not> data_changed s h);
       (_, h) \<leftarrow> unwrapped (session_insert (tb_to_json B) ''key'' two s h);
       _ \<leftarrow> assert_that (data_changed s h);
       _ \<leftarrow> assert_that (session_get (tb_from_json B) ''key'' s h = Some two);
       (_, h) \<leftarrow> unwrapped (session_insert (tb_to_json B) ''key'' one s h);
       _ \<leftarrow> assert_that (data_changed s h);
       let (s, h) = reset_data_changed s h;
       _ \<leftarrow> assert_that (\<not> data_changed s h);
       let h = session_remove ''nonexistent key'' s h;
       _ \<leftarrow> assert_that (\<not> data_changed s h);
       let h = session_remove ''key'' s h;
       assert_that (data_changed s h)
     }"

lemma change_tracking_example_holds:
  assumes "bench_laws 8 B" and "one \<noteq> two"
  shows "change_tracking_example B one two = Some ()"
proof -
  obtain t where t: "tb_to_json B one = Inr t" "tb_from_json B t = Some one"
    by (rule bench_json[OF assms(1)])
  obtain t2 where t2: "tb_to_json B two = Inr t2" "tb_from_json B t2 = Some two"
    by (rule bench_json[OF assms(1)])
  have "t \<noteq> t2" using t(2) t2(2) assms(2) by auto
  then show ?thesis
    by (simp add: change_tracking_example_def new_session_eq[OF assms(1)] session_runs session_remove_def
        remove_data_def t t2)
qed

definition data_changed_example :: "'v bench \<Rightarrow> 'v \<Rightarrow> unit option" where
  "data_changed_example B one =
     do {
       (s, h) \<leftarrow> new_session B 0 heap_empty;
       _ \<leftarrow> assert_that (\<not> data_changed s h);
       (_, h) \<leftarrow> unwrapped (session_insert (tb_to_json B) ''key'' one s h);
       _ \<leftarrow> assert_that (data_changed s h);
       let (s, h) = reset_data_changed s h;
       _ \<leftarrow> assert_that (\<not> data_changed s h);
       let h = session_remove ''key'' s h;
       assert_that (data_changed s h)
     }"

lemma data_changed_example_holds:
  assumes "bench_laws 8 B"
  shows "data_changed_example B one = Some ()"
proof -
  obtain t where "tb_to_json B one = Inr t" by (rule bench_json[OF assms])
  then show ?thesis
    by (simp add: data_changed_example_def new_session_eq[OF assms] session_runs session_remove_def remove_data_def)
qed

subsection \<open>Identity and cookies\<close>

definition new_example :: "'v bench \<Rightarrow> unit option" where
  "new_example B =
     do {
       (s, h) \<leftarrow> new_session B 0 heap_empty;
       _ \<leftarrow> assert_that (s_expiry s = None);
       assert_that (into_cookie_value s \<noteq> None)
     }"

definition id_from_cookie_value_example :: "'v bench \<Rightarrow> unit option" where
  "id_from_cookie_value_example B =
     do {
       (s, h) \<leftarrow> new_session B 0 heap_empty;
       let ident = s_id s;
       cookie_value \<leftarrow> into_cookie_value s;
       assert_that (id_from_cookie_value (tb_primitives B) cookie_value = Inr ident)
     }"

definition destroy_example :: "'v bench \<Rightarrow> unit option" where
  "destroy_example B =
     do {
       (s, h) \<leftarrow> new_session B 0 heap_empty;
       _ \<leftarrow> assert_that (\<not> is_destroyed s h);
       let h = session_destroy s h;
       assert_that (is_destroyed s h)
     }"

definition regenerate_example :: "'v bench \<Rightarrow> unit option" where
  "regenerate_example B =
     do {
       (s, h) \<leftarrow> new_session B 0 heap_empty;
       let old_id = s_id s;
       s \<leftarrow> regenerated B 1 s h;
       _ \<leftarrow> assert_that (s_id s \<noteq> old_id);
       let new_id = s_id s;
       cookie_value \<leftarrow> into_cookie_value s;
       assert_that (id_from_cookie_value (tb_primitives B) cookie_value = Inr new_id)
     }"

definition set_cookie_value_example :: "'v bench \<Rightarrow> unit option" where
  "set_cookie_value_example B =
     do {
       (s, h) \<leftarrow> new_session B 0 heap_empty;
       let s = set_cookie_value ''hello'' s;
       cookie_value \<leftarrow> into_cookie_value s;
       assert_that (cookie_value = ''hello'')
     }"

lemma identity_examples_hold:
  assumes "bench_laws 8 B"
  shows "new_example B = Some ()" "id_from_cookie_value_example B = Some ()" "destroy_example B = Some ()"
    "regenerate_example B = Some ()" "set_cookie_value_example B = Some ()"
  by (simp_all add: new_example_def id_from_cookie_value_example_def destroy_example_def regenerate_example_def
      set_cookie_value_example_def new_session_eq[OF assms] bench_parses[OF assms] regenerated_eq[OF assms]
      bench_idents[OF assms] session_runs session_destroy_def set_cookie_value_def)

subsection \<open>Values\<close>

definition insert_example :: "'v bench \<Rightarrow> 'v \<Rightarrow> string \<Rightarrow> unit option" where
  "insert_example B user text =
     do {
       (s, h) \<leftarrow> new_session B 0 heap_empty;
       (_, h) \<leftarrow> unwrapped (session_insert (tb_to_json B) ''user'' user s h);
       assert_that (get_raw ''user'' s h = Some text)
     }"

definition insert_raw_example :: "'v bench \<Rightarrow> 'v \<Rightarrow> unit option" where
  "insert_raw_example B ten =
     do {
       (s, h) \<leftarrow> new_session B 0 heap_empty;
       let h = insert_raw ''ten'' ''10'' s h;
       assert_that (session_get (tb_from_json B) ''ten'' s h = Some ten)
     }"

definition get_example :: "'v bench \<Rightarrow> 'v \<Rightarrow> unit option" where
  "get_example B numbers =
     do {
       (s, h) \<leftarrow> new_session B 0 heap_empty;
       (_, h) \<leftarrow> unwrapped (session_insert (tb_to_json B) ''key'' numbers s h);
       assert_that (session_get (tb_from_json B) ''key'' s h = Some numbers)
     }"

definition get_raw_example :: "'v bench \<Rightarrow> 'v \<Rightarrow> unit option" where
  "get_raw_example B numbers =
     do {
       (s, h) \<leftarrow> new_session B 0 heap_empty;
       (_, h) \<leftarrow> unwrapped (session_insert (tb_to_json B) ''key'' numbers s h);
       assert_that (get_raw ''key'' s h = Some ''[1,2,3]'')
     }"

definition remove_example :: "'v bench \<Rightarrow> 'v \<Rightarrow> unit option" where
  "remove_example B v =
     do {
       (s, h) \<leftarrow> new_session B 0 heap_empty;
       (_, h) \<leftarrow> unwrapped (session_insert (tb_to_json B) ''key'' v s h);
       let h = session_remove ''key'' s h;
       _ \<leftarrow> assert_that (get_raw ''key'' s h = None);
       assert_that (session_len s h = 0)
     }"

definition len_example :: "'v bench \<Rightarrow> 'v \<Rightarrow> unit option" where
  "len_example B zero =
     do {
       (s, h) \<leftarrow> new_session B 0 heap_empty;
       _ \<leftarrow> assert_that (session_len s h = 0);
       (_, h) \<leftarrow> unwrapped (session_insert (tb_to_json B) ''key'' zero s h);
       assert_that (session_len s h = 1)
     }"

definition is_empty_example :: "'v bench \<Rightarrow> 'v \<Rightarrow> unit option" where
  "is_empty_example B zero =
     do {
       (s, h) \<leftarrow> new_session B 0 heap_empty;
       _ \<leftarrow> assert_that (session_is_empty s h);
       (_, h) \<leftarrow> unwrapped (session_insert (tb_to_json B) ''key'' zero s h);
       assert_that (\<not> session_is_empty s h)
     }"

lemma value_examples_hold:
  assumes "bench_laws 8 B"
  shows "tb_to_json B v = Inr t \<Longrightarrow> insert_example B v t = Some ()"
    "tb_from_json B ''10'' = Some v \<Longrightarrow> insert_raw_example B v = Some ()"
    "get_example B v = Some ()"
    "tb_to_json B v = Inr ''[1,2,3]'' \<Longrightarrow> get_raw_example B v = Some ()"
    "remove_example B v = Some ()" "len_example B v = Some ()" "is_empty_example B v = Some ()"
proof -
  obtain t' where "tb_to_json B v = Inr t'" "tb_from_json B t' = Some v" by (rule bench_json[OF assms])
  then show "tb_to_json B v = Inr t \<Longrightarrow> insert_example B v t = Some ()"
    "tb_from_json B ''10'' = Some v \<Longrightarrow> insert_raw_example B v = Some ()"
    "get_example B v = Some ()"
    "tb_to_json B v = Inr ''[1,2,3]'' \<Longrightarrow> get_raw_example B v = Some ()"
    "remove_example B v = Some ()" "len_example B v = Some ()" "is_empty_example B v = Some ()"
    by (simp_all add: insert_example_def insert_raw_example_def get_example_def get_raw_example_def
        remove_example_def len_example_def is_empty_example_def new_session_eq[OF assms] session_runs
        session_remove_def remove_data_def session_len_def session_is_empty_def)
qed

subsection \<open>Expiry\<close>

definition expiry_example :: "'v bench \<Rightarrow> datetime \<Rightarrow> unit option" where
  "expiry_example B now =
     do {
       (s, h) \<leftarrow> new_session B 0 heap_empty;
       _ \<leftarrow> assert_that (s_expiry s = None);
       s \<leftarrow> expire_in (nat nanos_per_sec) now s;
       assert_that (s_expiry s \<noteq> None)
     }"

definition set_expiry_example :: "'v bench \<Rightarrow> datetime \<Rightarrow> unit option" where
  "set_expiry_example B now =
     do {
       (s, h) \<leftarrow> new_session B 0 heap_empty;
       _ \<leftarrow> assert_that (s_expiry s = None);
       let s = set_expiry now s;
       assert_that (s_expiry s \<noteq> None)
     }"

definition is_expired_example :: "'v bench \<Rightarrow> datetime \<Rightarrow> datetime \<Rightarrow> datetime \<Rightarrow> unit option" where
  "is_expired_example B now0 now1 now2 =
     do {
       (s, h) \<leftarrow> new_session B 0 heap_empty;
       _ \<leftarrow> assert_that (s_expiry s = None);
       _ \<leftarrow> assert_that (\<not> is_expired now0 s);
       s \<leftarrow> expire_in (nat nanos_per_sec) now0 s;
       _ \<leftarrow> assert_that (\<not> is_expired now1 s);
       assert_that (is_expired now2 s)
     }"

definition validate_example :: "'v bench \<Rightarrow> datetime \<Rightarrow> datetime \<Rightarrow> datetime \<Rightarrow> unit option" where
  "validate_example B now0 now1 now2 =
     do {
       (s, h) \<leftarrow> new_session B 0 heap_empty;
       s \<leftarrow> session_validate now0 s;
       s \<leftarrow> expire_in (nat nanos_per_sec) now0 s;
       s \<leftarrow> session_validate now1 s;
       assert_that (session_validate now2 s = None)
     }"

definition expires_in_example :: "'v bench \<Rightarrow> datetime \<Rightarrow> datetime \<Rightarrow> unit option" where
  "expires_in_example B now0 now1 =
     do {
       (s, h) \<leftarrow> new_session B 0 heap_empty;
       s \<leftarrow> expire_in (nat (123 * nanos_per_sec)) now0 s;
       duration \<leftarrow> expires_in now1 s;
       assert_that (123 - int duration div nanos_per_sec < 2)
     }"

lemma expiry_examples_hold:
  assumes "bench_laws 8 B" and "now0 \<le> now1" and "now1 \<le> now0 + nanos_per_sec"
    and "now0 + nanos_per_sec < now2" and "now0 + 123 * nanos_per_sec \<le> datetime_max"
  shows "expiry_example B now0 = Some ()" "set_expiry_example B now0 = Some ()"
    "is_expired_example B now0 now1 now2 = Some ()" "validate_example B now0 now1 now2 = Some ()"
    "expires_in_example B now0 now1 = Some ()"
proof -
  note defs = expire_in_def set_expiry_def session_validate_def is_expired_def expires_in_def
  have max: "now0 + nanos_per_sec \<le> datetime_max" using assms(5) by simp
  show "expiry_example B now0 = Some ()" "set_expiry_example B now0 = Some ()"
    "is_expired_example B now0 now1 now2 = Some ()" "validate_example B now0 now1 now2 = Some ()"
    using assms(2-4) max
    by (simp_all add: expiry_example_def set_expiry_example_def is_expired_example_def validate_example_def
        new_session_eq[OF assms(1)] defs)
  have "122 \<le> (now0 + 123 * nanos_per_sec - now1) div nanos_per_sec"
    using assms(3) zdiv_mono1[of "122 * nanos_per_sec" "now0 + 123 * nanos_per_sec - now1" nanos_per_sec] by simp
  then show "expires_in_example B now0 now1 = Some ()"
    using assms(2,3,5) by (simp add: expires_in_example_def new_session_eq[OF assms(1)] defs)
qed

end
