(* ===== verification/Spec2Isabelle.thy ===== *)
theory Spec2Isabelle
  imports Save_Tracking Lineage_Liveness Cancellation Backend_Protocol Custom_Store Memory_Tour
    Sql_Schema Diagnostics
    Session_Tests Cleanup_Tests Cookie_Tests Backend_Tests Doc_Examples
begin

text \<open>
  Verification of \<open>saysion\<close>, the session library of \<open>src/\<close> (paths below are relative to the
  crate's source directory \<open>src/src/\<close>).

  The program. A \<open>Session\<close> is a handle that request-local clones share: values and change
  tracking (\<open>SessionData\<close>), the persisted identity, a creation flag, a destruction flag and a
  lifecycle mutex live behind \<open>Arc\<close>s, while identity, expiry and cookie value belong to the
  handle. A store turns a session into a cookie value and back. Client-side stores put the
  serialized session into the cookie; server-side stores keep a record under the hash of the
  cookie. All server-side stores run the same protocol: a save obtains the authority to
  create or replace one record (\<open>persistence_attempt\<close>), captures the data with a revision
  token (\<open>persistence_snapshot\<close>), takes the lifecycle lock (\<open>begin_backend_write\<close>), writes
  conditionally on the origin, checks for destruction (\<open>finish\<close>), and acknowledges the
  revision. A deletion marks the destruction, takes the same lock and removes the record.

  Model. Clones share a heap (\<open>Shared_Heap\<close>) of addressed cells, one map for each kind of
  \<open>Arc\<close>; a session is a record of its own fields and five addresses, so that two clones are two
  records with equal addresses. Operations are functions of the heap that return it updated.
  Every early return is a branch of a sum or an option type, and drops of tokens and guards
  are written where Rust runs them. A handler takes an \<open>interleaving\<close>: at each \<open>await\<close> an
  arbitrary function stands for what other tasks do there, and \<open>undisturbed\<close> is the identity.
  A lock that is taken is the value \<open>Pending\<close>. Requests to a server can be lost before or after
  the server has run them (\<open>fault\<close>).

  Theories and code:
  \<^item> \<open>Prelude\<close>: the scalars, errors and polls of the crate, shared rules and collections.
  \<^item> \<open>Shared_Heap\<close>, \<open>Save_Revision\<close>: \<open>SessionData\<close> and \<open>SaveRevision\<close> of \<open>session.rs\<close>, with the
    contract of overlapping saves as the locale \<open>save_cohort\<close>. \<open>Save_Tracking\<close> runs them beside a
    backend: data reported unchanged is the data the backend holds, unless the last write that
    landed was that of a dropped save.
  \<^item> \<open>Session_Lifecycle\<close>: the mutex and the guards of \<open>session_lifecycle.rs\<close>.
  \<^item> \<open>Session\<close>: every method of \<open>Session\<close> in \<open>session.rs\<close>. \<open>Session_Facts\<close> has construction
    and the creation authority over all steps of the crate; \<open>Session_Identity\<close> has
    rotation and the validation of loaded records. \<open>Reference_Engine\<close> is an instance of the
    arguments for Base64, the hash and the random generator.
  \<^item> \<open>Session_Save\<close>: \<open>SessionSnapshot\<close> and \<open>SessionSave\<close> of \<open>session_save.rs\<close>, and what a
    destruction mark stops in them.
  \<^item> \<open>Lineage_Protocol\<close>: the abstract specification of a server-side store. The locales
    \<open>backend_writes\<close> and \<open>conditional_backend\<close> state what \<open>SessionSave::origin\<close> documents of a
    backend, \<open>conditional_write\<close> is the specification itself, and \<open>lineage_step\<close> interleaves
    any number of tasks of one clone family, cancelled ones included. The memory, Redis and SQL
    stores provide \<open>conditional_backend\<close>, the MongoDB store the smaller contract.
    \<open>Lineage_Liveness\<close>: its executions, and what a fair one brings about.
  \<^item> \<open>Memory_Store\<close>: \<open>memory_store.rs\<close>; \<open>Memory_Index\<close> (the expiry index, locale
    \<open>expiring_store\<close>), \<open>Memory_Cleanup\<close>, \<open>Memory_Facts\<close> and \<open>Memory_Handlers\<close> prove it correct.
  \<^item> \<open>Wire_Format\<close>: the serialized fields of a session and the codecs as arguments.
    \<open>Cookie_Stores\<close>, \<open>Cookie_Facts\<close>: \<open>cookie_store.rs\<close> and \<open>signed_cookie_store.rs\<close>.
  \<^item> \<open>Remote_Store\<close>: the handlers that the three kinds of external stores share, with the
    requests as arguments. \<open>Remote_Facts\<close> has their exits, and the locales \<open>remote_backend\<close> and
    \<open>remote_records\<close> for the fence around unconfirmed creations and for round trips.
  \<^item> \<open>Redis_Store\<close>, \<open>Redis_Facts\<close>, \<open>Redis_Protocol\<close>, \<open>Redis_Scan\<close>: \<open>redis_store.rs\<close>.
  \<^item> \<open>Mongo_Store\<close>, \<open>Mongo_Facts\<close>, \<open>Mongo_Protocol\<close>, \<open>Mongo_Contract\<close>: \<open>mongodb_store.rs\<close>.
  \<^item> \<open>Sql_Store\<close>, \<open>Sql_Facts\<close>, \<open>Sql_Load\<close>, \<open>Sql_Reference\<close>, \<open>Sql_Protocol\<close>, \<open>Sql_Schema\<close>: the three
    modules of \<open>sqlx_store.rs\<close>, which are one text up to a dialect.
  \<^item> \<open>Store_Contract\<close>: the locales \<open>keyed_store\<close> and \<open>text_store\<close>, an undisturbed store seen as a
    map from identities to texts, which the three kinds of external stores are. \<open>Store_Trait\<close>: the trait of
    \<open>session_store.rs\<close> as a record of its methods, its implementations, and a client of it, which
    \<open>Memory_Tour\<close> runs on the in-memory store.
  \<^item> \<open>Custom_Store\<close>: a store over the public protocol of \<open>SessionSave\<close>, the one of
    \<open>tests/custom_store.rs\<close> that \<open>docs/custom-stores.md\<close> describes, and its agreement with the
    protocol that the crate's stores run.
  \<^item> \<open>Handler_Protocol\<close>, \<open>Remote_Protocol\<close>, \<open>Backend_Protocol\<close>: the handlers of the in-memory store and,
    by the locale \<open>protocol_backend\<close>, of the three kinds of external stores as executions of
    \<open>lineage_step\<close>, so that deletion is final for calls of \<open>destroy_session\<close> and \<open>store_session\<close>.
  \<^item> \<open>Cancellation\<close>: saves and deletions whose future is dropped at a suspension point.
  \<^item> \<open>Diagnostics\<close>: the \<open>Debug\<close> and \<open>Display\<close> implementations, and what they cannot reveal.
  \<^item> \<open>Test_Bench\<close>, \<open>Session_Tests\<close>, \<open>Memory_Tests\<close>, \<open>Cleanup_Tests\<close>, \<open>Cookie_Tests\<close>,
    \<open>Backend_Tests\<close>, \<open>Doc_Examples\<close>: the unit tests and the documented examples of the crate,
    replayed on the model and proved to pass. They guard the definitions: a model that departed
    from what the crate tests would fail here.

  What is shown. Safety over all interleavings: once a coordinated deletion has succeeded, no
  task of the family adds a record, in the protocol and by any call of the handlers; at most one task holds the lock; a family may create a
  record at most once; an identity rotated in two clones is saved by at most one of them; a
  failed creation is removed or fences the family off. Refinement: the write of each store is
  the documented conditional write, in one step or, for MongoDB, with the old record removed
  first. Rotations in SQL are atomic and in MongoDB fail closed under every fault. Round
  trips: what was saved is what its cookie loads. Error behaviour: every exit of a save or a
  deletion, cancellation included, releases the lock, keeps unsaved data dirty and records
  uncertainty. Bounds: cookie and payload lengths, cleanup batches and their work, lifetimes and dates at their widths. Termination: the
  scan loops of Redis. Liveness: under fair scheduling no operation waits for ever. Composition:
  the life of a session, from creation through a rotation to destruction, in each store.

  Fairness. In a fair execution a task that can take a step does so eventually, and one that
  waits for the lifecycle lock gets it if the lock is free again and again: futures are polled,
  and the mutex of \<open>async_lock\<close> does not starve its waiters. As a task that holds the lock can
  always leave by an error of its backend, this includes that every call of a backend returns;
  the connection that \<open>RedisStore\<close> opens by default has no response timeout
  (\<open>redis_store.rs\<close>, lines 53 to 57), so that there it is an assumption about the server.

  Bounds and fuel. Revisions are 64-bit words; the claims about change tracking are
  about fewer than 2^64 edits of one loaded session, and the definitions wrap as the code does.
  Dates are nanoseconds within the range of \<open>OffsetDateTime\<close> where a claim needs it.
  No definition has fuel: the scan loops of Redis are \<open>partial_function (option)\<close> and their
  return is proved from the documented guarantees of \<open>SCAN\<close>; all other loops are structural or
  have a termination proof.

  Arguments. Base64, BLAKE3, HMAC-SHA256, \<open>postcard\<close>, \<open>serde_json\<close>, the random generator, the
  clock, Redis, MongoDB and the SQL databases are not code of the crate. They are arguments,
  with their documented behaviour as named predicates (\<open>base64_laws\<close>, \<open>hmac_laws\<close>, \<open>codec_laws\<close>,
  \<open>redis_laws\<close>, \<open>glob_laws\<close>, \<open>scan_laws\<close>, \<open>mongo_laws\<close>, \<open>sql_laws\<close>). Each of these predicates
  is proved of a concrete instance, on which the witnesses are evaluated. Bytes that HMAC hashes
  are one list, after the update calls that the code makes.

  Not modelled, or modelled by a decision that a reader should know:
  \<^item> Locks are never poisoned, and a synchronous lock held over no \<open>await\<close> makes its operation one
    step. The count of strong references to the data is an argument of \<open>validate_loaded\<close>.
  \<^item> Transactions are isolated by law: between its statements other clients do not see or
    change the rows it has touched.
  \<^item> Errors of drivers and of the network are one value, \<open>BackendFailure\<close>.
  \<^item> \<open>persistence_attempt\<close> is one step, though the code reads the destruction mark, the persisted
    identity and the creation flag one after the other. A claim by a clone between the check of
    \<open>persistence_origin\<close> and the \<open>compare_exchange\<close> is refused there with the error that the check
    gives in the model, so that the second test of the flag is never reached in it.
  \<^item> In \<open>lineage_step\<close> the records are touched by one clone family and by removals of anyone else;
    records that other sessions add have other identities and are not steps.
  \<^item> \<open>track_step\<close> lets the write of a dropped save land at any later time; that case is the
    exception in \<open>unchanged_data_is_persisted\<close>, and \<open>late_write_is_not_fenced\<close> shows it is needed.
  \<^item> \<open>sql_laws\<close> states what the crate's own statements mean to a database, for each dialect: the texts
    are sent as they are, but are not parsed. Identities compare as byte strings and columns hold
    every text, which in MySQL depends on the collation and the size of the columns.
  \<^item> The number of active saves is a \<open>nat\<close> where the code has \<open>usize\<close>.
  \<^item> Acknowledging a captured revision asks for no authority, in the code as in \<open>crate_step\<close>: the cookie
    stores acknowledge sessions of a destroyed family. \<open>destruction_is_final\<close> is about authorities,
    guards and the saves of the public protocol.
  \<^item> The order in which a hash map is iterated, and hence the bytes of a codec, is the codec's.
  \<^item> Logging, derived \<open>Debug\<close> implementations, the constructors that only connect
    (\<open>from_url\<close>, \<open>from_uri\<close>, \<open>RedisStore::new\<close>) and the exports of \<open>lib.rs\<close> have no definition.
  \<^item> Two instruments of the unit tests are read off the model: the calls of \<open>snapshot\<close> are counted by
    the allocations they make, and the probe of the data lock is left out, as a read is one step.
    Of the integration tests of \<open>tests/\<close> the store that they define is modelled, their scenarios
    are instances of the general claims.
\<close>

end
